(* ===== verification/Prelude.thy ===== *)
theory Prelude
  imports Main "HOL-Library.Sublist" "HOL-Library.Word"
begin

text \<open>
  Shared vocabulary of the development: the types that stand for Go's values, the control
  bytes the sources write, the collections of rewrite rules the component theories extend,
  and the generic facts on lists and options that several of them use.

  A Go \<open>string\<close> is a sequence of bytes, so it is Isabelle's \<open>string\<close> (a list of 8-bit
  characters) and \<open>length\<close> is Go's \<open>len\<close>. A Go \<open>int\<close> or \<open>int64\<close> of the supported
  (64-bit) platforms is a \<open>64 word\<close> read with \<open>sint\<close>, and a C \<open>enum\<close> is a \<open>32 word\<close>.
\<close>

type_synonym i64 = "64 word"
type_synonym u32 = "32 word"

abbreviation TAB :: char where "TAB \<equiv> CHR 0x09"
abbreviation LF :: char where "LF \<equiv> CHR 0x0A"
abbreviation CR :: char where "CR \<equiv> CHR 0x0D"
abbreviation SP :: char where "SP \<equiv> CHR 0x20"
abbreviation NUL :: char where "NUL \<equiv> CHR 0x00"

named_theorems str_simps \<open>rewrite rules of the string operations\<close>
named_theorems path_simps \<open>rewrite rules of the path operations\<close>
named_theorems sys_simps \<open>rewrite rules of the system calls\<close>
named_theorems err_simps \<open>rewrite rules of error values\<close>

subsection \<open>Lists\<close>

lemma takeWhile_eq_self: "\<forall>x \<in> set xs. P x \<Longrightarrow> takeWhile P xs = xs"
  by (induction xs) auto

lemma dropWhile_eq_Nil: "\<forall>x \<in> set xs. P x \<Longrightarrow> dropWhile P xs = []"
  by (induction xs) auto

lemma takeWhile_neq_stop [simp]:
  "c \<notin> set xs \<Longrightarrow> takeWhile (\<lambda>x. x \<noteq> c) (xs @ c # ys) = xs"
  by (induction xs) auto

lemma dropWhile_neq_stop [simp]:
  "c \<notin> set xs \<Longrightarrow> dropWhile (\<lambda>x. x \<noteq> c) (xs @ c # ys) = c # ys"
  by (induction xs) auto

lemma prefix_append_iff: "prefix xs (xs @ ys)"
  by (simp add: prefix_def)

lemma drop_prefix_length: "prefix xs ys \<Longrightarrow> xs @ drop (length xs) ys = ys"
  by (auto simp: prefix_def)

lemma append_same_suffix_length:
  "xs @ zs = ys @ zs \<longleftrightarrow> xs = ys"
  by simp

lemma butlast_last_eq: "xs \<noteq> [] \<Longrightarrow> butlast xs @ [last xs] = xs"
  by simp

lemma prefix_butlast: "prefix (butlast xs) xs"
  by (cases xs rule: rev_cases) auto

subsection \<open>Maps\<close>

lemma map_upd_other: "k \<noteq> k' \<Longrightarrow> (m(k \<mapsto> v)) k' = m k'"
  by simp

lemma map_of_rev: "distinct (map fst m) \<Longrightarrow> map_of (rev m) = map_of m"
  by (subst map_of_inject_set) (simp_all add: rev_map [symmetric])

text \<open>Go does not fix the order in which it visits a map.\<close>

lemma map_of_any_order:
  "distinct (map fst m) \<Longrightarrow> distinct (map fst m') \<Longrightarrow> set m' = set m \<Longrightarrow> map_of m' = map_of m"
  by (simp add: map_of_inject_set)

end
