(* ===== verification/Go_Strings.thy ===== *)
theory Go_Strings
  imports Prelude
begin

text \<open>
  The parts of Go's standard library packages \<open>strings\<close>, \<open>strconv\<close> and \<open>unicode\<close>
  that the sources call, on byte strings: cutting, splitting and joining, trimming by
  character class (over the UTF-8 encodings of Go's white space, so that non-ASCII text is
  treated as Go treats it), decimal numbers at their 64-bit width, and the \<open>fmt\<close> verbs the
  messages use. The lemmas are the laws the component theories rest on.
\<close>

subsection \<open>Searching, cutting, splitting\<close>

definition is_ascii :: "char \<Rightarrow> bool" where
  "is_ascii c = (\<not> digit7 c)"

definition contains_any :: "string \<Rightarrow> string \<Rightarrow> bool" where
  "contains_any s chars = list_ex (\<lambda>c. c \<in> set chars) s"

fun contains :: "string \<Rightarrow> string \<Rightarrow> bool" where
  "contains [] sub = (sub = [])"
| "contains (x # xs) sub = (prefix sub (x # xs) \<or> contains xs sub)"

definition cut :: "char \<Rightarrow> string \<Rightarrow> string \<times> string \<times> bool" where
  "cut c s = (if c \<in> set s
     then (takeWhile (\<lambda>x. x \<noteq> c) s, tl (dropWhile (\<lambda>x. x \<noteq> c) s), True)
     else (s, [], False))"

definition cut_prefix :: "string \<Rightarrow> string \<Rightarrow> string \<times> bool" where
  "cut_prefix s p = (if prefix p s then (drop (length p) s, True) else (s, False))"

definition trim_prefix :: "string \<Rightarrow> string \<Rightarrow> string" where
  "trim_prefix s p = fst (cut_prefix s p)"

fun split :: "char \<Rightarrow> string \<Rightarrow> string list" where
  "split c [] = [[]]"
| "split c (x # xs) =
     (if x = c then [] # split c xs
      else (case split c xs of [] \<Rightarrow> [[x]] | y # ys \<Rightarrow> (x # y) # ys))"

fun join :: "char \<Rightarrow> string list \<Rightarrow> string" where
  "join c [] = []"
| "join c [s] = s"
| "join c (s # t # ss) = s @ c # join c (t # ss)"

lemma contains_any_iff: "contains_any s chars \<longleftrightarrow> set s \<inter> set chars \<noteq> {}"
  by (auto simp: contains_any_def list_ex_iff)

lemma contains_iff_sublist: "contains s sub \<longleftrightarrow> (\<exists>a b. s = a @ sub @ b)"
proof (induction s)
  case Nil
  then show ?case by simp
next
  case (Cons x xs)
  show ?case
  proof
    assume "contains (x # xs) sub"
    then consider "prefix sub (x # xs)" | "contains xs sub" by auto
    then show "\<exists>a b. x # xs = a @ sub @ b"
    proof cases
      case 1
      then show ?thesis by (metis append_Nil prefix_def)
    next
      case 2
      with Cons.IH show ?thesis by (metis append_Cons)
    qed
  next
    assume "\<exists>a b. x # xs = a @ sub @ b"
    then obtain a b where ab: "x # xs = a @ sub @ b" by blast
    show "contains (x # xs) sub"
    proof (cases a)
      case Nil
      with ab have "prefix sub (x # xs)" by (simp add: prefix_def)
      then show ?thesis by simp
    next
      case (Cons y ys)
      with ab have "xs = ys @ sub @ b" by simp
      with Cons.IH show ?thesis by auto
    qed
  qed
qed

lemma cut_at [str_simps]: "c \<notin> set k \<Longrightarrow> cut c (k @ c # v) = (k, v, True)"
  by (simp add: cut_def)

lemma cut_absent [str_simps]: "c \<notin> set s \<Longrightarrow> cut c s = (s, [], False)"
  by (simp add: cut_def)

lemma cut_found: "cut c s = (k, v, True) \<Longrightarrow> s = k @ c # v \<and> c \<notin> set k"
proof -
  assume a: "cut c s = (k, v, True)"
  then have c: "c \<in> set s" by (auto simp: cut_def split: if_splits)
  then obtain xs ys where s: "s = xs @ c # ys" "c \<notin> set xs"
    by (meson split_list_first)
  with a show ?thesis by (simp add: cut_at)
qed

lemma cut_not_found: "cut c s = (k, v, False) \<Longrightarrow> k = s \<and> v = [] \<and> c \<notin> set s"
  by (auto simp: cut_def split: if_splits)

lemma cut_key_clean: "cut c s = (k, v, b) \<Longrightarrow> c \<notin> set k"
  by (cases b) (auto dest: cut_found cut_not_found)

lemma trim_prefix_append [str_simps]: "trim_prefix (p @ s) p = s"
  by (simp add: trim_prefix_def cut_prefix_def)

lemma split_not_Nil [simp]: "split c s \<noteq> []" "[] \<noteq> split c s"
  by (induction s) (auto split: list.splits)

lemma split_no_sep [str_simps]: "c \<notin> set s \<Longrightarrow> split c s = [s]"
  by (induction s) auto

lemma split_append_sep [str_simps]: "split c (s @ c # t) = split c s @ split c t"
  by (induction s) (auto split: list.splits)

lemma join_Cons: "ss \<noteq> [] \<Longrightarrow> join c (s # ss) = s @ c # join c ss"
  by (cases ss) auto

lemma join_split: "join c (split c s) = s"
proof (induction s)
  case Nil
  then show ?case by simp
next
  case (Cons x xs)
  show ?case
  proof (cases "x = c")
    case True
    with Cons show ?thesis by (simp add: join_Cons)
  next
    case False
    obtain y ys where y: "split c xs = y # ys" by (cases "split c xs") auto
    with Cons False show ?thesis by (cases ys) auto
  qed
qed

lemma split_join: "ss \<noteq> [] \<Longrightarrow> \<forall>s \<in> set ss. c \<notin> set s \<Longrightarrow> split c (join c ss) = ss"
proof (induction c ss rule: join.induct)
  case (3 c s t ss)
  then have "split c (s @ c # join c (t # ss)) = split c s @ split c (join c (t # ss))"
    by (simp add: split_append_sep)
  with 3 show ?case by (simp add: split_no_sep)
qed (auto simp: split_no_sep)

lemma split_elem_no_sep: "x \<in> set (split c s) \<Longrightarrow> c \<notin> set x"
  by (induction s arbitrary: x) (auto split: list.splits if_splits)

subsection \<open>Trimming by a set of encoded runes\<close>

text \<open>
  Go trims runes, not bytes. A rune of the set is at the front of a byte string exactly when
  its UTF-8 encoding is a prefix of it, and at the back exactly when it is a suffix (the
  decoders of \<open>unicode/utf8\<close> read a valid encoding from either side). So a set of runes is
  the list of their encodings, and trimming drops encodings from the front and the back.
\<close>

function trim_left_enc :: "string list \<Rightarrow> string \<Rightarrow> string" where
  "trim_left_enc encs s =
     (case find (\<lambda>e. e \<noteq> [] \<and> prefix e s) encs of
        None \<Rightarrow> s
      | Some e \<Rightarrow> trim_left_enc encs (drop (length e) s))"
  by pat_completeness auto
termination
  by (relation "measure (\<lambda>(encs, s). length s)")
     (auto simp: find_Some_iff prefix_def)

declare trim_left_enc.simps [simp del]

definition trim_right_enc :: "string list \<Rightarrow> string \<Rightarrow> string" where
  "trim_right_enc encs s = rev (trim_left_enc (map rev encs) (rev s))"

definition trim_enc :: "string list \<Rightarrow> string \<Rightarrow> string" where
  "trim_enc encs s = trim_right_enc encs (trim_left_enc encs s)"

text \<open>\<open>unicode.IsSpace\<close>: the white space runes, in UTF-8.\<close>

definition space_encs :: "string list" where
  "space_encs =
     [[SP], [TAB], [LF], [CHR 0x0B], [CHR 0x0C], [CR],
      [CHR 0xC2, CHR 0x85], [CHR 0xC2, CHR 0xA0], [CHR 0xE1, CHR 0x9A, CHR 0x80],
      [CHR 0xE2, CHR 0x80, CHR 0x80], [CHR 0xE2, CHR 0x80, CHR 0x81],
      [CHR 0xE2, CHR 0x80, CHR 0x82], [CHR 0xE2, CHR 0x80, CHR 0x83],
      [CHR 0xE2, CHR 0x80, CHR 0x84], [CHR 0xE2, CHR 0x80, CHR 0x85],
      [CHR 0xE2, CHR 0x80, CHR 0x86], [CHR 0xE2, CHR 0x80, CHR 0x87],
      [CHR 0xE2, CHR 0x80, CHR 0x88], [CHR 0xE2, CHR 0x80, CHR 0x89],
      [CHR 0xE2, CHR 0x80, CHR 0x8A], [CHR 0xE2, CHR 0x80, CHR 0xA8],
      [CHR 0xE2, CHR 0x80, CHR 0xA9], [CHR 0xE2, CHR 0x80, CHR 0xAF],
      [CHR 0xE2, CHR 0x81, CHR 0x9F], [CHR 0xE3, CHR 0x80, CHR 0x80]]"

definition trim_space :: "string \<Rightarrow> string" where
  "trim_space s = trim_enc space_encs s"

text \<open>A string starts (ends) clean when no encoding of the set is a prefix (suffix) of it.\<close>

definition clean_left :: "string list \<Rightarrow> string \<Rightarrow> bool" where
  "clean_left encs s = (\<forall>e \<in> set encs. e \<noteq> [] \<longrightarrow> \<not> prefix e s)"

definition clean_right :: "string list \<Rightarrow> string \<Rightarrow> bool" where
  "clean_right encs s = (\<forall>e \<in> set encs. e \<noteq> [] \<longrightarrow> \<not> suffix e s)"

lemma trim_left_enc_clean: "clean_left encs (trim_left_enc encs s)"
proof (induction encs s rule: trim_left_enc.induct)
  case (1 encs s)
  show ?case
  proof (cases "find (\<lambda>e. e \<noteq> [] \<and> prefix e s) encs")
    case None
    then have "trim_left_enc encs s = s" by (subst trim_left_enc.simps) simp
    with None show ?thesis by (auto simp: find_None_iff clean_left_def)
  next
    case (Some e)
    with 1 show ?thesis by (subst trim_left_enc.simps) simp
  qed
qed

lemma trim_left_enc_id: "clean_left encs s \<Longrightarrow> trim_left_enc encs s = s"
proof -
  assume "clean_left encs s"
  then have "find (\<lambda>e. e \<noteq> [] \<and> prefix e s) encs = None"
    by (auto simp: find_None_iff clean_left_def)
  then show ?thesis by (subst trim_left_enc.simps) simp
qed

lemma trim_left_enc_suffix: "suffix (trim_left_enc encs s) s"
proof (induction encs s rule: trim_left_enc.induct)
  case (1 encs s)
  show ?case
  proof (cases "find (\<lambda>e. e \<noteq> [] \<and> prefix e s) encs")
    case None
    then show ?thesis by (subst trim_left_enc.simps) simp
  next
    case (Some e)
    then have "suffix (trim_left_enc encs (drop (length e) s)) (drop (length e) s)" by (rule 1)
    then have "suffix (trim_left_enc encs (drop (length e) s)) s"
      by (metis append_take_drop_id suffix_def suffix_order.trans)
    with Some show ?thesis by (subst trim_left_enc.simps) simp
  qed
qed

lemma clean_right_rev: "clean_left (map rev encs) (rev s) = clean_right encs s"
  by (auto simp: clean_left_def clean_right_def suffix_to_prefix)

lemma trim_right_enc_clean: "clean_right encs (trim_right_enc encs s)"
  by (metis clean_right_rev rev_rev_ident trim_left_enc_clean trim_right_enc_def)

lemma trim_right_enc_id: "clean_right encs s \<Longrightarrow> trim_right_enc encs s = s"
  by (simp add: trim_right_enc_def trim_left_enc_id clean_right_rev)

lemma trim_right_enc_prefix: "prefix (trim_right_enc encs s) s"
  by (metis rev_rev_ident suffix_to_prefix trim_left_enc_suffix trim_right_enc_def)

lemma clean_left_prefix: "clean_left encs s \<Longrightarrow> prefix t s \<Longrightarrow> clean_left encs t"
  by (meson clean_left_def prefix_order.trans)

lemma trim_enc_clean: "clean_left encs (trim_enc encs s) \<and> clean_right encs (trim_enc encs s)"
  unfolding trim_enc_def
  by (blast intro: clean_left_prefix trim_left_enc_clean trim_right_enc_clean
      trim_right_enc_prefix)

lemma trim_enc_id: "clean_left encs s \<Longrightarrow> clean_right encs s \<Longrightarrow> trim_enc encs s = s"
  by (simp add: trim_enc_def trim_left_enc_id trim_right_enc_id)

lemma trim_enc_idem [simp]: "trim_enc encs (trim_enc encs s) = trim_enc encs s"
  using trim_enc_clean trim_enc_id by blast

lemma trim_enc_sublist: "\<exists>a b. s = a @ trim_enc encs s @ b"
  by (metis append.assoc prefixE suffixE trim_enc_def trim_left_enc_suffix trim_right_enc_prefix)

lemma set_trim_enc: "set (trim_enc encs s) \<subseteq> set s"
  by (metis Un_iff set_append subsetI trim_enc_sublist)

subsection \<open>Decimal numbers\<close>

definition is_digit :: "char \<Rightarrow> bool" where
  "is_digit c = (c \<in> set ''0123456789'')"

definition digit_val :: "char \<Rightarrow> nat" where
  "digit_val c = of_char c - 48"

definition digit_char :: "nat \<Rightarrow> char" where
  "digit_char n = ''0123456789'' ! n"

function show_digits :: "int \<Rightarrow> string" where
  "show_digits i =
     (if i < 10 then [digit_char (nat i)]
      else show_digits (i div 10) @ [digit_char (nat (i mod 10))])"
  by pat_completeness auto
termination
  by (relation "measure nat") auto

declare show_digits.simps [simp del]

definition show_int :: "int \<Rightarrow> string" where
  "show_int i = (if i < 0 then CHR ''-'' # show_digits (- i) else show_digits i)"

definition itoa :: "i64 \<Rightarrow> string" where
  "itoa w = show_int (sint w)"

definition digits_val :: "string \<Rightarrow> int" where
  "digits_val s = foldl (\<lambda>a c. 10 * a + int (digit_val c)) 0 s"

definition all_digits :: "string \<Rightarrow> bool" where
  "all_digits s = (s \<noteq> [] \<and> list_all is_digit s)"

text \<open>\<open>strconv.ParseInt(s, 10, 64)\<close>: an optional sign, then digits, in the range of an int64.\<close>

fun parse_int :: "string \<Rightarrow> int option" where
  "parse_int [] = None"
| "parse_int (c # s) =
     (if c = CHR ''-'' then (if all_digits s then Some (- digits_val s) else None)
      else if c = CHR ''+'' then (if all_digits s then Some (digits_val s) else None)
      else if all_digits (c # s) then Some (digits_val (c # s)) else None)"

definition parse_i64 :: "string \<Rightarrow> i64 option" where
  "parse_i64 s = (case parse_int s of
     None \<Rightarrow> None
   | Some i \<Rightarrow> if - 9223372036854775808 \<le> i \<and> i < 9223372036854775808 then Some (word_of_int i) else None)"

text \<open>\<open>strconv.Atoi\<close> is \<open>ParseInt(s, 10, 0)\<close>, and an \<open>int\<close> has 64 bits.\<close>

definition atoi :: "string \<Rightarrow> i64 option" where
  "atoi s = parse_i64 s"

lemma digit_cases:
  assumes "(n::nat) < 10"
  obtains "n = 0" | "n = 1" | "n = 2" | "n = 3" | "n = 4" | "n = 5" | "n = 6" | "n = 7" | "n = 8" | "n = 9"
proof -
  from assms have "n \<in> {0, 1, 2, 3, 4, 5, 6, 7, 8, 9}" by auto
  then show ?thesis using that by blast
qed

lemma is_digit_digit_char [simp]: "n < 10 \<Longrightarrow> is_digit (digit_char n)"
  by (elim digit_cases) (simp_all add: digit_char_def is_digit_def)

lemma digit_val_digit_char [simp]: "n < 10 \<Longrightarrow> digit_val (digit_char n) = n"
  by (elim digit_cases) (simp_all add: digit_char_def digit_val_def)

lemma show_digits_not_Nil [simp]: "show_digits i \<noteq> []"
  by (subst show_digits.simps) simp

lemma show_digits_digits: "0 \<le> i \<Longrightarrow> list_all is_digit (show_digits i)"
proof (induction i rule: show_digits.induct)
  case (1 i)
  then show ?case by (subst show_digits.simps) (auto simp: nat_less_iff)
qed

lemma all_digits_show_digits [simp]: "0 \<le> i \<Longrightarrow> all_digits (show_digits i)"
  by (simp add: all_digits_def show_digits_digits)

lemma digits_val_snoc: "digits_val (s @ [c]) = 10 * digits_val s + int (digit_val c)"
  by (simp add: digits_val_def)

lemma digits_val_show_digits [simp]: "0 \<le> i \<Longrightarrow> digits_val (show_digits i) = i"
proof (induction i rule: show_digits.induct)
  case (1 i)
  show ?case
  proof (cases "i < 10")
    case True
    with 1 show ?thesis
      by (subst show_digits.simps) (simp add: digits_val_def nat_less_iff)
  next
    case False
    with 1 have "digits_val (show_digits (i div 10)) = i div 10" by simp
    with False show ?thesis
      by (subst show_digits.simps) (simp add: digits_val_snoc nat_less_iff)
  qed
qed

lemma digit_not_sign: "is_digit c \<Longrightarrow> c \<noteq> CHR ''-'' \<and> c \<noteq> CHR ''+''"
  by (auto simp: is_digit_def)

lemma parse_int_show_int: "parse_int (show_int i) = Some i"
proof (cases "i < 0")
  case True
  then show ?thesis by (simp add: show_int_def)
next
  case False
  then have i: "0 \<le> i" by simp
  obtain c s where cs: "show_digits i = c # s" by (cases "show_digits i") auto
  then have "is_digit c" using show_digits_digits [OF i] by simp
  moreover have "all_digits (c # s)" using all_digits_show_digits [OF i] cs by simp
  moreover have "digits_val (c # s) = i" using digits_val_show_digits [OF i] cs by simp
  ultimately show ?thesis using False cs digit_not_sign [of c]
    by (simp add: show_int_def del: digits_val_show_digits)
qed

lemma sint_i64_range: "- (2 ^ 63) \<le> sint (w :: i64)" "sint (w :: i64) < 2 ^ 63"
  using sint_greater_eq [of w] sint_less [of w] by simp_all

lemma parse_i64_itoa [simp]: "parse_i64 (itoa w) = Some w"
  using sint_i64_range [of w] by (auto simp: parse_i64_def itoa_def parse_int_show_int)

lemma atoi_itoa [simp]: "atoi (itoa w) = Some w"
  by (simp add: atoi_def)

lemma show_int_chars: "c \<in> set (show_int i) \<Longrightarrow> c = CHR ''-'' \<or> is_digit c"
  using show_digits_digits [of i] show_digits_digits [of "- i"]
  by (auto simp: show_int_def list_all_iff split: if_splits)

lemma itoa_not_Nil [simp]: "itoa w \<noteq> []"
  by (simp add: itoa_def show_int_def)

lemma itoa_chars: "c \<in> set (itoa w) \<Longrightarrow> c = CHR ''-'' \<or> is_digit c"
  by (simp add: itoa_def show_int_chars)

lemma itoa_no_control [simp]:
  "TAB \<notin> set (itoa w)" "LF \<notin> set (itoa w)" "CR \<notin> set (itoa w)" "SP \<notin> set (itoa w)"
  by (auto dest!: itoa_chars simp: is_digit_def)

lemma parse_int_chars:
  "parse_int s = Some i \<Longrightarrow> c \<in> set s \<Longrightarrow> is_digit c \<or> c = CHR ''-'' \<or> c = CHR ''+''"
  by (cases s) (auto simp: all_digits_def list_all_iff split: if_splits)

lemma parse_i64_Some_parse_int: "parse_i64 s = Some w \<Longrightarrow> parse_int s = Some (sint w)"
proof -
  assume "parse_i64 s = Some w"
  then obtain i where i: "parse_int s = Some i" "- 9223372036854775808 \<le> i" "i < 9223372036854775808" "w = word_of_int i"
    by (auto simp: parse_i64_def split: option.splits if_splits)
  then have "sint w = i"
    using signed_take_bit_int_eq_self [of 63 i] by (simp add: sint_sbintrunc')
  with i show ?thesis by simp
qed

subsection \<open>Trimming plain text; lower case\<close>

lemma trim_enc_plain:
  assumes "\<forall>e \<in> set encs. e \<noteq> [] \<longrightarrow> hd e \<notin> set s \<and> last e \<notin> set s"
  shows "trim_enc encs s = s"
proof (rule trim_enc_id)
  show "clean_left encs s"
    using assms by (fastforce simp: clean_left_def prefix_def neq_Nil_conv)
  show "clean_right encs s"
    using assms by (fastforce simp: clean_right_def suffix_def neq_Nil_conv)
qed

text \<open>Single-byte encodings around a text that neither starts nor ends like an encoding.\<close>

definition sole_enc :: "string list \<Rightarrow> char \<Rightarrow> bool" where
  "sole_enc encs c = ([c] \<in> set encs \<and>
     (\<forall>e \<in> set encs. e \<noteq> [] \<longrightarrow> (hd e = c \<or> last e = c) \<longrightarrow> e = [c]))"

definition edge_free :: "string list \<Rightarrow> string \<Rightarrow> bool" where
  "edge_free encs s = (s \<noteq> [] \<and> (\<forall>e \<in> set encs. e \<noteq> [] \<longrightarrow> hd e \<noteq> hd s \<and> last e \<noteq> last s))"

lemma trim_left_enc_sole:
  assumes "sole_enc encs c"
  shows "trim_left_enc encs (c # s) = trim_left_enc encs s"
proof -
  let ?P = "\<lambda>e. e \<noteq> [] \<and> prefix e (c # s)"
  have c: "[c] \<in> set encs" using assms by (simp add: sole_enc_def)
  then have "find ?P encs \<noteq> None" by (auto simp: find_None_iff)
  then obtain e where e: "find ?P encs = Some e" by auto
  then have "e \<in> set encs" "?P e" by (auto simp: find_Some_iff)
  moreover from this have "hd e = c" by (auto simp: prefix_Cons)
  ultimately have "e = [c]" using assms by (simp add: sole_enc_def)
  with e show ?thesis by (subst trim_left_enc.simps) simp
qed

lemma trim_left_enc_soles:
  "\<forall>c \<in> set a. sole_enc encs c \<Longrightarrow> trim_left_enc encs (a @ s) = trim_left_enc encs s"
  by (induction a) (simp_all add: trim_left_enc_sole)

lemma sole_enc_rev: "sole_enc encs c \<Longrightarrow> sole_enc (map rev encs) c"
proof -
  assume a: "sole_enc encs c"
  have "rev e = [c]" if "e \<in> set encs" "e \<noteq> []" "hd (rev e) = c \<or> last (rev e) = c" for e
  proof -
    have "hd e = c \<or> last e = c" using that by (auto simp: hd_rev last_rev)
    with a that(1,2) have "e = [c]" unfolding sole_enc_def by blast
    then show ?thesis by simp
  qed
  then have "\<forall>e \<in> set (map rev encs). e \<noteq> [] \<longrightarrow> hd e = c \<or> last e = c \<longrightarrow> e = [c]"
    unfolding set_map by blast
  moreover have "[c] \<in> set (map rev encs)" using a by (force simp: sole_enc_def)
  ultimately show ?thesis unfolding sole_enc_def by blast
qed

lemma trim_enc_wrap:
  assumes "\<forall>c \<in> set a. sole_enc encs c" "\<forall>c \<in> set b. sole_enc encs c" "edge_free encs s"
  shows "trim_enc encs (a @ s @ b) = s"
proof -
  have "clean_left encs (s @ b)" using assms(3)
    by (fastforce simp: edge_free_def clean_left_def prefix_def neq_Nil_conv append_eq_Cons_conv)
  then have l: "trim_left_enc encs (a @ s @ b) = s @ b"
    using assms(1) by (simp add: trim_left_enc_soles trim_left_enc_id)
  have "clean_left (map rev encs) (rev s)" using assms(3)
    by (subst clean_right_rev) (auto simp: edge_free_def clean_right_def suffix_def)
  moreover have "trim_left_enc (map rev encs) (rev b @ rev s) = trim_left_enc (map rev encs) (rev s)"
    using assms(2) by (intro trim_left_enc_soles) (simp add: sole_enc_rev)
  ultimately have "trim_right_enc encs (s @ b) = s"
    by (simp add: trim_right_enc_def trim_left_enc_id)
  with l show ?thesis by (simp add: trim_enc_def)
qed

text \<open>
  \<open>strings.ToLower\<close>, byte by byte. Two non-ASCII runes have an ASCII lower case: the Kelvin
  sign (\<open>k\<close>) and the capital I with dot (\<open>i\<close>). Every other non-ASCII rune is kept: its lower
  case is again non-ASCII, so no comparison with an ASCII word, which is all the sources do
  with the result, depends on it.
\<close>

definition lower_table :: "(char \<times> char) list" where
  "lower_table = zip ''ABCDEFGHIJKLMNOPQRSTUVWXYZ'' ''abcdefghijklmnopqrstuvwxyz''"

definition lower_char :: "char \<Rightarrow> char" where
  "lower_char c = (case map_of lower_table c of None \<Rightarrow> c | Some d \<Rightarrow> d)"

fun to_lower :: "string \<Rightarrow> string" where
  "to_lower [] = []"
| "to_lower (c # s) =
     (if c = CHR 0xC4 \<and> prefix [CHR 0xB0] s then CHR ''i'' # to_lower (drop 1 s)
      else if c = CHR 0xE2 \<and> prefix [CHR 0x84, CHR 0xAA] s then CHR ''k'' # to_lower (drop 2 s)
      else lower_char c # to_lower s)"

end
