(* ===== verification/Go_Errors.thy ===== *)
theory Go_Errors
  imports Go_Strings
begin

text \<open>
  Go's \<open>error\<close> values and the \<open>fmt\<close> verbs the messages use, and the hook errors and exit
  codes of \<open>src/internal/qrmiocs/sanitize.go\<close>. An error is a tree: a message with its
  arguments, a wrapped error (\<open>%w\<close>), an error that carries an exit code, a joined list, a
  failed system call or one of the sentinels. \<open>errors.Is\<close> and \<open>errors.As\<close> walk it.
\<close>

subsection \<open>Formatting\<close>

datatype arg = S string | D int | B bool

definition hex_char :: "nat \<Rightarrow> char" where
  "hex_char n = ''0123456789abcdef'' ! (n mod 16)"

text \<open>
  \<open>strconv.Quote\<close>: the escapes of the ASCII range. A byte above the ASCII range is kept, as
  Go keeps it in a printable rune; Go escapes it in a rune that is not printable.
\<close>

definition quote_char :: "char \<Rightarrow> string" where
  "quote_char c =
     (if c = CHR 0x22 then [CHR 0x5C, CHR 0x22]
      else if c = CHR 0x5C then [CHR 0x5C, CHR 0x5C]
      else if c = CHR 0x07 then [CHR 0x5C, CHR ''a'']
      else if c = CHR 0x08 then [CHR 0x5C, CHR ''b'']
      else if c = CHR 0x0C then [CHR 0x5C, CHR ''f'']
      else if c = LF then [CHR 0x5C, CHR ''n'']
      else if c = CR then [CHR 0x5C, CHR ''r'']
      else if c = TAB then [CHR 0x5C, CHR ''t'']
      else if c = CHR 0x0B then [CHR 0x5C, CHR ''v'']
      else if (of_char c :: nat) < 32 \<or> c = CHR 0x7F
        then [CHR 0x5C, CHR ''x'', hex_char (of_char c div 16), hex_char (of_char c)]
      else [c])"

definition quote :: "string \<Rightarrow> string" where
  "quote s = CHR 0x22 # concat (map quote_char s) @ [CHR 0x22]"

fun show_arg :: "char \<Rightarrow> arg \<Rightarrow> string" where
  "show_arg v (S s) = (if v = CHR ''q'' then quote s else s)"
| "show_arg v (D i) = show_int i"
| "show_arg v (B b) = (if b then ''true'' else ''false'')"

text \<open>A format string, each verb (a per cent sign and a letter) taking the next argument.\<close>

fun sprintf :: "string \<Rightarrow> arg list \<Rightarrow> string" where
  "sprintf [] as = []"
| "sprintf [c] as = [c]"
| "sprintf (c # v # f) as =
     (if c = CHR ''%'' then
        (case as of [] \<Rightarrow> c # sprintf (v # f) [] | a # as' \<Rightarrow> show_arg v a @ sprintf f as')
      else c # sprintf (v # f) as)"

subsection \<open>Error values\<close>

datatype errno = ENOENT | EEXIST | ENOTDIR | ELOOP | EISDIR | EINVAL | EIO | EPERM | ECLOSED | ETOOLONG

text \<open>
  \<open>Errorf f as\<close> is \<open>fmt.Errorf\<close> (or \<open>errors.New\<close>) without a wrapped error; \<open>Wrapf f as e\<close>
  has the wrapped error \<open>e\<close> as its last argument; \<open>WrapFirst f e as\<close> as its first.
\<close>

datatype gerr =
    Errorf string "arg list"
  | Wrapf string "arg list" gerr
  | WrapFirst string gerr "arg list"
  | HookError nat gerr
  | Joined "gerr list"
  | SysErr errno string
  | ErrNoRecord
  | ErrMultipleRecords
  | ErrRequestedResourceNotFound
  | ErrNotAvailable

definition errno_text :: "errno \<Rightarrow> string" where
  "errno_text e = (case e of
     ENOENT \<Rightarrow> ''no such file or directory''
   | EEXIST \<Rightarrow> ''file exists''
   | ENOTDIR \<Rightarrow> ''not a directory''
   | ELOOP \<Rightarrow> ''too many links''
   | EISDIR \<Rightarrow> ''is a directory''
   | EINVAL \<Rightarrow> ''invalid argument''
   | EIO \<Rightarrow> ''input/output error''
   | EPERM \<Rightarrow> ''operation not permitted''
   | ECLOSED \<Rightarrow> ''file already closed''
   | ETOOLONG \<Rightarrow> ''bufio.Scanner: token too long'')"

text \<open>\<open>Error()\<close>: the text of an error.\<close>

fun error_text :: "gerr \<Rightarrow> string" where
  "error_text (Errorf f as) = sprintf f as"
| "error_text (Wrapf f as e) = sprintf f (as @ [S (error_text e)])"
| "error_text (WrapFirst f e as) = sprintf f (S (error_text e) # as)"
| "error_text (HookError c e) = error_text e"
| "error_text (Joined es) = join LF (map error_text es)"
| "error_text (SysErr n op) = op @ '': '' @ errno_text n"
| "error_text ErrNoRecord = ''metadata file has no records''"
| "error_text ErrMultipleRecords = ''metadata file has multiple records''"
| "error_text ErrRequestedResourceNotFound = ''requested resource not found''"
| "error_text ErrNotAvailable = ''qrmi: built without -tags qrmi; no libqrmi support''"

text \<open>\<open>errors.Is\<close> against the sentinels the sources test for.\<close>

fun is_not_exist :: "gerr \<Rightarrow> bool" where
  "is_not_exist (SysErr n op) = (n = ENOENT)"
| "is_not_exist (Wrapf f as e) = is_not_exist e"
| "is_not_exist (WrapFirst f e as) = is_not_exist e"
| "is_not_exist (HookError c e) = is_not_exist e"
| "is_not_exist (Joined es) = list_ex is_not_exist es"
| "is_not_exist _ = False"

fun is_exist :: "gerr \<Rightarrow> bool" where
  "is_exist (SysErr n op) = (n = EEXIST)"
| "is_exist (Wrapf f as e) = is_exist e"
| "is_exist (WrapFirst f e as) = is_exist e"
| "is_exist (HookError c e) = is_exist e"
| "is_exist (Joined es) = list_ex is_exist es"
| "is_exist _ = False"

fun is_requested_not_found :: "gerr \<Rightarrow> bool" where
  "is_requested_not_found ErrRequestedResourceNotFound = True"
| "is_requested_not_found (Wrapf f as e) = is_requested_not_found e"
| "is_requested_not_found (WrapFirst f e as) = is_requested_not_found e"
| "is_requested_not_found (HookError c e) = is_requested_not_found e"
| "is_requested_not_found (Joined es) = list_ex is_requested_not_found es"
| "is_requested_not_found _ = False"

subsection \<open>Hook errors and exit codes\<close>

definition ExitOK :: nat where "ExitOK = 0"
definition ExitHostError :: nat where "ExitHostError = 1"
definition ExitReschedule :: nat where "ExitReschedule = 99"
definition ExitJobError :: nat where "ExitJobError = 100"

definition JobError :: "gerr \<Rightarrow> gerr" where
  "JobError e = HookError ExitJobError e"

definition RetryError :: "gerr \<Rightarrow> gerr" where
  "RetryError e = HookError ExitReschedule e"

text \<open>\<open>errors.As(err, &he)\<close>: the first hook error of the tree, depth first.\<close>

fun as_hook_error :: "gerr \<Rightarrow> nat option" where
  "as_hook_error (HookError c e) = Some c"
| "as_hook_error (Wrapf f as e) = as_hook_error e"
| "as_hook_error (WrapFirst f e as) = as_hook_error e"
| "as_hook_error (Joined es) =
     (case filter (\<lambda>r. r \<noteq> None) (map as_hook_error es) of [] \<Rightarrow> None | r # _ \<Rightarrow> r)"
| "as_hook_error _ = None"

definition ExitCode :: "gerr option \<Rightarrow> nat" where
  "ExitCode err = (case err of
     None \<Rightarrow> ExitOK
   | Some e \<Rightarrow> (case as_hook_error e of Some c \<Rightarrow> c | None \<Rightarrow> ExitHostError))"

lemma ExitCode_JobError [err_simps]: "ExitCode (Some (JobError e)) = ExitJobError"
  by (simp add: ExitCode_def JobError_def)

lemma ExitCode_RetryError [err_simps]: "ExitCode (Some (RetryError e)) = ExitReschedule"
  by (simp add: ExitCode_def RetryError_def)

lemma ExitCode_Wrapf [err_simps]: "ExitCode (Some (Wrapf f as e)) = ExitCode (Some e)"
  by (simp add: ExitCode_def)

lemma ExitCode_WrapFirst [err_simps]: "ExitCode (Some (WrapFirst f e as)) = ExitCode (Some e)"
  by (simp add: ExitCode_def)

lemma ExitCode_plain [err_simps]:
  "ExitCode None = ExitOK" "ExitCode (Some (Errorf f as)) = ExitHostError"
  "ExitCode (Some (SysErr n op)) = ExitHostError"
  by (simp_all add: ExitCode_def)

lemmas exit_defs = ExitOK_def ExitHostError_def ExitReschedule_def ExitJobError_def

end
