(* ===== verification/Go_Path.thy ===== *)
theory Go_Path
  imports Go_Strings
begin

text \<open>
  Go's \<open>path/filepath\<close> on Unix: \<open>IsAbs\<close>, \<open>Clean\<close>, \<open>Join\<close>, \<open>Dir\<close> and \<open>Base\<close>, on byte
  strings. \<open>Clean\<close> reads the elements between slashes and keeps a stack of the elements
  of the result. The lemmas describe clean absolute paths as a slash and a list of normal
  elements (\<open>abs_path\<close>), on which the other operations are list operations.
\<close>

abbreviation SLASH :: char where "SLASH \<equiv> CHR 0x2F"

definition is_abs :: "string \<Rightarrow> bool" where
  "is_abs s = prefix [SLASH] s"

text \<open>The stack holds the kept elements, last first.\<close>

fun clean_elems :: "bool \<Rightarrow> string list \<Rightarrow> string list \<Rightarrow> string list" where
  "clean_elems rooted st [] = st"
| "clean_elems rooted st (e # es) =
     (if e = [] \<or> e = ''.'' then clean_elems rooted st es
      else if e = ''..'' then
        (case st of
           [] \<Rightarrow> clean_elems rooted (if rooted then [] else [e]) es
         | t # ts \<Rightarrow> if t = ''..'' then clean_elems rooted (e # st) es
                    else clean_elems rooted ts es)
      else clean_elems rooted (e # st) es)"

definition abs_path :: "string list \<Rightarrow> string" where
  "abs_path es = SLASH # join SLASH es"

definition Clean :: "string \<Rightarrow> string" where
  "Clean s =
     (if s = [] then ''.''
      else let es = rev (clean_elems (is_abs s) [] (split SLASH s)) in
        if is_abs s then abs_path es
        else if es = [] then ''.'' else join SLASH es)"

definition path_join :: "string list \<Rightarrow> string" where
  "path_join es =
     (case dropWhile (\<lambda>e. e = []) es of [] \<Rightarrow> [] | e # es' \<Rightarrow> Clean (join SLASH (e # es')))"

definition path_dir :: "string \<Rightarrow> string" where
  "path_dir s = Clean (rev (dropWhile (\<lambda>c. c \<noteq> SLASH) (rev s)))"

definition path_base :: "string \<Rightarrow> string" where
  "path_base s =
     (if s = [] then ''.''
      else case rev (dropWhile (\<lambda>c. c = SLASH) (rev s)) of
             [] \<Rightarrow> [SLASH]
           | c # t \<Rightarrow> last (split SLASH (c # t)))"

subsection \<open>Normal elements\<close>

definition normal_elem :: "string \<Rightarrow> bool" where
  "normal_elem e = (e \<noteq> [] \<and> e \<noteq> ''.'' \<and> e \<noteq> ''..'' \<and> SLASH \<notin> set e)"

lemma normal_elem_not_Nil [dest]: "normal_elem e \<Longrightarrow> e \<noteq> []"
  by (simp add: normal_elem_def)

lemma clean_elems_step_normal:
  "normal_elem e \<Longrightarrow> clean_elems rooted st (e # es) = clean_elems rooted (e # st) es"
  by (simp add: normal_elem_def)

lemma clean_elems_skip:
  "\<forall>e \<in> set es. e = [] \<or> normal_elem e \<Longrightarrow>
   clean_elems rooted st es = rev (filter (\<lambda>e. e \<noteq> []) es) @ st"
proof (induction es arbitrary: st)
  case (Cons e es)
  have IH: "clean_elems rooted st es = rev (filter (\<lambda>e. e \<noteq> []) es) @ st" for st
    using Cons by simp
  have "e = [] \<or> normal_elem e" using Cons.prems by simp
  then show ?case
    by (auto simp: IH clean_elems_step_normal simp del: clean_elems.simps(2)
        simp: clean_elems.simps(2) [of rooted st "[]" es])
qed simp

lemma clean_elems_normal:
  "\<forall>e \<in> set es. normal_elem e \<Longrightarrow> clean_elems rooted st es = rev es @ st"
proof -
  assume n: "\<forall>e \<in> set es. normal_elem e"
  then have "filter (\<lambda>e. e \<noteq> []) es = es" by (auto intro!: filter_True)
  with n show ?thesis by (simp add: clean_elems_skip)
qed

lemma clean_elems_rooted_normal:
  "\<forall>e \<in> set es. SLASH \<notin> set e \<Longrightarrow> \<forall>e \<in> set st. normal_elem e \<Longrightarrow>
   \<forall>e \<in> set (clean_elems True st es). normal_elem e"
proof (induction es arbitrary: st)
  case Nil
  then show ?case by simp
next
  case (Cons e es)
  have IH: "\<forall>x \<in> set (clean_elems True st es). normal_elem x"
    if "\<forall>x \<in> set st. normal_elem x" for st
    using Cons that by simp
  consider "e = [] \<or> e = ''.''" | "e = ''..''" | "normal_elem e"
    using Cons.prems(1) by (auto simp: normal_elem_def)
  then show ?case
  proof cases
    case 1
    with IH Cons.prems show ?thesis by auto
  next
    case 2
    show ?thesis
    proof (cases st)
      case Nil
      with 2 show ?thesis using IH [of "[]"] by simp
    next
      case (Cons t ts)
      with Cons.prems(2) have "normal_elem t" "\<forall>x \<in> set ts. normal_elem x" by simp_all
      then have "t \<noteq> ''..''" by (simp add: normal_elem_def)
      with 2 Cons IH [OF \<open>\<forall>x \<in> set ts. normal_elem x\<close>] show ?thesis by simp
    qed
  next
    case 3
    with IH [of "e # st"] Cons.prems(2) show ?thesis
      by (simp add: clean_elems_step_normal del: clean_elems.simps(2))
  qed
qed

lemma is_abs_abs_path [path_simps]: "is_abs (abs_path es)"
  by (simp add: is_abs_def abs_path_def)

lemma split_abs_path:
  "\<forall>e \<in> set es. SLASH \<notin> set e \<Longrightarrow> split SLASH (abs_path es) = [] # (if es = [] then [[]] else es)"
  by (simp add: abs_path_def split_join)

lemma Clean_abs_path [path_simps]:
  "\<forall>e \<in> set es. normal_elem e \<Longrightarrow> Clean (abs_path es) = abs_path es"
proof -
  assume n: "\<forall>e \<in> set es. normal_elem e"
  then have "split SLASH (abs_path es) = [] # (if es = [] then [[]] else es)"
    by (intro split_abs_path) (auto simp: normal_elem_def)
  moreover have "abs_path es \<noteq> []" by (simp add: abs_path_def)
  ultimately show ?thesis
    using clean_elems_normal [OF n, of True "[]"] by (simp add: Clean_def is_abs_abs_path Let_def)
qed

lemma Clean_abs:
  assumes "is_abs s"
  obtains es where "Clean s = abs_path es" and "\<forall>e \<in> set es. normal_elem e"
proof
  let ?es = "rev (clean_elems True [] (split SLASH s))"
  show "Clean s = abs_path ?es"
    using assms by (auto simp: Clean_def is_abs_def Let_def)
  show "\<forall>e \<in> set ?es. normal_elem e"
    using clean_elems_rooted_normal [of "split SLASH s" "[]"] split_elem_no_sep by auto
qed

lemma Clean_abs_idem: "is_abs s \<Longrightarrow> Clean (Clean s) = Clean s"
  by (metis Clean_abs Clean_abs_path)

lemma is_abs_Clean: "is_abs s \<Longrightarrow> is_abs (Clean s)"
  by (metis Clean_abs is_abs_abs_path)

lemma clean_abs_pathE:
  assumes "is_abs s" "Clean s = s"
  obtains es where "s = abs_path es" and "\<forall>e \<in> set es. normal_elem e"
  by (metis Clean_abs assms)

lemma abs_path_snoc: "es \<noteq> [] \<Longrightarrow> abs_path (es @ [e]) = abs_path es @ SLASH # e"
proof -
  have "join SLASH (es @ [e]) = join SLASH es @ SLASH # e" if "es \<noteq> []" for es
    using that
  proof (induction es)
    case (Cons a es)
    then show ?case by (cases es) (simp_all add: join_Cons)
  qed simp
  then show "es \<noteq> [] \<Longrightarrow> ?thesis" by (simp add: abs_path_def)
qed

lemma abs_path_append:
  "es \<noteq> [] \<Longrightarrow> fs \<noteq> [] \<Longrightarrow> abs_path (es @ fs) = abs_path es @ SLASH # join SLASH fs"
proof (induction fs rule: rev_induct)
  case (snoc f fs)
  show ?case
  proof (cases "fs = []")
    case True
    with snoc show ?thesis by (simp add: abs_path_snoc)
  next
    case False
    have "join SLASH (fs @ [f]) = join SLASH fs @ SLASH # f"
      using abs_path_snoc [OF False, of f] by (simp add: abs_path_def)
    moreover have "abs_path ((es @ fs) @ [f]) = abs_path (es @ fs) @ SLASH # f"
      using snoc.prems by (intro abs_path_snoc) simp
    ultimately show ?thesis using snoc False by simp
  qed
qed simp

lemma abs_path_inject:
  assumes "\<forall>e \<in> set es. normal_elem e" "\<forall>e \<in> set fs. normal_elem e"
    and "abs_path es = abs_path fs"
  shows "es = fs"
proof -
  have j: "split SLASH (join SLASH gs) = (if gs = [] then [[]] else gs)"
    if "\<forall>e \<in> set gs. normal_elem e" for gs
    using that split_join [of gs SLASH] by (auto simp: normal_elem_def)
  have "split SLASH (join SLASH es) = split SLASH (join SLASH fs)"
    using assms(3) by (simp add: abs_path_def)
  with j [OF assms(1)] j [OF assms(2)] assms(1,2) show ?thesis
    by (auto split: if_splits)
qed

subsection \<open>Join, Dir and Base on clean absolute paths\<close>

lemma Clean_skip:
  assumes "is_abs s" "\<forall>e \<in> set (split SLASH s). e = [] \<or> normal_elem e"
  shows "Clean s = abs_path (filter (\<lambda>e. e \<noteq> []) (split SLASH s))"
proof -
  have "s \<noteq> []" using assms(1) by (auto simp: is_abs_def)
  then show ?thesis using clean_elems_skip [OF assms(2)] assms(1)
    by (simp add: Clean_def Let_def)
qed

lemma abs_path_snoc_gen: "abs_path (es @ [e]) = (if es = [] then [] else abs_path es) @ SLASH # e"
  by (simp add: abs_path_snoc) (simp add: abs_path_def)

lemma path_join_abs [path_simps]:
  assumes "\<forall>e \<in> set es. normal_elem e" "normal_elem e"
  shows "path_join [abs_path es, e] = abs_path (es @ [e])"
proof -
  let ?s = "abs_path es @ SLASH # e"
  have e: "e \<noteq> []" "SLASH \<notin> set e" using assms(2) by (auto simp: normal_elem_def)
  have es: "\<forall>x \<in> set es. SLASH \<notin> set x" using assms(1) by (auto simp: normal_elem_def)
  have sp: "split SLASH ?s = [] # (if es = [] then [[]] else es) @ [e]"
    using e by (simp add: split_append_sep split_abs_path [OF es] split_no_sep)
  have "Clean ?s = abs_path (filter (\<lambda>e. e \<noteq> []) (split SLASH ?s))"
  proof (rule Clean_skip)
    show "is_abs ?s" by (simp add: is_abs_def abs_path_def)
    show "\<forall>x \<in> set (split SLASH ?s). x = [] \<or> normal_elem x"
      using assms by (simp add: sp)
  qed
  also have "filter (\<lambda>e. e \<noteq> []) (split SLASH ?s) = es @ [e]"
    using assms(1) e by (auto simp: sp intro!: filter_True)
  finally show ?thesis by (simp add: path_join_def abs_path_def)
qed

lemma path_dir_abs [path_simps]:
  assumes "\<forall>e \<in> set es. normal_elem e" "normal_elem e"
  shows "path_dir (abs_path (es @ [e])) = abs_path es"
proof -
  let ?p = "(if es = [] then [] else abs_path es) @ [SLASH]"
  have e: "SLASH \<notin> set e" using assms(2) by (auto simp: normal_elem_def)
  have es: "\<forall>x \<in> set es. SLASH \<notin> set x" using assms(1) by (auto simp: normal_elem_def)
  have "dropWhile (\<lambda>c. c \<noteq> SLASH) (rev (abs_path (es @ [e]))) = rev ?p"
    using e by (simp add: abs_path_snoc_gen)
  then have "path_dir (abs_path (es @ [e])) = Clean ?p" by (simp add: path_dir_def)
  also have "Clean ?p = abs_path (filter (\<lambda>e. e \<noteq> []) (split SLASH ?p))"
  proof (rule Clean_skip)
    show "is_abs ?p" by (simp add: is_abs_def abs_path_def)
    show "\<forall>x \<in> set (split SLASH ?p). x = [] \<or> normal_elem x"
      using assms(1) es by (simp add: split_append_sep split_abs_path)
  qed
  also have "filter (\<lambda>e. e \<noteq> []) (split SLASH ?p) = es"
    using assms(1) es by (auto simp: split_append_sep split_abs_path intro!: filter_True)
  finally show ?thesis .
qed

lemma path_base_abs [path_simps]:
  assumes "normal_elem e"
  shows "path_base (abs_path (es @ [e])) = e"
proof -
  have e: "e \<noteq> []" "SLASH \<notin> set e" using assms by (auto simp: normal_elem_def)
  let ?s = "abs_path (es @ [e])"
  have s: "?s = (if es = [] then [] else abs_path es) @ SLASH # e" by (simp add: abs_path_snoc_gen)
  have "last e \<noteq> SLASH" using e by (metis last_in_set)
  then have "last ?s \<noteq> SLASH" using e by (simp add: s)
  then have "dropWhile (\<lambda>c. c = SLASH) (rev ?s) = rev ?s"
    by (simp add: dropWhile_eq_self_iff hd_rev)
  moreover have "last (split SLASH ?s) = e"
    using e by (subst s) (simp add: split_append_sep split_no_sep)
  moreover obtain c t where "?s = c # t" by (simp add: abs_path_def)
  ultimately show ?thesis by (simp add: path_base_def)
qed

lemma clean_elems_append:
  "clean_elems r st (es @ fs) = clean_elems r (clean_elems r st es) fs"
  by (induction r st es rule: clean_elems.induct) (auto split: list.splits)

text \<open>Joining one element to any absolute path, clean or not.\<close>

lemma path_join_absE:
  assumes "is_abs s" "normal_elem e"
  obtains es where "\<forall>x \<in> set es. normal_elem x" "Clean s = abs_path es"
    "path_join [s, e] = abs_path (es @ [e])"
proof
  let ?es = "rev (clean_elems True [] (split SLASH s))"
  show "\<forall>x \<in> set ?es. normal_elem x"
    using clean_elems_rooted_normal [of "split SLASH s" "[]"] split_elem_no_sep by auto
  show "Clean s = abs_path ?es" using assms(1) by (auto simp: Clean_def is_abs_def Let_def)
  have s: "s \<noteq> []" "is_abs (s @ SLASH # e)" using assms(1) by (auto simp: is_abs_def)
  have e: "split SLASH e = [e]" using assms(2) by (simp add: normal_elem_def split_no_sep)
  have "path_join [s, e] = Clean (s @ SLASH # e)" using s by (simp add: path_join_def)
  also have "\<dots> = abs_path (rev (clean_elems True [] (split SLASH s @ [e])))"
    using s e by (simp add: Clean_def Let_def split_append_sep)
  also have "\<dots> = abs_path (?es @ [e])"
    using assms(2) by (simp add: clean_elems_append clean_elems_step_normal del: clean_elems.simps(2))
  finally show "path_join [s, e] = abs_path (?es @ [e])" .
qed

text \<open>A prefix of a clean absolute path that ends at an element is a shorter such path.\<close>

lemma abs_path_prefixE:
  assumes "\<forall>e \<in> set es. normal_elem e" "\<forall>e \<in> set rs. normal_elem e"
    and "prefix (abs_path rs @ [SLASH]) (abs_path es)"
  obtains fs where "es = rs @ fs" "fs \<noteq> []" "rs \<noteq> []" "abs_path es = abs_path rs @ SLASH # join SLASH fs"
proof -
  obtain t where t: "abs_path es = abs_path rs @ SLASH # t"
    using assms(3) by (auto simp: prefix_def)
  have esl: "\<forall>x \<in> set es. SLASH \<notin> set x" and rsl: "\<forall>x \<in> set rs. SLASH \<notin> set x"
    using assms(1,2) by (auto simp: normal_elem_def)
  have sp: "(if es = [] then [[]] else es) = (if rs = [] then [[]] else rs) @ split SLASH t"
    using arg_cong [OF t, of "split SLASH"] by (simp add: split_append_sep split_abs_path esl rsl)
  have nil: "[] \<notin> set es" using assms(1) by auto
  have rs: "rs \<noteq> []"
  proof
    assume "rs = []"
    with sp have "(if es = [] then [[]] else es) = [] # split SLASH t" by simp
    with nil show False by (cases "es = []") auto
  qed
  have "es \<noteq> []" using sp rs by (cases rs) auto
  with sp rs have "es = rs @ split SLASH t" by simp
  then show thesis using that [of "split SLASH t"] t rs by (simp add: join_split)
qed

lemma clean_elems_rel:
  "\<forall>e \<in> set es. SLASH \<notin> set e \<Longrightarrow> \<forall>e \<in> set st. e \<noteq> [] \<and> SLASH \<notin> set e \<Longrightarrow>
   \<forall>e \<in> set (clean_elems r st es). e \<noteq> [] \<and> SLASH \<notin> set e"
proof (induction es arbitrary: st)
  case (Cons e es)
  let ?ok = "\<lambda>xs. \<forall>e \<in> set xs. e \<noteq> [] \<and> SLASH \<notin> set e"
  have IH: "?ok (clean_elems r xs es)" if "?ok xs" for xs
    using Cons.IH [of xs] Cons.prems(1) that by simp
  have e: "SLASH \<notin> set e" using Cons.prems(1) by simp
  define xs where "xs = (if e = [] \<or> e = ''.'' then st
    else if e = ''..'' then (case st of [] \<Rightarrow> (if r then [] else [e])
      | t # ts \<Rightarrow> if t = ''..'' then e # st else ts) else e # st)"
  have eq: "clean_elems r st (e # es) = clean_elems r xs es"
    by (simp add: xs_def split: list.split)
  have "?ok xs" using e Cons.prems(2) by (auto simp: xs_def split: list.split)
  then show ?case unfolding eq by (rule IH)
qed simp

lemma Clean_rel: "\<not> is_abs s \<Longrightarrow> \<not> is_abs (Clean s)"
proof -
  assume r: "\<not> is_abs s"
  let ?es = "rev (clean_elems False [] (split SLASH s))"
  have "\<forall>e \<in> set ?es. e \<noteq> [] \<and> SLASH \<notin> set e"
    using clean_elems_rel [of "split SLASH s" "[]" False] split_elem_no_sep [of _ SLASH s] by auto
  then have "\<not> is_abs (join SLASH ?es)" if "?es \<noteq> []"
    using that by (cases ?es; cases "tl ?es"; cases "hd ?es") (auto simp: is_abs_def)
  then show ?thesis using r by (simp add: Clean_def Let_def is_abs_def)
qed

text \<open>A joined path ends with the name joined to it.\<close>

lemma path_join_name:
  assumes "path_join [s, e] = abs_path (es @ [f])" "s \<noteq> []" "normal_elem e" "normal_elem f"
  shows "e = f"
proof (cases "is_abs s")
  case True
  from path_join_absE [OF this assms(3)] show ?thesis
    using assms(1) path_base_abs [OF assms(3)] path_base_abs [OF assms(4)] by metis
next
  case False
  have "path_join [s, e] = Clean (s @ SLASH # e)" using assms(2,3) by (simp add: path_join_def)
  moreover have "\<not> is_abs (s @ SLASH # e)" using False assms(2) by (cases s) (simp_all add: is_abs_def)
  ultimately have "\<not> is_abs (path_join [s, e])" using Clean_rel by simp
  then show ?thesis using assms(1) by (simp add: is_abs_abs_path)
qed

end
