(* ===== verification/File_Tree.thy ===== *)
theory File_Tree
  imports Go_Errors Go_Path
begin

text \<open>
  The directory tree with its symbolic links, as \<open>filepath.EvalSymlinks\<close>, \<open>os.Stat\<close> and
  \<open>os.Lstat\<close> see it. The launcher's spool directory check and the checks of trusted
  executables walk it. A path is a list of components below the root; a node that the process
  cannot see is missing. The lemmas: a resolved path has no symbolic link in it, and a path
  without links resolves to itself.
\<close>

datatype tnode = TDir | TReg "9 word" u32 | TLink string | TOther

type_synonym tree = "string list \<rightharpoonup> tnode"

definition lookup :: "tree \<Rightarrow> string list \<Rightarrow> tnode option" where
  "lookup t p = (if p = [] then Some TDir else t p)"

definition is_link :: "tnode \<Rightarrow> bool" where
  "is_link n = (case n of TLink l \<Rightarrow> True | _ \<Rightarrow> False)"

text \<open>
  The loop of \<open>walkSymlinks\<close> for an absolute path: \<open>dest\<close> is the resolved part, \<open>rest\<close> the
  components to go, \<open>links\<close> the symbolic links it may still follow. A component before others
  must be a directory. The code keeps a \<open>..\<close> below the root's children for \<open>Clean\<close> to
  remove; here it is removed at once.
\<close>

function walk :: "tree \<Rightarrow> nat \<Rightarrow> string list \<Rightarrow> string list \<Rightarrow> gerr + string list" where
  "walk t links dest [] = Inr dest"
| "walk t links dest (c # rest) =
     (if c = [] \<or> c = ''.'' then walk t links dest rest
      else if c = ''..'' then walk t links (butlast dest) rest
      else case lookup t (dest @ [c]) of
        None \<Rightarrow> Inl (SysErr ENOENT (''lstat '' @ abs_path (dest @ [c])))
      | Some (TLink l) \<Rightarrow>
          (case links of
             0 \<Rightarrow> Inl (SysErr ELOOP ''EvalSymlinks'')
           | Suc k \<Rightarrow> walk t k (if is_abs l then [] else dest) (split SLASH l @ rest))
      | Some TDir \<Rightarrow> walk t links (dest @ [c]) rest
      | Some n \<Rightarrow>
          if rest = [] then Inr (dest @ [c])
          else Inl (SysErr ENOTDIR ''EvalSymlinks''))"
  by pat_completeness auto
termination
  by (relation "measures [\<lambda>(t, links, dest, rest). links, \<lambda>(t, links, dest, rest). length rest]") auto

definition max_links :: nat where
  "max_links = 255"

definition EvalSymlinks_elems :: "tree \<Rightarrow> string \<Rightarrow> gerr + string list" where
  "EvalSymlinks_elems t path = walk t max_links [] (split SLASH path)"

definition EvalSymlinks :: "tree \<Rightarrow> string \<Rightarrow> gerr + string" where
  "EvalSymlinks t path =
     (case EvalSymlinks_elems t path of Inl e \<Rightarrow> Inl e | Inr d \<Rightarrow> Inr (abs_path d))"

text \<open>
  \<open>os.Stat\<close> of a resolved path, and \<open>os.Lstat\<close>: the kernel follows at most 40 links on the
  way to the last component and does not follow that one.
\<close>

definition kernel_links :: nat where
  "kernel_links = 40"

definition Lstat :: "tree \<Rightarrow> string \<Rightarrow> tnode option" where
  "Lstat t path =
     (let es = split SLASH (Clean path) in
      if last es = [] then Some TDir
      else case walk t kernel_links [] (butlast es) of
        Inl e \<Rightarrow> None
      | Inr d \<Rightarrow> lookup t (d @ [last es]))"

definition Stat :: "tree \<Rightarrow> string \<Rightarrow> tnode option" where
  "Stat t path =
     (case walk t kernel_links [] (split SLASH path) of Inl e \<Rightarrow> None | Inr d \<Rightarrow> lookup t d)"

unbundle bit_operations_syntax

text \<open>Owned by root, a regular file, and not writable for group and others (0o022 = 18).\<close>

definition root_owned_file :: "tnode \<Rightarrow> bool" where
  "root_owned_file n = (case n of TReg m u \<Rightarrow> u = 0 \<and> m AND 18 = 0 | _ \<Rightarrow> False)"

subsection \<open>Resolved paths\<close>

definition link_free :: "tree \<Rightarrow> string list \<Rightarrow> bool" where
  "link_free t d = (\<forall>p c. prefix (p @ [c]) d \<longrightarrow> normal_elem c \<and>
     (\<exists>n. lookup t (p @ [c]) = Some n \<and> \<not> is_link n \<and> (p @ [c] \<noteq> d \<longrightarrow> n = TDir)))"

definition dir_path :: "tree \<Rightarrow> string list \<Rightarrow> bool" where
  "dir_path t d = (\<forall>p c. prefix (p @ [c]) d \<longrightarrow> normal_elem c \<and> lookup t (p @ [c]) = Some TDir)"

lemma dir_path_Nil [simp]: "dir_path t []"
  by (simp add: dir_path_def)

lemma dir_path_snoc [simp]:
  "dir_path t (d @ [c]) = (dir_path t d \<and> normal_elem c \<and> lookup t (d @ [c]) = Some TDir)"
  by (auto simp: dir_path_def)

lemma dir_path_prefix: "dir_path t (d @ e) \<Longrightarrow> dir_path t d"
  unfolding dir_path_def by (meson prefix_prefix)

lemma dir_path_butlast: "dir_path t d \<Longrightarrow> dir_path t (butlast d)"
  by (cases d rule: rev_cases) auto

lemma dir_path_resolved: "dir_path t d \<Longrightarrow> link_free t d"
  by (auto simp: dir_path_def link_free_def is_link_def)

lemma resolved_snoc:
  "dir_path t d \<Longrightarrow> normal_elem c \<Longrightarrow> lookup t (d @ [c]) = Some n \<Longrightarrow> \<not> is_link n \<Longrightarrow>
   link_free t (d @ [c])"
  by (auto simp: dir_path_def link_free_def is_link_def)

lemma resolved_normal: "link_free t d \<Longrightarrow> \<forall>c \<in> set d. normal_elem c"
proof
  fix c assume r: "link_free t d" and "c \<in> set d"
  then obtain xs ys where "d = xs @ c # ys" by (auto simp: in_set_conv_decomp)
  then have "prefix (xs @ [c]) d" by (auto simp: prefix_def)
  with r show "normal_elem c" by (auto simp: link_free_def)
qed

lemma resolved_dir_path: "link_free t (d @ c # e) \<Longrightarrow> dir_path t d"
proof -
  assume r: "link_free t (d @ c # e)"
  have "normal_elem x \<and> lookup t (p @ [x]) = Some TDir" if "prefix (p @ [x]) d" for p x
  proof -
    have "prefix (p @ [x]) (d @ c # e)" using that by (auto simp: prefix_def)
    moreover have "p @ [x] \<noteq> d @ c # e" using prefix_length_le [OF that] by (metis length_append
        add_le_cancel_left append_eq_append_conv impossible_Cons le_add1 le_trans length_append_singleton
        not_less_eq_eq prefix_length_le)
    ultimately show ?thesis using r by (auto simp: link_free_def)
  qed
  then show ?thesis by (auto simp: dir_path_def)
qed

lemma walk_resolved:
  "walk t links dest rest = Inr d \<Longrightarrow> dir_path t dest \<Longrightarrow> \<forall>c \<in> set rest. SLASH \<notin> set c \<Longrightarrow>
   link_free t d"
proof (induction t links dest rest rule: walk.induct)
  case (1 t links dest)
  then show ?case by (simp add: dir_path_resolved)
next
  case (2 t links dest c rest)
  note prems = 2(5-7) and skip = 2(1) and up = 2(2) and down = 2(3) and link = 2(4)
  consider "c = [] \<or> c = ''.''" | "c = ''..''" | "normal_elem c"
    using prems(3) by (auto simp: normal_elem_def)
  then show ?case
  proof cases
    case 1
    from 1 prems have "walk t links dest rest = Inr d" by auto
    with 1 prems(2,3) show ?thesis by (intro skip) simp_all
  next
    case 2
    from 2 prems have "walk t links (butlast dest) rest = Inr d" by simp
    with 2 prems(2,3) show ?thesis by (intro up) (simp_all add: dir_path_butlast)
  next
    case 3
    then have c: "\<not> (c = [] \<or> c = ''.'')" "c \<noteq> ''..''" by (auto simp: normal_elem_def)
    obtain nd where l: "lookup t (dest @ [c]) = Some nd"
      using prems(1) c by (cases "lookup t (dest @ [c])") simp_all
    show ?thesis
    proof (cases nd)
      case TDir
      from prems(1) c l TDir have "walk t links (dest @ [c]) rest = Inr d" by simp
      with c l TDir 3 prems(2,3) show ?thesis by (intro down) simp_all
    next
      case (TLink x)
      show ?thesis
      proof (cases links)
        case 0
        with prems(1) c l TLink show ?thesis by simp
      next
        case (Suc k)
        from prems(1) c l TLink Suc
        have "walk t k (if is_abs x then [] else dest) (split SLASH x @ rest) = Inr d" by simp
        moreover have "\<forall>c \<in> set (split SLASH x @ rest). SLASH \<notin> set c"
          using prems(3) split_elem_no_sep [of _ SLASH x] by auto
        ultimately show ?thesis using c l TLink Suc prems(2) by (intro link) simp_all
      qed
    next
      case (TReg m u)
      with prems(1) c l have "d = dest @ [c]" by (simp split: if_splits)
      with TReg l 3 prems(2) show ?thesis by (simp add: resolved_snoc is_link_def)
    next
      case TOther
      with prems(1) c l have "d = dest @ [c]" by (simp split: if_splits)
      with TOther l 3 prems(2) show ?thesis by (simp add: resolved_snoc is_link_def)
    qed
  qed
qed

lemma walk_dirs:
  "dir_path t (dest @ es) \<Longrightarrow> walk t links dest (es @ rest) = walk t links (dest @ es) rest"
proof (induction es arbitrary: dest)
  case (Cons c es)
  have "dir_path t (dest @ [c])" using Cons.prems dir_path_prefix [of t "dest @ [c]" es] by simp
  then have "c \<noteq> []" "c \<noteq> ''.''" "c \<noteq> ''..''" "lookup t (dest @ [c]) = Some TDir"
    by (auto simp: normal_elem_def)
  with Cons show ?case by simp
qed simp

lemma walk_dir_path: "dir_path t d \<Longrightarrow> walk t links [] d = Inr d"
  using walk_dirs [of t "[]" d links "[]"] by simp

lemma EvalSymlinks_resolved:
  "EvalSymlinks_elems t path = Inr d \<Longrightarrow> link_free t d"
  unfolding EvalSymlinks_elems_def
  by (erule walk_resolved) (simp_all add: split_elem_no_sep)

lemma EvalSymlinks_Inr:
  "EvalSymlinks t path = Inr s \<longleftrightarrow> (\<exists>d. EvalSymlinks_elems t path = Inr d \<and> s = abs_path d)"
  by (auto simp: EvalSymlinks_def split: sum.splits)

text \<open>Walking a path in two parts, and with more links.\<close>

lemma walk_skip: "c = [] \<or> c = ''.'' \<Longrightarrow> walk t k dest (c # rest) = walk t k dest rest"
  by simp

lemma walk_append:
  "walk t k dest a = Inr d \<Longrightarrow> (\<exists>k'. walk t k dest (a @ b) = walk t k' d b) \<or>
   (\<exists>e. walk t k dest (a @ b) = Inl e) \<and> d \<noteq> [] \<and> lookup t d \<noteq> Some TDir"
proof (induction t k dest a rule: walk.induct)
  case (1 t k dest)
  then show ?case by auto
next
  case (2 t k dest c rest)
  note skip = 2(1) and up = 2(2) and down = 2(3) and link = 2(4) and run = 2(5)
  consider "c = [] \<or> c = ''.''" | "c = ''..''" | "\<not> (c = [] \<or> c = ''.'')" "c \<noteq> ''..''" by blast
  then show ?case
  proof cases
    case 1
    with run have "walk t k dest rest = Inr d" by auto
    from skip [OF 1 this] 1 show ?thesis by auto
  next
    case 2
    then have n: "\<not> (c = [] \<or> c = ''.'')" by simp
    from 2 run have "walk t k (butlast dest) rest = Inr d" by simp
    from up [OF n 2 this] 2 show ?thesis by simp
  next
    case 3
    obtain nd where l: "lookup t (dest @ [c]) = Some nd"
      using run 3 by (cases "lookup t (dest @ [c])") simp_all
    show ?thesis
    proof (cases nd)
      case TDir
      with run 3 l have "walk t k (dest @ [c]) rest = Inr d" by simp
      from down [OF 3 l TDir this] 3 l TDir show ?thesis by simp
    next
      case (TLink x)
      show ?thesis
      proof (cases k)
        case 0
        with run 3 l TLink show ?thesis by simp
      next
        case (Suc j)
        with run 3 l TLink
        have "walk t j (if is_abs x then [] else dest) (split SLASH x @ rest) = Inr d" by simp
        from link [OF 3 l TLink Suc this] 3 l TLink Suc show ?thesis by simp
      qed
    next
      case (TReg m u)
      with run 3 l have d: "d = dest @ [c]" "rest = []" by (simp_all split: if_splits)
      with TReg l 3 show ?thesis by (cases b) auto
    next
      case TOther
      with run 3 l have d: "d = dest @ [c]" "rest = []" by (simp_all split: if_splits)
      with TOther l 3 show ?thesis by (cases b) auto
    qed
  qed
qed

lemma walk_mono: "walk t k dest a = Inr d \<Longrightarrow> k \<le> k' \<Longrightarrow> walk t k' dest a = Inr d"
proof (induction t k dest a arbitrary: k' rule: walk.induct)
  case (1 t k dest)
  then show ?case by simp
next
  case (2 t k dest c rest)
  note skip = 2(1) and up = 2(2) and down = 2(3) and link = 2(4) and run = 2(5) and le = 2(6)
  consider "c = [] \<or> c = ''.''" | "c = ''..''" | "\<not> (c = [] \<or> c = ''.'')" "c \<noteq> ''..''" by blast
  then show ?case
  proof cases
    case 1
    with run have "walk t k dest rest = Inr d" by auto
    from skip [OF 1 this le] 1 show ?thesis by auto
  next
    case 2
    then have n: "\<not> (c = [] \<or> c = ''.'')" by simp
    from 2 run have "walk t k (butlast dest) rest = Inr d" by simp
    from up [OF n 2 this le] 2 show ?thesis by simp
  next
    case 3
    obtain nd where l: "lookup t (dest @ [c]) = Some nd"
      using run 3 by (cases "lookup t (dest @ [c])") simp_all
    show ?thesis
    proof (cases nd)
      case TDir
      with run 3 l have "walk t k (dest @ [c]) rest = Inr d" by simp
      from down [OF 3 l TDir this le] 3 l TDir show ?thesis by simp
    next
      case (TLink x)
      show ?thesis
      proof (cases k)
        case 0
        with run 3 l TLink show ?thesis by simp
      next
        case (Suc j)
        with le obtain j' where j': "k' = Suc j'" "j \<le> j'" by (cases k') auto
        from Suc run 3 l TLink
        have "walk t j (if is_abs x then [] else dest) (split SLASH x @ rest) = Inr d" by simp
        from link [OF 3 l TLink Suc this j'(2)] 3 l TLink j'(1) show ?thesis by simp
      qed
    qed (use run 3 l in \<open>simp_all split: if_splits\<close>)
  qed
qed

lemma walk_then:
  assumes "walk t k dest a = Inr d" "d = [] \<or> lookup t d = Some TDir"
  obtains k' where "walk t k dest (a @ b) = walk t k' d b"
  using walk_append [OF assms(1), of b] assms(2) by auto

lemma EvalSymlinks_elems_abs:
  "\<forall>e \<in> set es. normal_elem e \<Longrightarrow> EvalSymlinks_elems t (abs_path es) = walk t max_links [] es"
proof -
  assume "\<forall>e \<in> set es. normal_elem e"
  then have "split SLASH (abs_path es) = [] # (if es = [] then [[]] else es)"
    by (intro split_abs_path) (auto simp: normal_elem_def)
  then show ?thesis by (simp add: EvalSymlinks_elems_def)
qed

lemma Lstat_abs:
  assumes "\<forall>x \<in> set es. normal_elem x" "normal_elem e"
  shows "Lstat t (abs_path (es @ [e])) =
    (case walk t kernel_links [] es of Inl _ \<Rightarrow> None | Inr d \<Rightarrow> lookup t (d @ [e]))"
proof -
  have n: "\<forall>x \<in> set (es @ [e]). normal_elem x" using assms by simp
  then have s: "split SLASH (abs_path (es @ [e])) = [] # es @ [e]"
    using split_abs_path [of "es @ [e]"] by (simp add: normal_elem_def)
  have l: "last ([] # es @ [e]) = e" "butlast ([] # es @ [e]) = [] # es"
    by (simp_all add: butlast_append)
  have "e \<noteq> []" using assms(2) by auto
  then show ?thesis by (simp add: Lstat_def Clean_abs_path [OF n] s l Let_def del: last.simps butlast.simps split: sum.split)
qed

text \<open>
  The last step of a walk: when the way to the last component resolves to \<open>d\<close> and that component
  is a directory there, the whole path resolves to it.
\<close>

lemma walk_snoc:
  assumes "walk t k [] (es @ [e]) = Inr x" "walk t k' [] es = Inr d" "k' \<le> k" "normal_elem e"
    and "lookup t (d @ [e]) = Some TDir"
  shows "x = d @ [e]"
proof -
  have e: "\<not> (e = [] \<or> e = ''.'')" "e \<noteq> ''..''" using assms(4) by (auto simp: normal_elem_def)
  have "walk t k [] es = Inr d" using assms(2,3) by (rule walk_mono)
  from walk_append [OF this, of "[e]"] obtain j where "walk t k [] (es @ [e]) = walk t j d [e]"
    using assms(1) by auto
  with assms(1,5) e show ?thesis by simp
qed

end
