(* ===== verification/Host.thy ===== *)
theory Host
  imports File_Tree
begin

text \<open>
  The machine a hook runs on. \<open>host\<close> holds what a run only reads: the accounts, the clock,
  the commands it can start, and the faults of its system calls. \<open>world\<close> holds what a run
  changes: the files, the process environment, the open job environment file, the log, and
  the state of the QRMI library. Every system call takes the next number and fails when the
  fault plan says so, so a statement for every \<open>host\<close> is a statement for every pattern of
  failing calls. Paths are the clean absolute paths the hooks build; the spool directory
  holds no symbolic links (the launcher checks it), so a path names its file directly.

  \<open>logcb\<close> is the component name whose logger QRMI's log records go to, once it is registered.
  \<open>hist\<close>, \<open>qlog\<close> are ghost fields: the states the file system has been in, and the calls
  made into libqrmi. No operation reads them.
\<close>

type_synonym perm = "9 word"

datatype fkind = Dir | Reg string

record fnode =
  fkind :: fkind
  fmode :: perm

type_synonym files = "string \<rightharpoonup> fnode"

text \<open>The \<open>JobEnv\<close> object of \<open>env.go\<close>: its path, its open file and the sticky error of its writer.\<close>

record jobenv =
  jpath :: string
  jopen :: bool
  jerr :: "gerr option"

datatype qevent =
    QConfigLoad nat | QConfigFree nat
  | QDefGet nat | QDefFree nat
  | QResourceNew nat string u32 | QResourceFree nat
  | QAccessible nat bool
  | QAcquire nat string
  | QRelease nat string bool

record 'q world =
  files :: files
  hist :: "files list"
  penv :: "string \<rightharpoonup> string"
  nsys :: nat
  logs :: "(bool \<times> string) list"
  jenv :: "jobenv option"
  logcb :: "string option"
  lib :: 'q
  qlog :: "qevent list"

text \<open>
  \<open>faults n = Some k\<close>: the \<open>n\<close>-th system call fails, a write after \<open>k\<close> bytes. \<open>rands\<close> are
  the random numbers \<open>os.CreateTemp\<close> will draw, \<open>now\<close> the time of the acquisition and
  \<open>spent\<close> the seconds the epilog takes. \<open>users\<close> gives the uid text of an account and \<open>home\<close>
  the home directory of the hook's own account. \<open>tree\<close> is the part of the file system that a
  run only inspects. \<open>run_cmd n\<close> gives a command's standard output, or the text of its error,
  when it is started as the \<open>n\<close>-th system call.
\<close>

record host =
  faults :: "nat \<Rightarrow> nat option"
  umask :: perm
  rands :: "u32 list"
  now :: i64
  spent :: i64
  uid :: i64
  users :: "string \<rightharpoonup> string"
  home :: "string option"
  hostname :: "string option"
  tree :: tree
  run_cmd :: "nat \<Rightarrow> string \<Rightarrow> string list \<Rightarrow> string + string"

subsection \<open>System calls on files\<close>

definition put_files :: "files \<Rightarrow> 'q world \<Rightarrow> 'q world" where
  "put_files f w = w\<lparr>files := f, hist := f # hist w\<rparr>"

definition count_sys :: "'q world \<Rightarrow> 'q world" where
  "count_sys w = w\<lparr>nsys := Suc (nsys w)\<rparr>"

definition fault :: "host \<Rightarrow> 'q world \<Rightarrow> nat option" where
  "fault h w = faults h (nsys w)"

definition is_dir :: "files \<Rightarrow> string \<Rightarrow> bool" where
  "is_dir f p = (case f p of Some n \<Rightarrow> fkind n = Dir | None \<Rightarrow> False)"

definition file_data :: "files \<Rightarrow> string \<Rightarrow> string option" where
  "file_data f p = (case f p of
     Some n \<Rightarrow> (case fkind n of Reg d \<Rightarrow> Some d | Dir \<Rightarrow> None) | None \<Rightarrow> None)"

unbundle bit_operations_syntax

text \<open>\<open>open(path, O_WRONLY|O_CREATE|O_APPEND, perm)\<close>\<close>

definition sys_open_append :: "host \<Rightarrow> string \<Rightarrow> perm \<Rightarrow> 'q world \<Rightarrow> errno option \<times> 'q world" where
  "sys_open_append h p m w =
     (if fault h w \<noteq> None then (Some EIO, count_sys w)
      else case files w p of
        Some n \<Rightarrow> ((if fkind n = Dir then Some EISDIR else None), count_sys w)
      | None \<Rightarrow>
          if is_dir (files w) (path_dir p)
          then (None, put_files ((files w)(p \<mapsto> \<lparr>fkind = Reg [], fmode = m AND NOT (umask h)\<rparr>)) (count_sys w))
          else (Some ENOENT, count_sys w))"

text \<open>One \<open>write\<close> to a file open for append; a failing write may leave a prefix behind.\<close>

definition append_data :: "files \<Rightarrow> string \<Rightarrow> string \<Rightarrow> files" where
  "append_data f p d = (case f p of
     Some n \<Rightarrow> (case fkind n of Reg old \<Rightarrow> f(p \<mapsto> n\<lparr>fkind := Reg (old @ d)\<rparr>) | Dir \<Rightarrow> f)
   | None \<Rightarrow> f)"

definition sys_write :: "host \<Rightarrow> string \<Rightarrow> string \<Rightarrow> 'q world \<Rightarrow> errno option \<times> 'q world" where
  "sys_write h p d w =
     (case fault h w of
        Some k \<Rightarrow> (Some EIO, put_files (append_data (files w) p (take k d)) (count_sys w))
      | None \<Rightarrow> (None, put_files (append_data (files w) p d) (count_sys w)))"

definition sys_chmod :: "host \<Rightarrow> string \<Rightarrow> perm \<Rightarrow> 'q world \<Rightarrow> errno option \<times> 'q world" where
  "sys_chmod h p m w =
     (if fault h w \<noteq> None then (Some EIO, count_sys w)
      else case files w p of
        None \<Rightarrow> (Some ENOENT, count_sys w)
      | Some n \<Rightarrow> (None, put_files ((files w)(p \<mapsto> n\<lparr>fmode := m\<rparr>)) (count_sys w)))"

text \<open>\<open>close\<close> may report an error; it changes no file.\<close>

definition sys_close :: "host \<Rightarrow> 'q world \<Rightarrow> errno option \<times> 'q world" where
  "sys_close h w = ((if fault h w \<noteq> None then Some EIO else None), count_sys w)"

text \<open>\<open>open\<close> for reading, then \<open>read\<close> to the end: the bytes read and the read error, if any.\<close>

definition sys_open_read :: "host \<Rightarrow> string \<Rightarrow> 'q world \<Rightarrow> (errno + string) \<times> 'q world" where
  "sys_open_read h p w =
     (if fault h w \<noteq> None then (Inl EIO, count_sys w)
      else case files w p of
        None \<Rightarrow> (Inl ENOENT, count_sys w)
      | Some n \<Rightarrow> (Inr (case fkind n of Reg d \<Rightarrow> d | Dir \<Rightarrow> []), count_sys w))"

definition sys_read :: "host \<Rightarrow> string \<Rightarrow> string \<Rightarrow> 'q world \<Rightarrow> (string \<times> errno option) \<times> 'q world" where
  "sys_read h p d w =
     (case fault h w of
        Some k \<Rightarrow> ((take k d, Some EIO), count_sys w)
      | None \<Rightarrow> ((d, if is_dir (files w) p then Some EISDIR else None), count_sys w))"

text \<open>The hooks never remove a directory.\<close>

definition sys_remove :: "host \<Rightarrow> string \<Rightarrow> 'q world \<Rightarrow> errno option \<times> 'q world" where
  "sys_remove h p w =
     (if fault h w \<noteq> None then (Some EIO, count_sys w)
      else if files w p = None then (Some ENOENT, count_sys w)
      else if is_dir (files w) p then (Some EISDIR, count_sys w)
      else (None, put_files ((files w)(p := None)) (count_sys w)))"

definition sys_rename :: "host \<Rightarrow> string \<Rightarrow> string \<Rightarrow> 'q world \<Rightarrow> errno option \<times> 'q world" where
  "sys_rename h p q w =
     (if fault h w \<noteq> None then (Some EIO, count_sys w)
      else if files w p = None then (Some ENOENT, count_sys w)
      else if is_dir (files w) q then (Some EISDIR, count_sys w)
      else (None, put_files ((files w)(p := None, q := files w p)) (count_sys w)))"

definition sys_link :: "host \<Rightarrow> string \<Rightarrow> string \<Rightarrow> 'q world \<Rightarrow> errno option \<times> 'q world" where
  "sys_link h p q w =
     (if fault h w \<noteq> None then (Some EIO, count_sys w)
      else if files w p = None then (Some ENOENT, count_sys w)
      else if is_dir (files w) p then (Some EPERM, count_sys w)
      else if files w q \<noteq> None then (Some EEXIST, count_sys w)
      else if \<not> is_dir (files w) (path_dir q) then (Some ENOENT, count_sys w)
      else (None, put_files ((files w)(q := files w p)) (count_sys w)))"

definition sys_mkdir :: "host \<Rightarrow> string \<Rightarrow> perm \<Rightarrow> 'q world \<Rightarrow> errno option \<times> 'q world" where
  "sys_mkdir h p m w =
     (if fault h w \<noteq> None then (Some EIO, count_sys w)
      else if files w p \<noteq> None then (Some EEXIST, count_sys w)
      else if \<not> is_dir (files w) (path_dir p) then (Some ENOENT, count_sys w)
      else (None, put_files ((files w)(p \<mapsto> \<lparr>fkind = Dir, fmode = m AND NOT (umask h)\<rparr>)) (count_sys w)))"

text \<open>
  \<open>os.CreateTemp(dir, prefix*suffix)\<close>: the first random name that does not exist yet, created
  exclusively with mode 0600 (384).
\<close>

definition temp_random :: "u32 \<Rightarrow> string" where
  "temp_random r = show_digits (uint r)"

definition sys_create_temp ::
  "host \<Rightarrow> string \<Rightarrow> string \<Rightarrow> string \<Rightarrow> 'q world \<Rightarrow> (errno + string) \<times> 'q world" where
  "sys_create_temp h dir pre suf w =
     (if fault h w \<noteq> None then (Inl EIO, count_sys w)
      else if \<not> is_dir (files w) (Clean dir) then (Inl ENOENT, count_sys w)
      else case find (\<lambda>r. files w (path_join [dir, pre @ temp_random r @ suf]) = None) (rands h) of
        None \<Rightarrow> (Inl EEXIST, count_sys w)
      | Some r \<Rightarrow>
          let p = path_join [dir, pre @ temp_random r @ suf]
          in (Inr p, put_files ((files w)(p \<mapsto> \<lparr>fkind = Reg [], fmode = 384 AND NOT (umask h)\<rparr>)) (count_sys w)))"

text \<open>\<open>exec.Command(path, args...).Output()\<close>\<close>

definition sys_run :: "host \<Rightarrow> string \<Rightarrow> string list \<Rightarrow> 'q world \<Rightarrow> (string + string) \<times> 'q world" where
  "sys_run h path args w =
     ((if fault h w \<noteq> None then Inl (errno_text EIO) else run_cmd h (nsys w) path args), count_sys w)"

subsection \<open>The process environment\<close>

definition getenv :: "'q world \<Rightarrow> string \<Rightarrow> string" where
  "getenv w k = (case penv w k of Some v \<Rightarrow> v | None \<Rightarrow> [])"

definition setenv_ok :: "string \<Rightarrow> string \<Rightarrow> bool" where
  "setenv_ok k v = (k \<noteq> [] \<and> CHR ''='' \<notin> set k \<and> NUL \<notin> set k \<and> NUL \<notin> set v)"

definition setenv :: "string \<Rightarrow> string \<Rightarrow> 'q world \<Rightarrow> gerr option \<times> 'q world" where
  "setenv k v w =
     (if setenv_ok k v then (None, w\<lparr>penv := (penv w)(k \<mapsto> v)\<rparr>)
      else (Some (SysErr EINVAL ''setenv''), w))"

definition clearenv :: "'q world \<Rightarrow> 'q world" where
  "clearenv w = w\<lparr>penv := Map.empty\<rparr>"

subsection \<open>The logger of log.go\<close>

text \<open>
  \<open>logs\<close> holds what was written, oldest first: \<open>True\<close> for standard error, \<open>False\<close> for standard
  output, and the line \<open><component>[<LEVEL>]: <message>\<close>.
\<close>

definition log_write :: "bool \<Rightarrow> string \<Rightarrow> string \<Rightarrow> string \<Rightarrow> 'q world \<Rightarrow> 'q world" where
  "log_write err component level msg w =
     w\<lparr>logs := logs w @ [(err, component @ ''['' @ level @ '']: '' @ msg @ [LF])]\<rparr>"

definition log_info :: "string \<Rightarrow> string \<Rightarrow> 'q world \<Rightarrow> 'q world" where
  "log_info component msg = log_write False component ''INFO'' msg"

definition log_warn :: "string \<Rightarrow> string \<Rightarrow> 'q world \<Rightarrow> 'q world" where
  "log_warn component msg = log_write True component ''WARN'' msg"

definition log_error :: "string \<Rightarrow> string \<Rightarrow> 'q world \<Rightarrow> 'q world" where
  "log_error component msg = log_write True component ''ERROR'' msg"

definition QRMILog :: "string \<Rightarrow> string \<Rightarrow> string \<Rightarrow> string \<Rightarrow> 'q world \<Rightarrow> 'q world" where
  "QRMILog component level target message w =
     (let target = (if target = [] then ''qrmi'' else target) in
      if level = ''ERROR'' then log_error component (sprintf ''QRMI %s: %s'' [S target, S message]) w
      else if level = ''WARN'' then log_warn component (sprintf ''QRMI %s: %s'' [S target, S message]) w
      else if level = ''INFO'' then log_info component (sprintf ''QRMI %s: %s'' [S target, S message]) w
      else log_info component (sprintf ''QRMI %s %s: %s'' [S level, S target, S message]) w)"

subsection \<open>Frames\<close>

text \<open>
  \<open>same_proc w w'\<close>: nothing but the files, their history and the call counter differ. Every
  system call on files is such a step.
\<close>

definition same_proc :: "'q world \<Rightarrow> 'q world \<Rightarrow> bool" where
  "same_proc w w' =
     (penv w' = penv w \<and> logs w' = logs w \<and> jenv w' = jenv w \<and> logcb w' = logcb w \<and> lib w' = lib w \<and> qlog w' = qlog w)"

lemma same_proc_refl [simp]: "same_proc w w"
  by (simp add: same_proc_def)

lemma same_proc_trans: "same_proc a b \<Longrightarrow> same_proc b c \<Longrightarrow> same_proc a c"
  by (simp add: same_proc_def)

lemma same_proc_put [simp]:
  "same_proc w (put_files f w') = same_proc w w'" "same_proc w (count_sys w') = same_proc w w'"
  by (simp_all add: same_proc_def put_files_def count_sys_def)

lemma sys_same_proc:
  "same_proc w (snd (sys_open_append h p m w))"
  "same_proc w (snd (sys_write h p d w))"
  "same_proc w (snd (sys_chmod h p m w))"
  "same_proc w (snd (sys_close h w))"
  "same_proc w (snd (sys_open_read h p w))"
  "same_proc w (snd (sys_read h p d w))"
  "same_proc w (snd (sys_remove h p w))"
  "same_proc w (snd (sys_rename h p q w))"
  "same_proc w (snd (sys_link h p q w))"
  "same_proc w (snd (sys_mkdir h p m w))"
  "same_proc w (snd (sys_create_temp h p pre suf w))"
  by (simp_all add: sys_open_append_def sys_write_def sys_chmod_def sys_close_def sys_open_read_def
      sys_read_def sys_remove_def sys_rename_def sys_link_def sys_mkdir_def sys_create_temp_def
      Let_def split: option.split)

text \<open>The calls that change no file, and those that change only the files named.\<close>

lemma files_put [simp]: "files (put_files f w) = f" "files (count_sys w) = files w"
  by (simp_all add: put_files_def count_sys_def)

lemma files_read [simp]:
  "files (snd (sys_close h w)) = files w"
  "files (snd (sys_open_read h p w)) = files w"
  "files (snd (sys_read h p d w)) = files w"
  by (simp_all add: sys_close_def sys_open_read_def sys_read_def split: option.split)

lemma file_data_upd [simp]:
  "file_data (f(p := None)) q = (if q = p then None else file_data f q)"
  "file_data (f(p \<mapsto> n)) q =
     (if q = p then (case fkind n of Reg d \<Rightarrow> Some d | Dir \<Rightarrow> None) else file_data f q)"
  by (simp_all add: file_data_def)

lemma append_data_at:
  "file_data f p = Some old \<Longrightarrow> file_data (append_data f p d) p = Some (old @ d)"
  by (auto simp: file_data_def append_data_def split: option.splits fkind.splits)

lemma append_data_other [simp]: "q \<noteq> p \<Longrightarrow> (append_data f p d) q = f q"
  by (auto simp: append_data_def split: option.splits fkind.splits)

lemma is_dir_append_data [simp]: "is_dir (append_data f p d) q = is_dir f q"
  by (auto simp: is_dir_def append_data_def split: option.splits fkind.splits)

lemma file_data_not_dir: "file_data f p = Some d \<Longrightarrow> \<not> is_dir f p"
  by (auto simp: file_data_def is_dir_def split: option.splits fkind.splits)

text \<open>
  \<open>only_at P w w'\<close>: a step that changes files at most at the paths of \<open>P\<close>, in its result and in
  every state the file system went through, and nothing of the process.
\<close>

definition only_at :: "string set \<Rightarrow> 'q world \<Rightarrow> 'q world \<Rightarrow> bool" where
  "only_at P w w' = (same_proc w w' \<and>
     (\<exists>fs. hist w' = fs @ hist w \<and> (\<forall>f \<in> set (files w' # fs). \<forall>q. q \<notin> P \<longrightarrow> f q = files w q)))"

lemma only_atI:
  "same_proc w w' \<Longrightarrow> hist w' = fs @ hist w \<Longrightarrow>
   (\<And>q. q \<notin> P \<Longrightarrow> files w' q = files w q) \<Longrightarrow>
   (\<And>f q. f \<in> set fs \<Longrightarrow> q \<notin> P \<Longrightarrow> f q = files w q) \<Longrightarrow> only_at P w w'"
  by (auto simp: only_at_def)

lemma only_at_refl [simp]: "only_at P w w"
  by (rule only_atI [where fs = "[]"]) simp_all

lemma only_at_trans [trans]: "only_at P a b \<Longrightarrow> only_at Q b c \<Longrightarrow> only_at (P \<union> Q) a c"
proof -
  assume 1: "only_at P a b" and 2: "only_at Q b c"
  obtain fs where f: "hist b = fs @ hist a" "\<forall>f \<in> set (files b # fs). \<forall>q. q \<notin> P \<longrightarrow> f q = files a q"
    using 1 by (auto simp: only_at_def)
  obtain gs where g: "hist c = gs @ hist b" "\<forall>f \<in> set (files c # gs). \<forall>q. q \<notin> Q \<longrightarrow> f q = files b q"
    using 2 by (auto simp: only_at_def)
  show ?thesis
  proof (rule only_atI [where fs = "gs @ fs"])
    show "same_proc a c" using 1 2 by (auto simp: only_at_def intro: same_proc_trans)
    show "hist c = (gs @ fs) @ hist a" using f g by simp
  qed (use f g in auto)
qed

lemma only_at_trans_same: "only_at P a b \<Longrightarrow> only_at P b c \<Longrightarrow> only_at P a c"
  using only_at_trans [of P a b P c] by simp

lemma only_at_mono: "only_at P a b \<Longrightarrow> P \<subseteq> Q \<Longrightarrow> only_at Q a b"
  by (fastforce simp: only_at_def)

lemma only_at_count [simp]: "only_at P w (count_sys w)"
  by (rule only_atI [where fs = "[]"]) (simp_all add: count_sys_def same_proc_def)

lemma only_at_put: "(\<And>q. q \<notin> P \<Longrightarrow> f q = files w q) \<Longrightarrow> only_at P w (put_files f (count_sys w))"
  by (rule only_atI [where fs = "[f]"]) (auto simp: put_files_def count_sys_def same_proc_def)

lemma only_at_upd [simp]:
  "only_at {p} w (put_files ((files w)(p := x)) (count_sys w))"
  "only_at {p} w (put_files (append_data (files w) p d) (count_sys w))"
  "only_at {p, q} w (put_files ((files w)(p := x, q := y)) (count_sys w))"
  by (rule only_at_put; simp)+

lemma only_at_files: "only_at P w w' \<Longrightarrow> q \<notin> P \<Longrightarrow> files w' q = files w q"
  by (auto simp: only_at_def)

lemma only_at_file_data: "only_at P w w' \<Longrightarrow> q \<notin> P \<Longrightarrow> file_data (files w') q = file_data (files w) q"
  by (simp add: file_data_def only_at_files)

lemma only_at_is_dir: "only_at P w w' \<Longrightarrow> q \<notin> P \<Longrightarrow> is_dir (files w') q = is_dir (files w) q"
  by (simp add: is_dir_def only_at_files)

lemma only_at_proc: "only_at P w w' \<Longrightarrow> same_proc w w'"
  by (simp add: only_at_def)

lemma sys_only_at:
  "only_at {p} w (snd (sys_open_append h p m w))"
  "only_at {p} w (snd (sys_write h p d w))"
  "only_at {p} w (snd (sys_chmod h p m w))"
  "only_at {} w (snd (sys_close h w))"
  "only_at {} w (snd (sys_open_read h p w))"
  "only_at {} w (snd (sys_read h p d w))"
  "only_at {p} w (snd (sys_remove h p w))"
  "only_at {p, q} w (snd (sys_rename h p q w))"
  "only_at {q} w (snd (sys_link h p q w))"
  "only_at {p} w (snd (sys_mkdir h p m w))"
  by (simp_all add: sys_open_append_def sys_write_def sys_chmod_def sys_close_def sys_open_read_def
      sys_read_def sys_remove_def sys_rename_def sys_link_def sys_mkdir_def split: option.split)

lemma create_temp_only_at:
  assumes "sys_create_temp h dir pre suf w = (Inr p, w')"
  shows "only_at {p} w w' \<and> files w p = None \<and> file_data (files w') p = Some [] \<and>
    (\<exists>r \<in> set (rands h). p = path_join [dir, pre @ temp_random r @ suf])"
  using assms
  by (auto simp: sys_create_temp_def Let_def find_Some_iff split: if_splits option.splits
      intro!: only_at_put)

lemma create_temp_fail:
  "sys_create_temp h dir pre suf w = (Inl e, w') \<Longrightarrow> only_at {} w w'"
  by (auto simp: sys_create_temp_def Let_def split: if_splits option.splits)

text \<open>
  \<open>files_at P w w'\<close>: the same for steps that may also change the process (its environment, its
  log, the open job environment file): files change at most at \<open>P\<close>, and nothing happens in
  libqrmi.
\<close>

definition files_at :: "string set \<Rightarrow> 'q world \<Rightarrow> 'q world \<Rightarrow> bool" where
  "files_at P w w' = (lib w' = lib w \<and> qlog w' = qlog w \<and>
     (\<exists>fs. hist w' = fs @ hist w \<and> (\<forall>f \<in> set (files w' # fs). \<forall>q. q \<notin> P \<longrightarrow> f q = files w q)))"

lemma only_at_files_at: "only_at P w w' \<Longrightarrow> files_at P w w'"
  by (auto simp: only_at_def files_at_def same_proc_def)

lemma files_at_refl [simp]: "files_at P w w"
  by (simp add: files_at_def)

lemma files_at_trans [trans]: "files_at P a b \<Longrightarrow> files_at Q b c \<Longrightarrow> files_at (P \<union> Q) a c"
proof -
  assume 1: "files_at P a b" and 2: "files_at Q b c"
  obtain fs where f: "hist b = fs @ hist a" "\<forall>f \<in> set (files b # fs). \<forall>q. q \<notin> P \<longrightarrow> f q = files a q"
    using 1 by (auto simp: files_at_def)
  obtain gs where g: "hist c = gs @ hist b" "\<forall>f \<in> set (files c # gs). \<forall>q. q \<notin> Q \<longrightarrow> f q = files b q"
    using 2 by (auto simp: files_at_def)
  have "hist c = (gs @ fs) @ hist a" using f g by simp
  moreover have "\<forall>f \<in> set (files c # gs @ fs). \<forall>q. q \<notin> P \<union> Q \<longrightarrow> f q = files a q"
    using f g by auto
  ultimately show ?thesis using 1 2 unfolding files_at_def by metis
qed

lemma files_at_trans_same: "files_at P a b \<Longrightarrow> files_at P b c \<Longrightarrow> files_at P a c"
  using files_at_trans [of P a b P c] by simp

lemma files_at_mono: "files_at P a b \<Longrightarrow> P \<subseteq> Q \<Longrightarrow> files_at Q a b"
  by (fastforce simp: files_at_def)

lemma files_at_files: "files_at P w w' \<Longrightarrow> q \<notin> P \<Longrightarrow> files w' q = files w q"
  by (auto simp: files_at_def)

lemma files_at_file_data: "files_at P w w' \<Longrightarrow> q \<notin> P \<Longrightarrow> file_data (files w') q = file_data (files w) q"
  by (simp add: file_data_def files_at_files)

lemma files_at_lib: "files_at P w w' \<Longrightarrow> lib w' = lib w \<and> qlog w' = qlog w"
  by (simp add: files_at_def)

lemma files_at_proc [simp]:
  "files_at P w (w'\<lparr>penv := e\<rparr>) = files_at P w w'"
  "files_at P w (w'\<lparr>logs := l\<rparr>) = files_at P w w'"
  "files_at P w (w'\<lparr>jenv := j\<rparr>) = files_at P w w'"
  "files_at P w (w'\<lparr>nsys := n\<rparr>) = files_at P w w'"
  "files_at P w (w'\<lparr>logcb := l'\<rparr>) = files_at P w w'"
  by (simp_all add: files_at_def)

lemma files_at_log [simp]:
  "files_at P w (log_info c m w') = files_at P w w'"
  "files_at P w (log_warn c m w') = files_at P w w'"
  "files_at P w (log_error c m w') = files_at P w w'"
  "files_at P w (clearenv w') = files_at P w w'"
  "files_at P w (snd (setenv k v w')) = files_at P w w'"
  by (simp_all add: log_info_def log_warn_def log_error_def log_write_def clearenv_def setenv_def)

lemma files_at_count [simp]: "files_at P w (count_sys w') = files_at P w w'"
  by (simp add: count_sys_def)

text \<open>
  \<open>effect P es w w'\<close>: a step of a whole hook: it changes files at most at \<open>P\<close> and makes the
  library calls \<open>es\<close>.
\<close>

definition effect :: "string set \<Rightarrow> qevent list \<Rightarrow> 'q world \<Rightarrow> 'q world \<Rightarrow> bool" where
  "effect P es w w' = (qlog w' = qlog w @ es \<and>
     (\<exists>fs. hist w' = fs @ hist w \<and> (\<forall>f \<in> set (files w' # fs). \<forall>q. q \<notin> P \<longrightarrow> f q = files w q)))"

lemma files_at_effect: "files_at P w w' \<Longrightarrow> effect P [] w w'"
  by (simp add: files_at_def effect_def)

lemma effect_refl [simp]: "effect P [] w w"
  by (simp add: effect_def)

lemma effect_trans:
  assumes "effect P es a b" "effect Q ds b c"
  shows "effect (P \<union> Q) (es @ ds) a c"
proof -
  obtain fs where f: "hist b = fs @ hist a" "\<forall>f \<in> set (files b # fs). \<forall>q. q \<notin> P \<longrightarrow> f q = files a q"
    using assms(1) by (auto simp: effect_def)
  obtain gs where g: "hist c = gs @ hist b" "\<forall>f \<in> set (files c # gs). \<forall>q. q \<notin> Q \<longrightarrow> f q = files b q"
    using assms(2) by (auto simp: effect_def)
  have "hist c = (gs @ fs) @ hist a" using f g by simp
  moreover have "\<forall>f \<in> set (files c # gs @ fs). \<forall>q. q \<notin> P \<union> Q \<longrightarrow> f q = files a q"
    using f g by auto
  ultimately show ?thesis using assms unfolding effect_def by (metis append_assoc)
qed

lemma effect_trans_same: "effect P es a b \<Longrightarrow> effect P ds b c \<Longrightarrow> effect P (es @ ds) a c"
  using effect_trans [of P es a b P ds c] by simp

lemma effect_mono: "effect P es a b \<Longrightarrow> P \<subseteq> Q \<Longrightarrow> effect Q es a b"
  by (fastforce simp: effect_def)

lemma effect_files: "effect P es w w' \<Longrightarrow> q \<notin> P \<Longrightarrow> files w' q = files w q"
  by (auto simp: effect_def)

lemma effect_file_data: "effect P es w w' \<Longrightarrow> q \<notin> P \<Longrightarrow> file_data (files w') q = file_data (files w) q"
  by (simp add: file_data_def effect_files)

lemma effect_qlog: "effect P es w w' \<Longrightarrow> qlog w' = qlog w @ es"
  by (simp add: effect_def)

lemma effect_fields [simp]:
  "effect P es w (w'\<lparr>penv := e\<rparr>) = effect P es w w'"
  "effect P es w (w'\<lparr>logs := l\<rparr>) = effect P es w w'"
  "effect P es w (w'\<lparr>jenv := j\<rparr>) = effect P es w w'"
  "effect P es w (w'\<lparr>nsys := n\<rparr>) = effect P es w w'"
  "effect P es w (w'\<lparr>logcb := c\<rparr>) = effect P es w w'"
  "effect P es w (w'\<lparr>lib := q\<rparr>) = effect P es w w'"
  by (simp_all add: effect_def)

lemma effect_log [simp]:
  "effect P es w (log_info c m w') = effect P es w w'"
  "effect P es w (log_warn c m w') = effect P es w w'"
  "effect P es w (log_error c m w') = effect P es w w'"
  "effect P es w (clearenv w') = effect P es w w'"
  "effect P es w (count_sys w') = effect P es w w'"
  by (simp_all add: log_info_def log_warn_def log_error_def log_write_def clearenv_def count_sys_def)

subsection \<open>Runs without faults\<close>

definition fault_free :: "host \<Rightarrow> bool" where
  "fault_free h = (faults h = (\<lambda>n. None))"

lemma fault_free_fault [simp]: "fault_free h \<Longrightarrow> fault h w = None"
  by (simp add: fault_free_def fault_def)

text \<open>A host without faults and a fresh process, for the concrete runs of the development.\<close>

definition quiet_host :: host where
  "quiet_host = \<lparr>faults = (\<lambda>n. None), umask = 18, rands = [7, 8], now = 1700000000, spent = 2,
     uid = 1000, users = [''alice'' \<mapsto> ''1001''], home = Some ''/home/sge'', hostname = Some ''node1'',
     tree = Map.empty, run_cmd = (\<lambda>n c a. Inl ''exit status 1'')\<rparr>"

definition fresh_world :: "(string \<rightharpoonup> string) \<Rightarrow> files \<Rightarrow> 'q \<Rightarrow> 'q world" where
  "fresh_world env f q =
     \<lparr>files = f, hist = [], penv = env, nsys = 0, logs = [], jenv = None, logcb = None,
      lib = q, qlog = []\<rparr>"

lemma fault_free_quiet [simp]: "fault_free quiet_host"
  by (simp add: fault_free_def quiet_host_def)

end
