(* ===== verification/Go_Scan.thy ===== *)
theory Go_Scan
  imports Go_Strings
begin

text \<open>
  \<open>bufio.Scanner\<close> with its default split function \<open>ScanLines\<close>: the lines of the input without
  their line feed and one carriage return, up to the first line that does not fit the buffer.
  A line (with its carriage return) of \<open>max\<close> bytes or more is too long. The last line may lack
  its line feed; an empty remainder at the end is no line.
\<close>

definition drop_cr :: "string \<Rightarrow> string" where
  "drop_cr l = (if l \<noteq> [] \<and> last l = CR then butlast l else l)"

definition raw_lines :: "string \<Rightarrow> string list" where
  "raw_lines d = (let ls = split LF d in if last ls = [] then butlast ls else ls)"

fun scan_upto :: "int \<Rightarrow> string list \<Rightarrow> string list \<times> bool" where
  "scan_upto m [] = ([], False)"
| "scan_upto m (l # ls) =
     (if m \<le> int (length l) then ([], True)
      else let (rest, e) = scan_upto m ls in (drop_cr l # rest, e))"

text \<open>The lines delivered, and whether the scan ended with \<open>ErrTooLong\<close>.\<close>

definition scan_lines :: "int \<Rightarrow> string \<Rightarrow> string list \<times> bool" where
  "scan_lines m d = scan_upto m (raw_lines d)"

definition default_max_token :: int where
  "default_max_token = 65536"

lemma raw_lines_terminated [str_simps]:
  "\<forall>l \<in> set ls. LF \<notin> set l \<Longrightarrow> raw_lines (concat (map (\<lambda>l. l @ [LF]) ls)) = ls"
proof -
  assume n: "\<forall>l \<in> set ls. LF \<notin> set l"
  have "split LF (concat (map (\<lambda>l. l @ [LF]) ls)) = ls @ [[]]" using n
    by (induction ls) (simp_all add: split_append_sep split_no_sep)
  then show ?thesis by (simp add: raw_lines_def Let_def)
qed

lemma raw_lines_one [str_simps]: "LF \<notin> set l \<Longrightarrow> raw_lines (l @ [LF]) = [l]"
  using raw_lines_terminated [of "[l]"] by simp

lemma scan_upto_short:
  "\<forall>l \<in> set ls. int (length l) < m \<Longrightarrow> scan_upto m ls = (map drop_cr ls, False)"
  by (induction ls) auto

lemma drop_cr_id [simp]: "CR \<notin> set l \<Longrightarrow> drop_cr l = l"
  by (auto simp: drop_cr_def dest: last_in_set)

lemma drop_cr_last [simp]: "l \<noteq> [] \<Longrightarrow> last l \<noteq> CR \<Longrightarrow> drop_cr l = l"
  by (simp add: drop_cr_def)

end
