(* ===== verification/Metadata.thy ===== *)
theory Metadata
  imports Host Go_Scan
begin

text \<open>
  \<open>src/internal/qrmiocs/metadata.go\<close>: the acquisition metadata file the prolog leaves for the
  epilog. \<open>WriteAtomic\<close> writes a temporary file and renames it; \<open>ReadStrictSingle\<close> reads
  exactly one record back. The lemmas: what a write leaves in the file for every pattern of
  failing system calls, the reader against its specification, and the round trip.
\<close>

record acq_record =
  rec_name :: string
  rec_type :: i64
  rec_token :: string
  rec_epoch :: i64

subsection \<open>bufio.Writer on a file\<close>

record bufw =
  bbuf :: string
  berr :: "gerr option"

definition bufio_size :: nat where
  "bufio_size = 4096"

definition file_write :: "host \<Rightarrow> string \<Rightarrow> string \<Rightarrow> bufw \<Rightarrow> 'q world \<Rightarrow> bufw \<times> 'q world" where
  "file_write h p d b w =
     (case sys_write h p d w of
        (None, w) \<Rightarrow> (b, w)
      | (Some e, w) \<Rightarrow> (b\<lparr>berr := Some (SysErr e (''write '' @ p))\<rparr>, w))"

definition bufio_flush :: "host \<Rightarrow> string \<Rightarrow> bufw \<Rightarrow> 'q world \<Rightarrow> bufw \<times> 'q world" where
  "bufio_flush h p b w =
     (if berr b \<noteq> None \<or> bbuf b = [] then (b, w)
      else file_write h p (bbuf b) (b\<lparr>bbuf := []\<rparr>) w)"

definition bufio_write :: "host \<Rightarrow> string \<Rightarrow> string \<Rightarrow> bufw \<Rightarrow> 'q world \<Rightarrow> bufw \<times> 'q world" where
  "bufio_write h p d b w =
     (if berr b \<noteq> None then (b, w)
      else if length d \<le> bufio_size - length (bbuf b) then (b\<lparr>bbuf := bbuf b @ d\<rparr>, w)
      else if bbuf b = [] then file_write h p d b w
      else
        let n = bufio_size - length (bbuf b);
            (b, w) = bufio_flush h p (b\<lparr>bbuf := bbuf b @ take n d\<rparr>) w;
            d = drop n d
        in if berr b \<noteq> None then (b, w)
           else if length d \<le> bufio_size then (b\<lparr>bbuf := d\<rparr>, w)
           else file_write h p d b w)"

subsection \<open>Writing\<close>

definition render_record :: "acq_record \<Rightarrow> string" where
  "render_record r =
     rec_name r @ TAB # itoa (rec_type r) @ TAB # rec_token r @ TAB # itoa (rec_epoch r)"

definition record_line :: "acq_record \<Rightarrow> string" where
  "record_line r = render_record r @ [LF]"

definition writable_record :: "acq_record \<Rightarrow> bool" where
  "writable_record r =
     (\<not> contains_any (rec_name r) [TAB, LF] \<and> \<not> contains_any (rec_token r) [TAB, LF])"

fun write_records ::
  "host \<Rightarrow> string \<Rightarrow> acq_record list \<Rightarrow> bufw \<Rightarrow> 'q world \<Rightarrow> (gerr + bufw) \<times> 'q world" where
  "write_records h tmp [] b w = (Inr b, w)"
| "write_records h tmp (r # rs) b w =
     (if \<not> writable_record r
      then (Inl (Errorf ''record contains tab or newline in name or token'' []), w)
      else let (b, w) = bufio_write h tmp (record_line r) b w in
        case berr b of
          Some e \<Rightarrow> (Inl (Wrapf ''write metadata: %w'' [] e), w)
        | None \<Rightarrow> write_records h tmp rs b w)"

definition write_tmp ::
  "host \<Rightarrow> string \<Rightarrow> string \<Rightarrow> acq_record list \<Rightarrow> 'q world \<Rightarrow> gerr option \<times> 'q world" where
  "write_tmp h path tmp records w =
     (case write_records h tmp records \<lparr>bbuf = [], berr = None\<rparr> w of
        (Inl e, w) \<Rightarrow> (Some e, snd (sys_close h w))
      | (Inr b, w) \<Rightarrow>
          (case bufio_flush h tmp b w of (b, w) \<Rightarrow>
             (case berr b of
                Some e \<Rightarrow> (Some (Wrapf ''flush metadata: %w'' [] e), snd (sys_close h w))
              | None \<Rightarrow>
                  (case sys_close h w of
                     (Some e, w) \<Rightarrow>
                       (Some (Wrapf ''close metadata: %w'' [] (SysErr e (''close '' @ tmp))), w)
                   | (None, w) \<Rightarrow>
                       (case sys_rename h tmp path w of
                          (Some e, w) \<Rightarrow>
                            (Some (Wrapf ''rename metadata to %s: %w'' [S path] (SysErr e (''rename '' @ tmp))), w)
                        | (None, w) \<Rightarrow> (None, w))))))"

definition WriteAtomic ::
  "host \<Rightarrow> string \<Rightarrow> acq_record list \<Rightarrow> 'q world \<Rightarrow> gerr option \<times> 'q world" where
  "WriteAtomic h path records w =
     (let dir = path_dir path in
      case sys_create_temp h dir ''qrmi_ocs_acquired.'' ''.tsv'' w of
        (Inl e, w) \<Rightarrow>
          (Some (Wrapf ''create temp file in %s: %w'' [S dir] (SysErr e ''open'')), w)
      | (Inr tmp, w) \<Rightarrow>
          (case write_tmp h path tmp records w of
             (r, w) \<Rightarrow> (r, snd (sys_remove h tmp w))))"

subsection \<open>Reading\<close>

definition malformed :: gerr where
  "malformed = Errorf ''malformed metadata line'' []"

definition parseRecordLine :: "string \<Rightarrow> gerr + acq_record" where
  "parseRecordLine line =
     (let fields = split TAB line in
      if length fields < 3 then Inl malformed
      else let name = fields ! 0; typeText = fields ! 1; token = fields ! 2 in
        if name = [] \<or> typeText = [] \<or> token = [] then Inl malformed
        else case atoi typeText of
          None \<Rightarrow> Inl (Errorf ''invalid resource type in metadata line'' [])
        | Some typ \<Rightarrow>
            if sint typ < 0 then Inl (Errorf ''invalid resource type in metadata line'' [])
            else if 4 \<le> length fields \<and> fields ! 3 \<noteq> [] then
              (case parse_i64 (fields ! 3) of
                 None \<Rightarrow> Inl (Errorf ''invalid acquisition time in metadata line'' [])
               | Some epoch \<Rightarrow>
                   Inr \<lparr>rec_name = name, rec_type = typ, rec_token = token, rec_epoch = epoch\<rparr>)
            else Inr \<lparr>rec_name = name, rec_type = typ, rec_token = token, rec_epoch = 0\<rparr>)"

definition trim_crs :: "string \<Rightarrow> string" where
  "trim_crs l = rev (dropWhile (\<lambda>c. c = CR) (rev l))"

text \<open>The loop over the scanner's lines: \<open>got\<close> is \<open>None\<close> while \<open>have\<close> is false.\<close>

fun read_loop :: "(string \<Rightarrow> gerr + 'r) \<Rightarrow> string list \<Rightarrow> 'r option \<Rightarrow> gerr + 'r option" where
  "read_loop parse [] got = Inr got"
| "read_loop parse (l # ls) got =
     (let line = trim_crs l in
      if line = [] then read_loop parse ls got
      else if got \<noteq> None then Inl ErrMultipleRecords
      else case parse line of Inl e \<Rightarrow> Inl e | Inr r \<Rightarrow> read_loop parse ls (Some r))"

definition metadata_max_token :: int where
  "metadata_max_token = 1048576"

definition read_scanned :: "(string \<Rightarrow> gerr + 'r) \<Rightarrow> string \<Rightarrow> gerr option \<Rightarrow> gerr + 'r" where
  "read_scanned parse d rerr =
     (case scan_lines metadata_max_token d of (ls, toolong) \<Rightarrow>
        (case read_loop parse ls None of
           Inl e \<Rightarrow> Inl e
         | Inr got \<Rightarrow>
             if toolong then Inl (Wrapf ''read metadata: %w'' [] (SysErr ETOOLONG []))
             else (case rerr of
                     Some e \<Rightarrow> Inl (Wrapf ''read metadata: %w'' [] e)
                   | None \<Rightarrow> (case got of None \<Rightarrow> Inl ErrNoRecord | Some r \<Rightarrow> Inr r))))"

definition ReadStrictSingle :: "host \<Rightarrow> string \<Rightarrow> 'q world \<Rightarrow> (gerr + acq_record) \<times> 'q world" where
  "ReadStrictSingle h path w =
     (case sys_open_read h path w of
        (Inl e, w) \<Rightarrow> (Inl (SysErr e (''open '' @ path)), w)
      | (Inr d, w) \<Rightarrow>
          (case sys_read h path d w of
             ((data, rerr), w) \<Rightarrow>
               (read_scanned parseRecordLine data (map_option (\<lambda>e. SysErr e (''read '' @ path)) rerr),
                snd (sys_close h w))))"

subsection \<open>What a write leaves behind\<close>

text \<open>
  The buffer invariant: as long as the writer has no error, the bytes of the temporary file
  followed by the buffered ones are the bytes written so far, and the buffer fits.
\<close>

definition holds :: "string \<Rightarrow> bufw \<Rightarrow> 'q world \<Rightarrow> string \<Rightarrow> bool" where
  "holds p b w d = (berr b = None \<longrightarrow>
     length (bbuf b) \<le> bufio_size \<and>
     (\<exists>old. file_data (files w) p = Some old \<and> old @ bbuf b = d))"

lemma file_write_only_at: "file_write h p d b w = (b', w') \<Longrightarrow> only_at {p} w w'"
  using sys_only_at(2) [of p w h d]
  by (auto simp: file_write_def split: prod.splits option.splits)

lemma file_write_ok:
  "file_write h p d b w = (b', w') \<Longrightarrow> berr b' = None \<Longrightarrow> file_data (files w) p = Some old \<Longrightarrow>
   b' = b \<and> file_data (files w') p = Some (old @ d)"
  by (auto simp: file_write_def sys_write_def append_data_at split: option.splits)

lemma bufio_flush_only_at: "bufio_flush h p b w = (b', w') \<Longrightarrow> only_at {p} w w'"
  by (auto simp: bufio_flush_def dest: file_write_only_at split: if_splits)

lemma bufio_flush_holds:
  assumes "bufio_flush h p b w = (b', w')" "holds p b w d"
  shows "holds p b' w' d \<and> (berr b' = None \<longrightarrow> bbuf b' = [])"
  using assms by (auto simp: bufio_flush_def holds_def dest!: file_write_ok split: if_splits)

lemma bufio_write_only_at:
  assumes "bufio_write h p x b w = (b', w')"
  shows "only_at {p} w w'"
  using assms
  by (auto simp: bufio_write_def Let_def dest!: file_write_only_at bufio_flush_only_at
      intro: only_at_trans_same split: if_splits prod.splits)

lemma bufio_write_holds:
  assumes "bufio_write h p x b w = (b', w')" "holds p b w d"
  shows "holds p b' w' (d @ x)"
proof (cases "berr b' = None")
  case True
  show ?thesis
  proof (cases "berr b \<noteq> None \<or> length x \<le> bufio_size - length (bbuf b) \<or> bbuf b = []")
    case simple: True
    with True assms show ?thesis
      by (auto simp: bufio_write_def holds_def dest!: file_write_ok split: if_splits)
  next
    case False
    let ?n = "bufio_size - length (bbuf b)"
    let ?b = "b\<lparr>bbuf := bbuf b @ take ?n x\<rparr>"
    obtain b1 w1 where f: "bufio_flush h p ?b w = (b1, w1)" by fastforce
    have "holds p ?b w (d @ take ?n x)" using assms(2) False by (auto simp: holds_def)
    with f have h1: "holds p b1 w1 (d @ take ?n x)" "berr b1 = None \<longrightarrow> bbuf b1 = []"
      using bufio_flush_holds by blast+
    have d: "d @ x = (d @ take ?n x) @ drop ?n x" by simp
    show ?thesis using assms(1) False f h1 True unfolding d
      by (auto simp: bufio_write_def Let_def holds_def dest!: file_write_ok split: if_splits)
  qed
next
  case False
  then show ?thesis by (auto simp: holds_def)
qed

lemma write_records_only_at:
  "write_records h p rs b w = (r, w') \<Longrightarrow> only_at {p} w w'"
proof (induction rs arbitrary: b w)
  case (Cons a rs)
  then show ?case
    by (auto simp: Let_def dest!: bufio_write_only_at intro: only_at_trans_same
        split: if_splits prod.splits option.splits)
qed simp

lemma write_records_holds:
  "write_records h p rs b w = (Inr b', w') \<Longrightarrow> holds p b w d \<Longrightarrow> berr b = None \<Longrightarrow>
   holds p b' w' (d @ concat (map record_line rs)) \<and> berr b' = None \<and> list_all writable_record rs"
proof (induction rs arbitrary: b w d)
  case (Cons a rs)
  obtain b1 w1 where b1: "bufio_write h p (record_line a) b w = (b1, w1)" by fastforce
  from Cons.prems(1) b1 have "writable_record a" "berr b1 = None"
    "write_records h p rs b1 w1 = (Inr b', w')"
    by (auto simp: Let_def split: if_splits option.splits)
  with Cons.IH [of b1 w1 "d @ record_line a"] bufio_write_holds [OF b1 Cons.prems(2)]
  show ?case by simp
qed simp

lemma write_tmp_cases:
  assumes "write_tmp h path tmp rs w = (r, w')" "file_data (files w) tmp = Some []"
  shows "(\<exists>e. r = Some e) \<and> only_at {tmp} w w' \<or>
    r = None \<and> list_all writable_record rs \<and>
    (\<exists>w1. only_at {tmp} w w1 \<and> file_data (files w1) tmp = Some (concat (map record_line rs)) \<and>
       sys_rename h tmp path w1 = (None, w'))"
proof -
  obtain x w1 where 1: "write_records h tmp rs \<lparr>bbuf = [], berr = None\<rparr> w = (x, w1)" by fastforce
  then have o1: "only_at {tmp} w w1" by (rule write_records_only_at)
  have cl: "only_at {tmp} u (snd (sys_close h u))" for u :: "'a world"
    using only_at_mono [OF sys_only_at(4)] by blast
  show ?thesis
  proof (cases x)
    case (Inl e)
    with assms(1) 1 o1 cl show ?thesis by (auto simp: write_tmp_def intro: only_at_trans_same)
  next
    case (Inr b)
    have "holds tmp \<lparr>bbuf = [], berr = None\<rparr> w []" using assms(2) by (simp add: holds_def)
    with 1 Inr write_records_holds [of h tmp rs _ w b w1 "[]"]
    have h1: "holds tmp b w1 (concat (map record_line rs))" "list_all writable_record rs" by auto
    obtain b2 w2 where 2: "bufio_flush h tmp b w1 = (b2, w2)" by fastforce
    have o2: "only_at {tmp} w w2"
      using o1 bufio_flush_only_at [OF 2] by (rule only_at_trans_same)
    note h2 = bufio_flush_holds [OF 2 h1(1)]
    show ?thesis
    proof (cases "berr b2")
      case (Some e)
      with assms(1) 1 Inr 2 o2 cl show ?thesis by (auto simp: write_tmp_def intro: only_at_trans_same)
    next
      case None
      obtain c w3 where 3: "sys_close h w2 = (c, w3)" by fastforce
      have o3: "only_at {tmp} w w3" using only_at_trans_same [OF o2 cl [of w2]] 3 by simp
      have d3: "file_data (files w3) tmp = Some (concat (map record_line rs))"
        using h2 None files_read(1) [of h w2] 3 by (auto simp: holds_def)
      obtain e w4 where 4: "sys_rename h tmp path w3 = (e, w4)" by fastforce
      show ?thesis
      proof (cases "c = None \<and> e = None")
        case True
        with assms(1) 1 Inr 2 None 3 4 o3 d3 h1(2) show ?thesis by (auto simp: write_tmp_def)
      next
        case False
        have "only_at {tmp} w3 w4" if "e \<noteq> None"
          using 4 that by (auto simp: sys_rename_def split: if_splits)
        with False assms(1) 1 Inr 2 None 3 4 o3 show ?thesis
          by (auto simp: write_tmp_def intro: only_at_trans_same split: option.splits)
      qed
    qed
  qed
qed

text \<open>The names a temporary file next to \<open>path\<close> can have.\<close>

definition temp_names :: "host \<Rightarrow> string \<Rightarrow> string set" where
  "temp_names h path =
     (\<lambda>r. path_join [path_dir path, ''qrmi_ocs_acquired.'' @ temp_random r @ ''.tsv'']) ` set (rands h)"

lemma rename_ok:
  assumes "sys_rename h p q w = (None, w')" "p \<noteq> q"
  shows "files w' = (files w)(p := None, q := files w p)" "hist w' = files w' # hist w"
    "same_proc w w'"
  using assms by (auto simp: sys_rename_def put_files_def count_sys_def same_proc_def split: if_splits)

lemma WriteAtomic_run:
  assumes call: "WriteAtomic h path rs w = (r, w')" and fresh: "path \<notin> temp_names h path"
  shows "only_at (insert path (temp_names h path)) w w' \<and>
    (\<exists>fs. hist w' = fs @ hist w \<and>
       (\<forall>f \<in> set fs. file_data f path \<in> {file_data (files w) path, Some (concat (map record_line rs))})) \<and>
    file_data (files w') path =
      (if r = None then Some (concat (map record_line rs)) else file_data (files w) path) \<and>
    (r = None \<longrightarrow> list_all writable_record rs)"
proof -
  let ?pre = "''qrmi_ocs_acquired.''" and ?suf = "''.tsv''" and ?c = "concat (map record_line rs)"
  obtain x w1 where 1: "sys_create_temp h (path_dir path) ?pre ?suf w = (x, w1)" by fastforce
  show ?thesis
  proof (cases x)
    case (Inl e)
    then have o: "only_at {} w w1" and "r \<noteq> None" "w' = w1"
      using 1 call create_temp_fail by (auto simp: WriteAtomic_def Let_def)
    then show ?thesis using only_at_mono [OF o, of "insert path (temp_names h path)"]
      by (auto simp: only_at_def file_data_def)
  next
    case (Inr tmp)
    have t: "only_at {tmp} w w1" "file_data (files w1) tmp = Some []" "tmp \<in> temp_names h path"
      using create_temp_only_at [OF 1 [unfolded Inr]] by (auto simp: temp_names_def)
    have ne: "path \<noteq> tmp" using t(3) fresh by auto
    obtain y w2 where 2: "write_tmp h path tmp rs w1 = (y, w2)" by fastforce
    have w': "r = y" "w' = snd (sys_remove h tmp w2)"
      using call 1 Inr 2 by (auto simp: WriteAtomic_def Let_def)
    have o3: "only_at {tmp} w2 w'" using sys_only_at(7) w'(2) by simp
    from write_tmp_cases [OF 2 t(2)] show ?thesis
    proof (elim disjE conjE exE)
      fix e assume e: "y = Some e" and o2: "only_at {tmp} w1 w2"
      have o: "only_at {tmp} w w'" using t(1) o2 o3 by (blast intro: only_at_trans_same)
      then obtain fs where "hist w' = fs @ hist w" "\<forall>f \<in> set (files w' # fs). f path = files w path"
        using ne by (auto simp: only_at_def)
      then show ?thesis using e w'(1) only_at_mono [OF o] t(3)
        by (auto simp: file_data_def)
    next
      fix u assume y: "y = None" "list_all writable_record rs" and o2: "only_at {tmp} w1 u"
        and d: "file_data (files u) tmp = Some ?c" and rn: "sys_rename h tmp path u = (None, w2)"
      have o: "only_at {tmp} w u" using t(1) o2 by (rule only_at_trans_same)
      then obtain fs where fs: "hist u = fs @ hist w" "\<forall>f \<in> set fs. f path = files w path"
        using ne by (auto simp: only_at_def)
      obtain gs where gs: "hist w' = gs @ hist w2" "\<forall>f \<in> set (files w' # gs). f path = files w2 path"
        using o3 ne by (auto simp: only_at_def)
      note r = rename_ok [OF rn ne [symmetric]]
      have "only_at {tmp, path} u w2" using sys_only_at(8) [of tmp path u h] rn by simp
      then have "only_at {tmp, path} w w'"
        using o o3 by (blast intro: only_at_trans_same only_at_mono)
      moreover have p2: "file_data (files w2) path = Some ?c"
        using d ne by (simp add: r(1) file_data_def)
      moreover have "hist w' = (gs @ files w2 # fs) @ hist w" using fs gs r(2) by simp
      ultimately show ?thesis using y w'(1) t(3) fs gs
        by (auto simp: file_data_def intro!: only_at_mono [of "{tmp, path}"]
            exI [of _ "gs @ files w2 # fs"])
    qed
  qed
qed

subsection \<open>The reader against its specification\<close>

text \<open>What the file promises: one line that is not blank, and that line parses.\<close>

definition content_lines :: "string \<Rightarrow> string list" where
  "content_lines d = filter (\<lambda>l. l \<noteq> []) (map trim_crs (raw_lines d))"

definition strict_single :: "(string \<Rightarrow> gerr + 'r) \<Rightarrow> string \<Rightarrow> gerr + 'r" where
  "strict_single parse d =
     (case content_lines d of
        [] \<Rightarrow> Inl ErrNoRecord
      | [l] \<Rightarrow> parse l
      | l # l2 # ls \<Rightarrow> (case parse l of Inl e \<Rightarrow> Inl e | Inr r \<Rightarrow> Inl ErrMultipleRecords))"

definition short_lines :: "string \<Rightarrow> bool" where
  "short_lines d = list_all (\<lambda>l. int (length l) < metadata_max_token) (raw_lines d)"

lemma trim_crs_drop_cr [simp]: "trim_crs (drop_cr l) = trim_crs l"
  by (cases l rule: rev_cases) (auto simp: trim_crs_def drop_cr_def)

lemma trim_crs_id [simp]: "l = [] \<or> last l \<noteq> CR \<Longrightarrow> trim_crs l = l"
  by (cases l rule: rev_cases) (auto simp: trim_crs_def)

lemma read_loop_Some:
  "read_loop parse ls (Some r) =
     (if filter (\<lambda>l. l \<noteq> []) (map trim_crs ls) = [] then Inr (Some r) else Inl ErrMultipleRecords)"
  by (induction ls) (auto simp: Let_def)

lemma read_loop_None:
  "read_loop parse ls None =
     (case filter (\<lambda>l. l \<noteq> []) (map trim_crs ls) of
        [] \<Rightarrow> Inr None
      | l # ls' \<Rightarrow> (case parse l of Inl e \<Rightarrow> Inl e
                    | Inr r \<Rightarrow> if ls' = [] then Inr (Some r) else Inl ErrMultipleRecords))"
  by (induction ls) (auto simp: Let_def read_loop_Some split: sum.splits)

lemma scan_short: "short_lines d \<Longrightarrow>
  scan_lines metadata_max_token d = (map drop_cr (raw_lines d), False)"
  by (simp add: scan_lines_def short_lines_def scan_upto_short list_all_iff)

lemma read_scanned_spec:
  "short_lines d \<Longrightarrow> read_scanned parse d None = strict_single parse d"
  by (auto simp: read_scanned_def scan_short read_loop_None strict_single_def content_lines_def
      comp_def split: list.splits sum.splits)

subsection \<open>Records as lines\<close>

text \<open>
  The interface between the two hooks: records are encoded as one line each and decoded from
  it. The laws are what the strict reader needs to give back the record that was written.
\<close>

locale line_codec =
  fixes enc :: "'r \<Rightarrow> string"
    and dec :: "string \<Rightarrow> gerr + 'r"
    and ok :: "'r \<Rightarrow> bool"
  assumes one_line: "ok r \<Longrightarrow> LF \<notin> set (enc r) \<and> enc r \<noteq> [] \<and> last (enc r) \<noteq> CR"
    and dec_enc: "ok r \<Longrightarrow> dec (enc r) = Inr r"
begin

lemma raw_lines_enc:
  "\<forall>r \<in> set rs. ok r \<Longrightarrow> raw_lines (concat (map (\<lambda>r. enc r @ [LF]) rs)) = map enc rs"
  using raw_lines_terminated [of "map enc rs"] one_line by (simp add: comp_def)

lemma content_lines_enc:
  "\<forall>r \<in> set rs. ok r \<Longrightarrow> content_lines (concat (map (\<lambda>r. enc r @ [LF]) rs)) = map enc rs"
proof -
  assume ok: "\<forall>r \<in> set rs. ok r"
  have "filter (\<lambda>l. l \<noteq> []) (map (trim_crs \<circ> enc) rs) = map enc rs"
    using ok one_line by (induction rs) auto
  then show ?thesis by (simp add: content_lines_def raw_lines_enc ok)
qed

lemma strict_single_enc:
  assumes "\<forall>r \<in> set rs. ok r"
  shows "strict_single dec (concat (map (\<lambda>r. enc r @ [LF]) rs)) =
    (case rs of [] \<Rightarrow> Inl ErrNoRecord | [r] \<Rightarrow> Inr r | _ \<Rightarrow> Inl ErrMultipleRecords)"
  using content_lines_enc [OF assms] assms dec_enc
  by (auto simp: strict_single_def split: list.splits)

lemma read_back:
  assumes "ok r" "int (length (enc r)) < metadata_max_token"
  shows "read_scanned dec (enc r @ [LF]) None = Inr r"
proof -
  have "short_lines (enc r @ [LF])"
    using assms one_line by (simp add: short_lines_def raw_lines_one)
  then show ?thesis using strict_single_enc [of "[r]"] assms(1) by (simp add: read_scanned_spec)
qed

end

definition readable_record :: "acq_record \<Rightarrow> bool" where
  "readable_record r = (rec_name r \<noteq> [] \<and> rec_token r \<noteq> [] \<and> 0 \<le> sint (rec_type r))"

lemma split_render:
  "writable_record r \<Longrightarrow>
   split TAB (render_record r) = [rec_name r, itoa (rec_type r), rec_token r, itoa (rec_epoch r)]"
  by (simp add: render_record_def writable_record_def contains_any_iff split_append_sep split_no_sep)

lemma parse_render:
  "writable_record r \<Longrightarrow>
   parseRecordLine (render_record r) =
     (if rec_name r = [] \<or> rec_token r = [] then Inl malformed
      else if sint (rec_type r) < 0 then Inl (Errorf ''invalid resource type in metadata line'' [])
      else Inr r)"
  by (simp add: parseRecordLine_def split_render Let_def)

lemma render_one_line:
  "writable_record r \<Longrightarrow>
   LF \<notin> set (render_record r) \<and> render_record r \<noteq> [] \<and> last (render_record r) \<noteq> CR"
proof -
  have "last (itoa w) \<noteq> CR" for w
    using itoa_no_control(3) [of w] itoa_not_Nil [of w] last_in_set [of "itoa w"] by metis
  then show "writable_record r \<Longrightarrow> ?thesis"
    by (simp add: render_record_def writable_record_def contains_any_iff)
qed

interpretation rc: line_codec render_record parseRecordLine
  "\<lambda>r. writable_record r \<and> readable_record r"
  by unfold_locales (auto simp: render_one_line parse_render readable_record_def)

subsection \<open>The operations without faults\<close>

lemma ReadStrictSingle_quiet:
  "fault_free h \<Longrightarrow> file_data (files w) path = Some d \<Longrightarrow>
   fst (ReadStrictSingle h path w) = read_scanned parseRecordLine d None"
  by (auto simp: ReadStrictSingle_def sys_open_read_def sys_read_def file_data_def is_dir_def
      split: option.splits fkind.splits)

lemma ReadStrictSingle_missing:
  "fault_free h \<Longrightarrow> files w path = None \<Longrightarrow>
   fst (ReadStrictSingle h path w) = Inl (SysErr ENOENT (''open '' @ path))"
  by (simp add: ReadStrictSingle_def sys_open_read_def)

lemma ReadStrictSingle_only_at: "only_at {} w (snd (ReadStrictSingle h path w))"
proof -
  have "only_at {} w w3" if "sys_open_read h path w = (a, w1)" "sys_read h path d w1 = (b, w2)"
    "sys_close h w2 = (c, w3)" for a w1 d b w2 c w3
    using sys_only_at(5) [of w h path] sys_only_at(6) [of w1 h path d] sys_only_at(4) [of w2 h] that
    by (metis only_at_trans_same snd_conv)
  moreover have "only_at {} w w1" if "sys_open_read h path w = (a, w1)" for a w1
    using sys_only_at(5) [of w h path] that by simp
  ultimately show ?thesis
    by (auto simp: ReadStrictSingle_def split: prod.splits sum.splits) (metis prod.collapse)
qed

lemma read_scanned_Nil:
  "read_scanned parse [] e =
     Inl (case e of None \<Rightarrow> ErrNoRecord | Some x \<Rightarrow> Wrapf ''read metadata: %w'' [] x)"
  by (auto simp: read_scanned_def scan_lines_def raw_lines_def split: option.splits)

lemma ReadStrictSingle_found:
  assumes "fst (ReadStrictSingle h path w) = Inr rec"
  shows "\<exists>d. file_data (files w) path = Some d"
proof (rule ccontr)
  assume "\<nexists>d. file_data (files w) path = Some d"
  with assms read_scanned_Nil [of parseRecordLine] show False
    by (auto simp: ReadStrictSingle_def sys_open_read_def sys_read_def file_data_def
        split: if_splits option.splits fkind.splits prod.splits)
qed

subsection \<open>The metadata path\<close>

definition MetadataFilename :: string where
  "MetadataFilename = ''qrmi_ocs_acquired.tsv''"

lemma normal_MetadataFilename [simp]: "normal_elem MetadataFilename"
  by (simp add: MetadataFilename_def normal_elem_def)

lemma normal_temp_name [simp]: "normal_elem (''qrmi_ocs_acquired.'' @ temp_random r @ ''.tsv'')"
proof -
  have "list_all is_digit (temp_random r)" by (simp add: temp_random_def show_digits_digits)
  then have "SLASH \<notin> set (temp_random r)" by (auto simp: list_all_iff is_digit_def)
  then show ?thesis by (simp add: normal_elem_def)
qed

lemma metadata_not_temp:
  assumes "is_abs dir"
  shows "path_join [dir, MetadataFilename] \<notin> temp_names h (path_join [dir, MetadataFilename])"
proof
  obtain es where es: "\<forall>x \<in> set es. normal_elem x"
    "path_join [dir, MetadataFilename] = abs_path (es @ [MetadataFilename])"
    using path_join_absE [OF assms normal_MetadataFilename] by metis
  assume "path_join [dir, MetadataFilename] \<in> temp_names h (path_join [dir, MetadataFilename])"
  then obtain r where "abs_path (es @ [MetadataFilename]) =
      path_join [abs_path es, ''qrmi_ocs_acquired.'' @ temp_random r @ ''.tsv'']"
    using es by (auto simp: temp_names_def path_dir_abs)
  also have "\<dots> = abs_path (es @ [''qrmi_ocs_acquired.'' @ temp_random r @ ''.tsv''])"
    using es(1) normal_temp_name by (rule path_join_abs)
  finally have "MetadataFilename = ''qrmi_ocs_acquired.'' @ temp_random r @ ''.tsv''"
    using path_base_abs normal_temp_name normal_MetadataFilename by metis
  then have "length MetadataFilename = length (''qrmi_ocs_acquired.'' @ temp_random r @ ''.tsv'')"
    by simp
  moreover have "temp_random r \<noteq> []" by (simp add: temp_random_def)
  ultimately show False by (simp add: MetadataFilename_def)
qed

subsection \<open>A write without faults\<close>

definition mode_at :: "files \<Rightarrow> string \<Rightarrow> perm option" where
  "mode_at f p = map_option fmode (f p)"

lemma mode_at_append [simp]: "mode_at (append_data f p d) q = mode_at f q"
  by (auto simp: mode_at_def append_data_def split: option.split fkind.split)

lemma file_write_mode: "file_write h p d b w = (b', w') \<Longrightarrow> mode_at (files w') q = mode_at (files w) q"
  by (auto simp: file_write_def sys_write_def split: option.splits)

lemma bufio_flush_mode: "bufio_flush h p b w = (b', w') \<Longrightarrow> mode_at (files w') q = mode_at (files w) q"
  by (auto simp: bufio_flush_def file_write_mode split: if_splits)

lemma bufio_write_mode: "bufio_write h p d b w = (b', w') \<Longrightarrow> mode_at (files w') q = mode_at (files w) q"
  by (auto simp: bufio_write_def Let_def split: if_splits prod.splits
      dest!: file_write_mode [of _ _ _ _ _ _ _ q] bufio_flush_mode [of _ _ _ _ _ _ q])

lemma write_records_mode:
  "write_records h p rs b w = (r, w') \<Longrightarrow> mode_at (files w') q = mode_at (files w) q"
proof (induction rs arbitrary: b w)
  case (Cons a rs)
  then show ?case
    by (auto simp: Let_def dest: bufio_write_mode [of _ _ _ _ _ _ _ q] split: if_splits prod.splits option.splits)
qed simp

lemma file_write_quiet: "fault_free h \<Longrightarrow> file_write h p d b w = (b', w') \<Longrightarrow> b' = b"
  by (simp add: file_write_def sys_write_def)

lemma bufio_flush_quiet:
  "fault_free h \<Longrightarrow> berr b = None \<Longrightarrow> bufio_flush h p b w = (b', w') \<Longrightarrow> berr b' = None"
  by (auto simp: bufio_flush_def dest: file_write_quiet split: if_splits)

lemma bufio_write_quiet:
  assumes h: "fault_free h" and b: "berr b = None" and e: "bufio_write h p d b w = (b', w')"
  shows "berr b' = None"
proof (cases "length d \<le> bufio_size - length (bbuf b) \<or> bbuf b = []")
  case True
  with b e show ?thesis
    by (auto simp: bufio_write_def dest: file_write_quiet [OF h] split: if_splits)
next
  case False
  let ?n = "bufio_size - length (bbuf b)"
  obtain b1 w1 where f: "bufio_flush h p (b\<lparr>bbuf := bbuf b @ take ?n d\<rparr>) w = (b1, w1)" by fastforce
  have "berr b1 = None" using bufio_flush_quiet [OF h _ f] b by simp
  with False b e f show ?thesis
    by (auto simp: bufio_write_def Let_def dest: file_write_quiet [OF h] split: if_splits)
qed

lemma write_records_quiet:
  assumes "fault_free h"
  shows "berr b = None \<Longrightarrow> list_all writable_record rs \<Longrightarrow> \<exists>b' w'. write_records h p rs b w = (Inr b', w')"
proof (induction rs arbitrary: b w)
  case (Cons a rs)
  obtain b1 w1 where 1: "bufio_write h p (record_line a) b w = (b1, w1)" by fastforce
  then have "berr b1 = None" using bufio_write_quiet [OF assms Cons.prems(1)] by blast
  then show ?case using Cons 1 by simp
qed simp

unbundle bit_operations_syntax

lemma write_tmp_quiet:
  assumes h: "fault_free h" and ok: "list_all writable_record rs"
    and f: "files w tmp = Some \<lparr>fkind = Reg [], fmode = m\<rparr>" and nd: "\<not> is_dir (files w) path"
    and ne: "path \<noteq> tmp"
  obtains w' where "write_tmp h path tmp rs w = (None, w')"
    "files w' = (files w)(tmp := None, path \<mapsto> \<lparr>fkind = Reg (concat (map record_line rs)), fmode = m\<rparr>)"
proof -
  let ?b = "\<lparr>bbuf = [], berr = None\<rparr>"
  obtain b1 w1 where 1: "write_records h tmp rs ?b w = (Inr b1, w1)"
    using write_records_quiet [OF h, of ?b rs tmp w] ok by auto
  have "holds tmp ?b w []" using f by (simp add: holds_def file_data_def)
  then have h1: "holds tmp b1 w1 (concat (map record_line rs))" "berr b1 = None"
    using write_records_holds [OF 1, of "[]"] by auto
  obtain b2 w2 where 2: "bufio_flush h tmp b1 w1 = (b2, w2)" by fastforce
  have e2: "berr b2 = None" using bufio_flush_quiet [OF h h1(2) 2] .
  have d2: "file_data (files w2) tmp = Some (concat (map record_line rs))"
    using bufio_flush_holds [OF 2 h1(1)] e2 by (auto simp: holds_def)
  have m2: "mode_at (files w2) tmp = Some m"
    using bufio_flush_mode [OF 2] write_records_mode [OF 1] f by (simp add: mode_at_def)
  have n2: "files w2 tmp = Some \<lparr>fkind = Reg (concat (map record_line rs)), fmode = m\<rparr>"
    using d2 m2 by (auto simp: file_data_def mode_at_def split: option.splits fkind.splits)
  have o: "only_at {tmp} w w2"
    using write_records_only_at [OF 1] bufio_flush_only_at [OF 2] by (rule only_at_trans_same)
  then have q2: "files w2 q = files w q" if "q \<noteq> tmp" for q using that only_at_files by blast
  then have "is_dir (files w2) path = is_dir (files w) path" using ne by (simp add: is_dir_def)
  then have rn: "sys_rename h tmp path (count_sys w2) =
      (None, put_files ((files w2)(tmp := None, path := files w2 tmp)) (count_sys (count_sys w2)))"
    using h nd n2 by (simp add: sys_rename_def)
  show thesis
  proof
    show "write_tmp h path tmp rs w =
        (None, put_files ((files w2)(tmp := None, path := files w2 tmp)) (count_sys (count_sys w2)))"
      using h by (simp add: write_tmp_def 1 2 e2 sys_close_def rn)
    show "files (put_files ((files w2)(tmp := None, path := files w2 tmp)) (count_sys (count_sys w2))) =
        (files w)(tmp := None, path \<mapsto> \<lparr>fkind = Reg (concat (map record_line rs)), fmode = m\<rparr>)"
      by (auto simp: n2 fun_eq_iff q2)
  qed
qed

definition temp_free :: "host \<Rightarrow> string \<Rightarrow> files \<Rightarrow> bool" where
  "temp_free h path f = list_ex (\<lambda>r.
     f (path_join [path_dir path, ''qrmi_ocs_acquired.'' @ temp_random r @ ''.tsv'']) = None) (rands h)"

lemma WriteAtomic_quiet:
  assumes h: "fault_free h" and abs: "is_abs dir" and ok: "list_all writable_record rs"
    and path: "path = path_join [dir, MetadataFilename]"
    and d: "is_dir (files w) (path_dir path)" and nd: "\<not> is_dir (files w) path"
    and t: "temp_free h path (files w)"
  obtains w' where "WriteAtomic h path rs w = (None, w')"
    "files w' = (files w)(path \<mapsto>
       \<lparr>fkind = Reg (concat (map record_line rs)), fmode = 384 AND NOT (umask h)\<rparr>)"
proof -
  obtain es where "\<forall>x \<in> set es. normal_elem x" "path = abs_path (es @ [MetadataFilename])"
    using path_join_absE [OF abs normal_MetadataFilename] path by metis
  then have cl: "Clean (path_dir path) = path_dir path" by (simp add: path_dir_abs Clean_abs_path)
  let ?nm = "\<lambda>r. path_join [path_dir path, ''qrmi_ocs_acquired.'' @ temp_random r @ ''.tsv'']"
  obtain r where r: "find (\<lambda>r. files w (?nm r) = None) (rands h) = Some r"
    using t by (cases "find (\<lambda>r. files w (?nm r) = None) (rands h)")
      (auto simp: temp_free_def list_ex_iff find_None_iff)
  then have free: "files w (?nm r) = None" "r \<in> set (rands h)" by (auto simp: find_Some_iff)
  have ne: "path \<noteq> ?nm r" using metadata_not_temp [OF abs, of h] free path
    by (auto simp: temp_names_def)
  let ?n = "\<lparr>fkind = Reg [], fmode = 384 AND NOT (umask h)\<rparr>"
  let ?w = "put_files ((files w)(?nm r \<mapsto> ?n)) (count_sys w)"
  have c: "sys_create_temp h (path_dir path) ''qrmi_ocs_acquired.'' ''.tsv'' w = (Inr (?nm r), ?w)"
    using h d r cl by (simp add: sys_create_temp_def Let_def)
  obtain w2 where w2: "write_tmp h path (?nm r) rs ?w = (None, w2)"
    "files w2 = (files ?w)(?nm r := None, path \<mapsto>
       \<lparr>fkind = Reg (concat (map record_line rs)), fmode = 384 AND NOT (umask h)\<rparr>)"
  proof (rule write_tmp_quiet [OF h ok])
    show "files ?w (?nm r) = Some ?n" by simp
    show "\<not> is_dir (files ?w) path" using nd ne by (simp add: is_dir_def)
    show "path \<noteq> ?nm r" by (rule ne)
  qed
  show thesis
  proof
    show "WriteAtomic h path rs w = (None, snd (sys_remove h (?nm r) w2))"
      unfolding WriteAtomic_def Let_def c by (simp only: sum.case prod.case w2(1))
    show "files (snd (sys_remove h (?nm r) w2)) = (files w)(path \<mapsto>
        \<lparr>fkind = Reg (concat (map record_line rs)), fmode = 384 AND NOT (umask h)\<rparr>)"
      using h ne free(1) by (auto simp: sys_remove_def w2(2) fun_eq_iff)
  qed
qed

subsection \<open>What the reader accepts\<close>

lemma scan_upto_False: "scan_upto m ls = (x, False) \<Longrightarrow> \<forall>l \<in> set ls. int (length l) < m"
  by (induction ls arbitrary: x) (auto split: if_splits prod.splits)

lemma scan_short_iff: "snd (scan_lines metadata_max_token d) = (\<not> short_lines d)"
  using scan_upto_False [of metadata_max_token "raw_lines d"] scan_short [of d]
  by (cases "scan_lines metadata_max_token d") (auto simp: scan_lines_def short_lines_def list_all_iff)

lemma read_scanned_Inr:
  assumes "read_scanned parse d e = Inr r"
  obtains l where "e = None" "short_lines d" "content_lines d = [l]" "parse l = Inr r"
proof -
  obtain ls tl where sl: "scan_lines metadata_max_token d = (ls, tl)" by fastforce
  have e: "e = None" "\<not> tl" using assms sl
    by (auto simp: read_scanned_def split: sum.splits option.splits if_splits)
  then have sh: "short_lines d" using scan_short_iff [of d] sl by simp
  with assms e(1) have "strict_single parse d = Inr r" by (simp add: read_scanned_spec)
  then obtain l where "content_lines d = [l]" "parse l = Inr r"
    by (auto simp: strict_single_def split: list.splits sum.splits)
  with e(1) sh that show thesis by blast
qed

lemma parseRecordLine_Inr:
  assumes "parseRecordLine l = Inr r"
  shows "readable_record r \<and> TAB \<notin> set (rec_name r) \<and> TAB \<notin> set (rec_token r)"
proof -
  have n: "3 \<le> length (split TAB l)" using assms
    by (auto simp: parseRecordLine_def Let_def split: if_splits)
  have "TAB \<notin> set (split TAB l ! i)" if "i < 3" for i
    using n that by (intro split_elem_no_sep [of _ TAB l]) simp
  from this [of 0] this [of 2] show ?thesis using assms
    by (auto simp: parseRecordLine_def Let_def readable_record_def split: if_splits option.splits)
qed

lemma ReadStrictSingle_Inr:
  assumes "fst (ReadStrictSingle h path w) = Inr r"
  obtains d where "file_data (files w) path = Some d" "read_scanned parseRecordLine d None = Inr r"
proof -
  obtain d where d: "file_data (files w) path = Some d" using ReadStrictSingle_found [OF assms] by blast
  obtain a w1 where 1: "sys_open_read h path w = (a, w1)" by fastforce
  with assms d have a: "a = Inr d" "files w1 = files w"
    by (auto simp: ReadStrictSingle_def sys_open_read_def file_data_def split: if_splits option.splits fkind.splits)
  obtain x e w2 where 2: "sys_read h path d w1 = ((x, e), w2)" by (metis prod.exhaust)
  have r: "read_scanned parseRecordLine x (map_option (\<lambda>e. SysErr e (''read '' @ path)) e) = Inr r"
    using assms 1 a 2 by (simp add: ReadStrictSingle_def)
  then have "e = None" by (auto elim: read_scanned_Inr)
  with 2 have "x = d" by (auto simp: sys_read_def split: option.splits)
  with r \<open>e = None\<close> d that show thesis by simp
qed

lemma written_read:
  assumes "file_data (files w) path = Some (concat (map record_line rs))" "fault_free h"
    and "list_all writable_record rs" "list_all readable_record rs"
    and "list_all (\<lambda>r. int (length (render_record r)) < metadata_max_token) rs"
  shows "fst (ReadStrictSingle h path w) =
    (case rs of [] \<Rightarrow> Inl ErrNoRecord | [r] \<Rightarrow> Inr r | _ \<Rightarrow> Inl ErrMultipleRecords)"
proof -
  let ?c = "concat (map (\<lambda>r. render_record r @ [LF]) rs)"
  have c: "concat (map record_line rs) = ?c"
    by (rule arg_cong [of _ _ concat]) (simp add: record_line_def)
  have ok: "\<forall>r \<in> set rs. writable_record r \<and> readable_record r"
    using assms(3,4) by (simp add: list_all_iff)
  have "short_lines ?c" using rc.raw_lines_enc [OF ok] assms(5)
    by (simp add: short_lines_def list_all_iff)
  then show ?thesis
    using ReadStrictSingle_quiet [OF assms(2,1)] rc.strict_single_enc [OF ok]
    by (simp add: c read_scanned_spec)
qed

lemma raw_lines_record: "writable_record r \<Longrightarrow> raw_lines (record_line r) = [render_record r]"
  using render_one_line by (simp add: record_line_def raw_lines_one)

subsection \<open>A concrete run\<close>

definition sample_record :: acq_record where
  "sample_record = \<lparr>rec_name = ''EMU_FREE'', rec_type = 1, rec_token = ''tok-1'', rec_epoch = 1700000000\<rparr>"

definition sample_path :: string where
  "sample_path = ''/s/qrmi_ocs_acquired.tsv''"

definition sample_world :: "unit world" where
  "sample_world = fresh_world Map.empty
     [''/s'' \<mapsto> \<lparr>fkind = Dir, fmode = 448\<rparr>,
      ''/m'' \<mapsto> \<lparr>fkind = Reg (record_line sample_record), fmode = 384\<rparr>] ()"

lemma sample_abs: "is_abs ''/s''"
  by code_simp

lemma sample_path: "sample_path = path_join [''/s'', MetadataFilename]"
  by code_simp

lemma sample_write:
  "fst (WriteAtomic quiet_host sample_path [sample_record] sample_world) = None"
  by code_simp

subsection \<open>What the file promises\<close>

text \<open>
  C4. A write of the metadata is atomic whatever system call fails: in every state the file
  system goes through, and after the call, the file has its old content or all the new
  records; the call reports success exactly when the new content is there; and no other file
  changes but temporary files next to it.
\<close>

theorem WriteAtomic_atomic:
  assumes "is_abs dir" "path = path_join [dir, MetadataFilename]"
    and "WriteAtomic h path rs w = (r, w')"
  shows "(\<exists>fs. hist w' = fs @ hist w \<and> (\<forall>f \<in> set fs.
      file_data f path \<in> {file_data (files w) path, Some (concat (map record_line rs))})) \<and>
    file_data (files w') path =
      (if r = None then Some (concat (map record_line rs)) else file_data (files w) path) \<and>
    (\<forall>q. q \<noteq> path \<and> q \<notin> temp_names h path \<longrightarrow> files w' q = files w q)"
proof -
  have "path \<notin> temp_names h path" using metadata_not_temp [OF assms(1)] assms(2) by simp
  note run = WriteAtomic_run [OF assms(3) this]
  then have "\<forall>q. q \<noteq> path \<and> q \<notin> temp_names h path \<longrightarrow> files w' q = files w q"
    using only_at_files by fastforce
  with run show ?thesis by blast
qed

theorem WriteAtomic_atomic_witness:
  "is_abs ''/s'' \<and> fst (WriteAtomic quiet_host sample_path [sample_record] sample_world) = None \<and>
   file_data (files (snd (WriteAtomic quiet_host sample_path [sample_record] sample_world))) sample_path =
     Some (record_line sample_record)"
proof -
  obtain r w' where run: "WriteAtomic quiet_host sample_path [sample_record] sample_world = (r, w')"
    by fastforce
  have r: "r = None" using sample_write run by simp
  show ?thesis using WriteAtomic_atomic [OF sample_abs sample_path run] run r sample_abs by simp
qed

text \<open>
  When no system call fails, the spool directory exists and one of the random names is
  free, a write of records without tabs and line feeds succeeds, leaves exactly the rendered
  records with the owner's permissions, and leaves no temporary file behind.
\<close>

theorem WriteAtomic_succeeds:
  assumes "fault_free h" "is_abs dir" "path = path_join [dir, MetadataFilename]"
    and "list_all writable_record rs" "temp_free h path (files w)"
    and "is_dir (files w) (path_dir path)" "\<not> is_dir (files w) path"
  shows "fst (WriteAtomic h path rs w) = None \<and>
    files (snd (WriteAtomic h path rs w)) = (files w)(path \<mapsto>
      \<lparr>fkind = Reg (concat (map record_line rs)), fmode = 384 AND NOT (umask h)\<rparr>)"
  by (rule WriteAtomic_quiet [OF assms(1,2,4,3,6,7,5)]) simp

theorem WriteAtomic_succeeds_witness:
  "fst (WriteAtomic quiet_host sample_path [sample_record] sample_world) = None \<and>
   files (snd (WriteAtomic quiet_host sample_path [sample_record] sample_world)) sample_path =
     Some \<lparr>fkind = Reg (record_line sample_record), fmode = 384\<rparr>"
proof -
  have "list_all writable_record [sample_record]"
    "temp_free quiet_host sample_path (files sample_world)"
    "is_dir (files sample_world) (path_dir sample_path)" "\<not> is_dir (files sample_world) sample_path"
    by code_simp+
  from WriteAtomic_succeeds [OF fault_free_quiet sample_abs sample_path this] show ?thesis
    by (simp add: quiet_host_def)
qed

text \<open>
  C23. The strict reader, for every content of the file and every pattern of failing system
  calls: a record is returned only when the file has exactly one line that is not blank, and
  that record has a name, a token and a type that is not negative.
\<close>

theorem ReadStrictSingle_strict:
  assumes "fst (ReadStrictSingle h path w) = Inr r"
  shows "\<exists>d l. file_data (files w) path = Some d \<and> content_lines d = [l] \<and>
    parseRecordLine l = Inr r \<and> readable_record r \<and> TAB \<notin> set (rec_name r) \<and> TAB \<notin> set (rec_token r)"
proof -
  obtain d where d: "file_data (files w) path = Some d" "read_scanned parseRecordLine d None = Inr r"
    using ReadStrictSingle_Inr [OF assms] .
  then obtain l where "content_lines d = [l]" "parseRecordLine l = Inr r" by (auto elim: read_scanned_Inr)
  with d(1) parseRecordLine_Inr show ?thesis by blast
qed

theorem ReadStrictSingle_strict_witness:
  "fst (ReadStrictSingle quiet_host ''/m'' sample_world) = Inr sample_record \<and>
   readable_record sample_record"
proof -
  have "fst (ReadStrictSingle quiet_host ''/m'' sample_world) = Inr sample_record" by code_simp
  with ReadStrictSingle_strict [OF this] show ?thesis by blast
qed

text \<open>
  What the prolog writes the epilog reads: after a successful write of records that have a
  name, a token, a type that is not negative and a line below one MiB, the reader gives
  the record back when there is one, and refuses the file when there is none or several.
\<close>

theorem WriteAtomic_then_read:
  assumes "WriteAtomic h path rs w = (None, w')" "is_abs dir" "path = path_join [dir, MetadataFilename]"
    and "list_all readable_record rs" "list_all (\<lambda>r. int (length (render_record r)) < metadata_max_token) rs"
    and "fault_free h'"
  shows "fst (ReadStrictSingle h' path w') =
    (case rs of [] \<Rightarrow> Inl ErrNoRecord | [r] \<Rightarrow> Inr r | _ \<Rightarrow> Inl ErrMultipleRecords)"
proof -
  have "path \<notin> temp_names h path" using metadata_not_temp [OF assms(2)] assms(3) by simp
  then have "file_data (files w') path = Some (concat (map record_line rs))" "list_all writable_record rs"
    using WriteAtomic_run [OF assms(1)] by auto
  then show ?thesis using assms by (intro written_read)
qed

theorem WriteAtomic_then_read_witness:
  "fst (ReadStrictSingle quiet_host sample_path
     (snd (WriteAtomic quiet_host sample_path [sample_record] sample_world))) = Inr sample_record"
proof -
  obtain r w' where run: "WriteAtomic quiet_host sample_path [sample_record] sample_world = (r, w')"
    by fastforce
  then have r: "r = None" using sample_write by simp
  have "list_all readable_record [sample_record]"
    "list_all (\<lambda>r. int (length (render_record r)) < metadata_max_token) [sample_record]"
    by code_simp+
  from WriteAtomic_then_read [OF run [unfolded r] sample_abs sample_path this fault_free_quiet] run
  show ?thesis by simp
qed

text \<open>
  C16. The exact condition for one record: the writer accepts more than the reader. A record
  that was written is read back if and only if it has a name, a token, a type that is not
  negative and a line below one MiB.
\<close>

theorem metadata_roundtrip_iff:
  assumes "WriteAtomic h path [r] w = (None, w')" "is_abs dir" "path = path_join [dir, MetadataFilename]"
    and "fault_free h'"
  shows "fst (ReadStrictSingle h' path w') = Inr r \<longleftrightarrow>
    readable_record r \<and> int (length (render_record r)) < metadata_max_token"
proof -
  have "path \<notin> temp_names h path" using metadata_not_temp [OF assms(2)] assms(3) by simp
  then have f: "file_data (files w') path = Some (concat (map record_line [r]))" and ok: "writable_record r"
    using WriteAtomic_run [OF assms(1)] by auto
  show ?thesis
  proof
    assume "readable_record r \<and> int (length (render_record r)) < metadata_max_token"
    then show "fst (ReadStrictSingle h' path w') = Inr r"
      using written_read [OF f assms(4)] ok by simp
  next
    assume "fst (ReadStrictSingle h' path w') = Inr r"
    then obtain d where d: "file_data (files w') path = Some d" "read_scanned parseRecordLine d None = Inr r"
      using ReadStrictSingle_Inr by blast
    then obtain l where "short_lines d" "parseRecordLine l = Inr r" by (auto elim: read_scanned_Inr)
    moreover have "d = record_line r" using f d(1) by simp
    ultimately show "readable_record r \<and> int (length (render_record r)) < metadata_max_token"
      using raw_lines_record [OF ok] parseRecordLine_Inr by (simp add: short_lines_def)
  qed
qed

theorem metadata_roundtrip_iff_witness:
  "fst (WriteAtomic quiet_host sample_path [sample_record\<lparr>rec_token := []\<rparr>] sample_world) = None \<and>
   fst (ReadStrictSingle quiet_host sample_path
     (snd (WriteAtomic quiet_host sample_path [sample_record\<lparr>rec_token := []\<rparr>] sample_world)))
   \<noteq> Inr (sample_record\<lparr>rec_token := []\<rparr>)"
proof -
  obtain r w' where run:
    "WriteAtomic quiet_host sample_path [sample_record\<lparr>rec_token := []\<rparr>] sample_world = (r, w')"
    by fastforce
  have "fst (WriteAtomic quiet_host sample_path [sample_record\<lparr>rec_token := []\<rparr>] sample_world) = None"
    by code_simp
  then have r: "r = None" using run by simp
  show ?thesis using metadata_roundtrip_iff [OF run [unfolded r] sample_abs sample_path fault_free_quiet] run r
    by (simp add: readable_record_def)
qed

end
