(* ===== verification/Log_Level.thy ===== *)
theory Log_Level
  imports Go_Strings
begin

text \<open>
  \<open>src/internal/qrmiocs/loglevel.go\<close>: the map from the hooks' \<open>--log-level\<close> to a \<open>RUST_LOG\<close>
  value. The second component is Go's \<open>ok\<close>.
\<close>

definition rust_levels :: "string list" where
  "rust_levels = [''error'', ''warn'', ''info'', ''debug'', ''trace'']"

definition RustLogFromDebug :: "string \<Rightarrow> string \<times> bool" where
  "RustLogFromDebug raw =
     (let v = trim_space raw in
      if v = [] then ([], False)
      else case atoi v of
        Some n \<Rightarrow>
          (if sint n \<le> 2 then (''error'', True)
           else if sint n = 3 then (''info'', True)
           else if sint n = 4 then (''debug'', True)
           else (''trace'', True))
      | None \<Rightarrow>
          (if to_lower v \<in> set rust_levels then (to_lower v, True) else ([], False)))"

lemma trim_space_itoa [simp]: "trim_space (itoa w) = itoa w"
  unfolding trim_space_def
proof (rule trim_enc_plain)
  have "\<forall>e \<in> set space_encs. \<not> is_digit (hd e) \<and> hd e \<noteq> CHR ''-'' \<and> \<not> is_digit (last e) \<and> last e \<noteq> CHR ''-''"
    by (simp add: space_encs_def is_digit_def)
  then show "\<forall>e \<in> set space_encs. e \<noteq> [] \<longrightarrow> hd e \<notin> set (itoa w) \<and> last e \<notin> set (itoa w)"
    using itoa_chars by blast
qed

text \<open>
  Every accepted level is one of the five names QRMI knows, a rejected one is empty, and a
  result given back as a level is accepted unchanged.
\<close>

theorem RustLog_closed:
  "case RustLogFromDebug raw of (l, ok) \<Rightarrow>
     (ok \<and> l \<in> set rust_levels \<or> \<not> ok \<and> l = []) \<and>
     (if ok then RustLogFromDebug l = (l, True) else RustLogFromDebug l = ([], False))"
proof -
  have lev: "RustLogFromDebug l = (l, True)" if "l \<in> set rust_levels" for l
    using that by (auto simp: rust_levels_def) (code_simp+)
  have nil: "RustLogFromDebug [] = ([], False)" by code_simp
  have "RustLogFromDebug raw \<in> {(l, True) | l. l \<in> set rust_levels} \<union> {([], False)}"
    by (auto simp: RustLogFromDebug_def Let_def rust_levels_def split: option.splits)
  then show ?thesis using lev nil by auto
qed

definition verbosity :: "string \<Rightarrow> nat" where
  "verbosity l = length (takeWhile (\<lambda>x. x \<noteq> l) rust_levels)"

text \<open>
  The numeric levels: every 64-bit number is accepted in its decimal form, surrounded by any
  white space, and a larger number never gives a quieter log.
\<close>

theorem RustLog_numeric_monotone:
  assumes "sint a \<le> sint b"
  shows "snd (RustLogFromDebug (itoa a)) \<and> snd (RustLogFromDebug (itoa b)) \<and>
    verbosity (fst (RustLogFromDebug (itoa a))) \<le> verbosity (fst (RustLogFromDebug (itoa b)))"
  using assms by (simp add: RustLogFromDebug_def Let_def verbosity_def rust_levels_def)

theorem RustLog_numeric_monotone_witness:
  "sint (3 :: i64) \<le> sint (5 :: i64) \<and>
   verbosity (fst (RustLogFromDebug (itoa 3))) \<le> verbosity (fst (RustLogFromDebug (itoa 5)))"
  using RustLog_numeric_monotone [of 3 5] by simp

end
