(* ===== verification/Job_Env.thy ===== *)
theory Job_Env
  imports Metadata Log_Level
begin

text \<open>
  \<open>src/internal/qrmiocs/paths.go\<close> and \<open>env.go\<close>: the files of the job's spool directory, the
  directory that keeps the metadata of failed releases, and the job environment file that
  mirrors every variable the hooks set. The lemmas: when \<open>Set\<close> succeeds the process and the
  file agree; a failed write freezes the file; the metadata of a failed release is never lost.
\<close>

subsection \<open>paths.go\<close>

definition spool_unset :: gerr where
  "spool_unset = Errorf ''SGE_JOB_SPOOL_DIR is unset'' []"

definition ResolveJobEnvPath :: "'q world \<Rightarrow> gerr + string" where
  "ResolveJobEnvPath w =
     (let spool = getenv w ''SGE_JOB_SPOOL_DIR'' in
      if spool = [] then Inl spool_unset else Inr (path_join [spool, ''environment'']))"

definition ResolveUsagePath :: "'q world \<Rightarrow> gerr + string" where
  "ResolveUsagePath w =
     (let spool = getenv w ''SGE_JOB_SPOOL_DIR'' in
      if spool = [] then Inl spool_unset else Inr (path_join [spool, ''usage'']))"

definition ResolveMetadataPath :: "'q world \<Rightarrow> gerr + string" where
  "ResolveMetadataPath w =
     (let spool = getenv w ''SGE_JOB_SPOOL_DIR'' in
      if spool = [] then Inl spool_unset else Inr (path_join [spool, MetadataFilename]))"

definition FailedReleaseDir :: string where
  "FailedReleaseDir = ''qrmi_failed_releases''"

text \<open>The path and the error, both of which the code returns when the last removal fails.\<close>

definition PreserveFailedRelease ::
  "host \<Rightarrow> string \<Rightarrow> 'q world \<Rightarrow> (string \<times> gerr option) \<times> 'q world" where
  "PreserveFailedRelease h path w =
     (let jobDir = path_dir path;
          dir = path_join [path_dir (path_dir jobDir), FailedReleaseDir];
          kept = path_join [dir, path_base jobDir @ ''.tsv''] in
      case sys_mkdir h dir 448 w of
        (e, w) \<Rightarrow>
          if e \<noteq> None \<and> e \<noteq> Some EEXIST
          then (([], Some (SysErr (the e) (''mkdir '' @ dir))), w)
          else (case sys_link h path kept w of
            (Some e, w) \<Rightarrow> (([], Some (SysErr e (''link '' @ path @ '' '' @ kept))), w)
          | (None, w) \<Rightarrow>
              (case sys_remove h path w of
                 (e, w) \<Rightarrow> ((kept, map_option (\<lambda>e. SysErr e (''remove '' @ path)) e), w))))"

subsection \<open>env.go\<close>

definition job_env_buffer :: nat where
  "job_env_buffer = 4096"

definition OpenJobEnv :: "host \<Rightarrow> 'q world \<Rightarrow> gerr option \<times> 'q world" where
  "OpenJobEnv h w =
     (case ResolveJobEnvPath w of
        Inl e \<Rightarrow> (Some e, w)
      | Inr path \<Rightarrow>
          (case sys_open_append h path 384 w of
             (Some e, w) \<Rightarrow> (Some (Wrapf ''open job env %s: %w'' [S path] (SysErr e (''open '' @ path))), w)
           | (None, w) \<Rightarrow>
               (case sys_chmod h path 384 w of
                  (Some e, w) \<Rightarrow>
                    (Some (Wrapf ''set job env permissions %s: %w'' [S path] (SysErr e (''chmod '' @ path))),
                     snd (sys_close h w))
                | (None, w) \<Rightarrow> (None, w\<lparr>jenv := Some \<lparr>jpath = path, jopen = True, jerr = None\<rparr>\<rparr>))))"

definition Path :: "'q world \<Rightarrow> string" where
  "Path w = (case jenv w of None \<Rightarrow> [] | Some e \<Rightarrow> jpath e)"

definition env_line :: "string \<Rightarrow> string \<Rightarrow> string" where
  "env_line k v = k @ CHR ''='' # v @ [LF]"

text \<open>
  The buffered writer is flushed after every line, so a line costs one write: from \<open>Fprintf\<close>
  when it is longer than the buffer, from \<open>Flush\<close> otherwise. Its first error is kept.
\<close>

definition Set :: "host \<Rightarrow> string \<Rightarrow> string \<Rightarrow> 'q world \<Rightarrow> gerr option \<times> 'q world" where
  "Set h k v w =
     (case setenv k v w of
        (Some e, w) \<Rightarrow> (Some (Wrapf ''setenv %s: %w'' [S k] e), w)
      | (None, w) \<Rightarrow>
          (case jenv w of
             None \<Rightarrow> (None, w)
           | Some je \<Rightarrow>
               (case jerr je of
                  Some e \<Rightarrow> (Some (Wrapf ''write %s to job env: %w'' [S k] e), w)
                | None \<Rightarrow>
                    let (res, w) =
                      (if jopen je then sys_write h (jpath je) (env_line k v) w else (Some ECLOSED, w))
                    in (case res of
                          None \<Rightarrow> (None, w)
                        | Some n \<Rightarrow>
                            let e = SysErr n (''write '' @ jpath je) in
                            (Some (if job_env_buffer < length (env_line k v)
                                   then Wrapf ''write %s to job env: %w'' [S k] e
                                   else Wrapf ''flush job env: %w'' [] e),
                             w\<lparr>jenv := Some (je\<lparr>jerr := Some e\<rparr>)\<rparr>)))))"

definition Close :: "host \<Rightarrow> 'q world \<Rightarrow> gerr option \<times> 'q world" where
  "Close h w =
     (case jenv w of
        None \<Rightarrow> (None, w)
      | Some je \<Rightarrow>
          if \<not> jopen je then (None, w)
          else (case sys_close h w of
                  (e, w) \<Rightarrow>
                    ((case jerr je of
                        Some e' \<Rightarrow> Some e'
                      | None \<Rightarrow> map_option (\<lambda>e. SysErr e (''close '' @ jpath je)) e),
                     w\<lparr>jenv := Some (je\<lparr>jopen := False\<rparr>)\<rparr>)))"

definition ApplyRustLog :: "host \<Rightarrow> string \<Rightarrow> 'q world \<Rightarrow> gerr option \<times> 'q world" where
  "ApplyRustLog h level w =
     (case RustLogFromDebug level of
        (rustLevel, ok) \<Rightarrow> if \<not> ok then (None, w) else Set h ''RUST_LOG'' rustLevel w)"

definition PluginErrorKey :: string where
  "PluginErrorKey = ''QRMI_PLUGIN_ERROR''"

definition PrologStatusKey :: string where
  "PrologStatusKey = ''qrmi_prolog_status''"

definition SetPluginError :: "host \<Rightarrow> string \<Rightarrow> 'q world \<Rightarrow> gerr option \<times> 'q world" where
  "SetPluginError h message w =
     (let message = (if message = [] then ''unknown qrmi-ocs-prolog error'' else message);
          (e1, w) = Set h PluginErrorKey message w;
          (e2, w) = Set h PrologStatusKey ''error'' w;
          errs = (case e1 of Some e \<Rightarrow> [e] | None \<Rightarrow> []) @ (case e2 of Some e \<Rightarrow> [e] | None \<Rightarrow> [])
      in (if errs = [] then None else Some (Joined errs), w))"

subsection \<open>Setting a list of variables\<close>

text \<open>The loops of both hooks over key and value pairs, which stop at the first error.\<close>

fun set_pairs :: "host \<Rightarrow> (string \<times> string) list \<Rightarrow> 'q world \<Rightarrow> gerr option \<times> 'q world" where
  "set_pairs h [] w = (None, w)"
| "set_pairs h ((k, v) # kvs) w =
     (case Set h k v w of (Some e, w) \<Rightarrow> (Some e, w) | (None, w) \<Rightarrow> set_pairs h kvs w)"

definition env_text :: "(string \<times> string) list \<Rightarrow> string" where
  "env_text kvs = concat (map (\<lambda>(k, v). env_line k v) kvs)"

lemma env_text_simps [simp]:
  "env_text [] = []" "env_text ((k, v) # kvs) = env_line k v @ env_text kvs"
  "env_text (a @ b) = env_text a @ env_text b"
  by (simp_all add: env_text_def)

subsection \<open>One variable\<close>

text \<open>The open file stays the same and keeps its first error.\<close>

definition env_follows :: "jobenv \<Rightarrow> jobenv \<Rightarrow> bool" where
  "env_follows je je' = (jpath je' = jpath je \<and> jopen je' = jopen je \<and>
     (jerr je \<noteq> None \<longrightarrow> jerr je' = jerr je))"

lemma env_follows_refl [simp]: "env_follows je je"
  by (simp add: env_follows_def)

lemma env_follows_trans: "env_follows a b \<Longrightarrow> env_follows b c \<Longrightarrow> env_follows a c"
  by (auto simp: env_follows_def)

lemma env_follows_path: "env_follows a b \<Longrightarrow> jpath b = jpath a"
  by (simp add: env_follows_def)

lemma Set_frame:
  assumes "Set h k v w = (r, w')" "jenv w = Some je"
  shows "files_at {jpath je} w w' \<and> logs w' = logs w \<and>
    penv w' = (if setenv_ok k v then (penv w)(k \<mapsto> v) else penv w) \<and>
    (\<exists>je'. jenv w' = Some je' \<and> env_follows je je')"
  using assms
  by (auto simp: Set_def setenv_def Let_def sys_write_def count_sys_def put_files_def files_at_def
      env_follows_def split: if_splits option.splits)

lemma Set_ok:
  assumes "Set h k v w = (None, w')" "jenv w = Some je"
  shows "setenv_ok k v \<and> penv w' = (penv w)(k \<mapsto> v) \<and> jenv w' = Some je \<and> jerr je = None \<and> jopen je \<and>
    files w' = append_data (files w) (jpath je) (env_line k v)"
  using assms
  by (auto simp: Set_def setenv_def Let_def sys_write_def count_sys_def put_files_def
      split: if_splits option.splits)

lemma Set_fails:
  assumes "Set h k v w = (Some e, w')" "jenv w = Some je"
  shows "(\<exists>n. files w' = append_data (files w) (jpath je) (take n (env_line k v))) \<or> files w' = files w"
    "setenv_ok k v \<Longrightarrow> \<exists>je' e. jenv w' = Some je' \<and> jerr je' = Some e"
  using assms
  by (auto simp: Set_def setenv_def Let_def sys_write_def count_sys_def put_files_def
      split: if_splits option.splits)

lemma Set_frozen:
  assumes "jenv w = Some je" "jerr je = Some e0"
  shows "\<exists>e w'. Set h k v w = (Some e, w') \<and> jenv w' = jenv w \<and> files w' = files w"
  using assms by (auto simp: Set_def setenv_def)

lemma set_pairs_frozen:
  assumes "jenv w = Some je" "jerr je = Some e0"
  shows "files (snd (set_pairs h kvs w)) = files w \<and> jenv (snd (set_pairs h kvs w)) = jenv w"
proof (cases kvs)
  case (Cons a kvs')
  obtain k v where a: "a = (k, v)" by fastforce
  show ?thesis using Set_frozen [OF assms, of h k v] by (auto simp: Cons a)
qed simp

subsection \<open>The file read back\<close>

text \<open>What the scheduler reads: one variable per line, the last line for a name wins.\<close>

definition env_add :: "(string \<rightharpoonup> string) \<Rightarrow> string \<Rightarrow> (string \<rightharpoonup> string)" where
  "env_add m l = (case cut (CHR ''='') l of (k, v, ok) \<Rightarrow> if ok then m(k \<mapsto> v) else m)"

definition env_of_file :: "string \<Rightarrow> (string \<rightharpoonup> string)" where
  "env_of_file d = foldl env_add Map.empty (raw_lines d)"

definition whole_lines :: "string \<Rightarrow> bool" where
  "whole_lines d = (d = [] \<or> last d = LF)"

definition clean_pair :: "string \<times> string \<Rightarrow> bool" where
  "clean_pair kv = (CHR ''='' \<notin> set (fst kv) \<and> LF \<notin> set (fst kv) \<and> LF \<notin> set (snd kv))"

lemma whole_lines_append: "whole_lines d \<Longrightarrow> whole_lines (d @ env_text kvs)"
  by (cases kvs rule: rev_cases) (auto simp: whole_lines_def env_line_def)

lemma raw_lines_append:
  "whole_lines d \<Longrightarrow> raw_lines (d @ e) = raw_lines d @ raw_lines e"
proof (cases d rule: rev_cases)
  case (snoc xs x)
  assume "whole_lines d"
  with snoc have d: "d = xs @ [LF]" by (simp add: whole_lines_def)
  have "split LF (d @ e) = split LF xs @ split LF e" "split LF d = split LF xs @ [[]]"
    by (simp_all add: d split_append_sep)
  then show ?thesis by (auto simp: raw_lines_def Let_def butlast_append)
qed (simp add: raw_lines_def)

lemma env_of_file_text:
  assumes "whole_lines d" "list_all clean_pair kvs"
  shows "env_of_file (d @ env_text kvs) = env_of_file d ++ map_of (rev kvs)"
proof -
  let ?ls = "map (\<lambda>(k, v). k @ CHR ''='' # v) kvs"
  have t: "env_text kvs = concat (map (\<lambda>l. l @ [LF]) ?ls)"
    unfolding env_text_def by (rule arg_cong [of _ _ concat]) (auto simp: env_line_def)
  have "\<forall>l \<in> set ?ls. LF \<notin> set l" using assms(2)
    by (auto simp: list_all_iff clean_pair_def)
  then have "raw_lines (env_text kvs) = ?ls" unfolding t by (rule raw_lines_terminated)
  then have "env_of_file (d @ env_text kvs) = foldl env_add (env_of_file d) ?ls"
    using assms(1) by (simp add: env_of_file_def raw_lines_append)
  also have "foldl env_add m ?ls = m ++ map_of (rev kvs)" for m
    using assms(2)
  proof (induction kvs arbitrary: m)
    case (Cons a kvs)
    then have "env_add m (fst a @ CHR ''='' # snd a) = m(fst a \<mapsto> snd a)"
      by (simp add: env_add_def clean_pair_def cut_at)
    then show ?case using Cons by (simp add: case_prod_beta map_add_upd_left map_add_def fun_eq_iff split: option.split)
  qed simp
  finally show ?thesis .
qed

lemma set_pairs_ok:
  assumes "set_pairs h kvs w = (None, w')" "jenv w = Some je" "file_data (files w) (jpath je) = Some old"
  shows "penv w' = penv w ++ map_of (rev kvs) \<and> jenv w' = Some je \<and>
    file_data (files w') (jpath je) = Some (old @ env_text kvs)"
  using assms
proof (induction kvs arbitrary: w old)
  case (Cons a kvs)
  obtain k v where a: "a = (k, v)" by fastforce
  from Cons.prems(1) obtain w1 where s: "Set h k v w = (None, w1)" "set_pairs h kvs w1 = (None, w')"
    by (auto simp: a split: prod.splits option.splits)
  note ok = Set_ok [OF s(1) Cons.prems(2)]
  have "file_data (files w1) (jpath je) = Some (old @ env_line k v)"
    using ok append_data_at [OF Cons.prems(3)] by simp
  from Cons.IH [OF s(2) _ this] ok show ?case
    by (auto simp: a map_add_def fun_eq_iff split: option.split)
qed simp

lemma set_pairs_frame:
  assumes "set_pairs h kvs w = (r, w')" "jenv w = Some je"
  shows "files_at {jpath je} w w' \<and> logs w' = logs w \<and>
    (\<forall>k. k \<notin> fst ` set kvs \<longrightarrow> penv w' k = penv w k) \<and>
    (\<exists>je'. jenv w' = Some je' \<and> env_follows je je')"
  using assms
proof (induction kvs arbitrary: w je)
  case (Cons a kvs)
  obtain k v where a: "a = (k, v)" by fastforce
  obtain r1 w1 where s: "Set h k v w = (r1, w1)" by fastforce
  note f = Set_frame [OF s Cons.prems(2)]
  then obtain je1 where e: "jenv w1 = Some je1" "env_follows je je1" by blast
  show ?case
  proof (cases r1)
    case None
    with Cons.prems(1) s have s2: "set_pairs h kvs w1 = (r, w')" by (simp add: a)
    note IH = Cons.IH [OF s2 e(1)]
    have "files_at {jpath je} w w'" using f IH env_follows_path [OF e(2)]
      by (auto intro: files_at_trans_same)
    moreover have "\<exists>je'. jenv w' = Some je' \<and> env_follows je je'"
      using IH e(2) env_follows_trans by blast
    moreover have "logs w' = logs w \<and> (\<forall>x. x \<notin> fst ` set (a # kvs) \<longrightarrow> penv w' x = penv w x)"
      using f IH by (auto simp: a)
    ultimately show ?thesis by blast
  next
    case (Some x)
    with Cons.prems(1) s have "w' = w1" by (simp add: a)
    with f e show ?thesis by (auto simp: a)
  qed
qed simp

subsection \<open>Opening, closing, reporting\<close>

lemma OpenJobEnv_ok:
  assumes "OpenJobEnv h w = (None, w')"
  shows "\<exists>path. ResolveJobEnvPath w = Inr path \<and>
    jenv w' = Some \<lparr>jpath = path, jopen = True, jerr = None\<rparr> \<and>
    files_at {path} w w' \<and> penv w' = penv w \<and> logs w' = logs w \<and>
    file_data (files w') path = Some (case file_data (files w) path of Some d \<Rightarrow> d | None \<Rightarrow> []) \<and>
    mode_at (files w') path = Some 384"
proof -
  obtain path where p: "ResolveJobEnvPath w = Inr path"
    using assms by (cases "ResolveJobEnvPath w") (auto simp: OpenJobEnv_def)
  obtain a w1 where 1: "sys_open_append h path 384 w = (a, w1)" by fastforce
  obtain b w2 where 2: "sys_chmod h path 384 w1 = (b, w2)" by fastforce
  have ab: "a = None" "b = None" "w' = w2\<lparr>jenv := Some \<lparr>jpath = path, jopen = True, jerr = None\<rparr>\<rparr>"
    using assms p 1 2 by (auto simp: OpenJobEnv_def split: option.splits)
  have o: "only_at {path} w w2"
    using sys_only_at(1) [of path w h 384] sys_only_at(3) [of path w1 h 384] 1 2
    by (metis only_at_trans_same snd_conv)
  have d1: "file_data (files w1) path = Some (case file_data (files w) path of Some d \<Rightarrow> d | None \<Rightarrow> [])"
    using 1 ab(1) by (auto simp: sys_open_append_def file_data_def split: if_splits option.splits fkind.splits)
  have d2: "file_data (files w2) path = file_data (files w1) path" "mode_at (files w2) path = Some 384"
    using 2 ab(2) by (auto simp: sys_chmod_def file_data_def mode_at_def split: if_splits option.splits)
  show ?thesis using p ab(3) o d1 d2
    by (auto simp: only_at_files_at dest: only_at_proc simp: same_proc_def)
qed

lemma OpenJobEnv_fails:
  assumes "OpenJobEnv h w = (Some e, w')"
  shows "jenv w' = jenv w \<and> penv w' = penv w \<and> logs w' = logs w \<and>
    (\<exists>P. (\<forall>p \<in> P. ResolveJobEnvPath w = Inr p) \<and> files_at P w w')"
proof (cases "ResolveJobEnvPath w")
  case (Inl x)
  then show ?thesis using assms by (auto simp: OpenJobEnv_def intro!: exI [of _ "{}"])
next
  case (Inr path)
  obtain a w1 where 1: "sys_open_append h path 384 w = (a, w1)" by fastforce
  obtain b w2 where 2: "sys_chmod h path 384 w1 = (b, w2)" by fastforce
  have o: "only_at {path} w w1" "only_at {path} w1 w2"
    "only_at {path} w2 (snd (sys_close h w2))"
    using sys_only_at(1) [of path w h 384] sys_only_at(3) [of path w1 h 384] 1 2
      only_at_mono [OF sys_only_at(4) [of w2 h], of "{path}"] by simp_all
  have "w' = w1 \<or> w' = snd (sys_close h w2)"
    using assms Inr 1 2 by (auto simp: OpenJobEnv_def split: option.splits)
  then have "only_at {path} w w'" using o only_at_trans_same by blast
  then show ?thesis using Inr
    by (auto simp: only_at_files_at dest: only_at_proc simp: same_proc_def intro!: exI [of _ "{path}"])
qed

lemma Close_frame: "files_at {} w (snd (Close h w)) \<and> penv (snd (Close h w)) = penv w \<and>
  logs (snd (Close h w)) = logs w"
proof -
  have "only_at {} w (snd (sys_close h w))" by (rule sys_only_at)
  then show ?thesis
    by (auto simp: Close_def only_at_files_at dest: only_at_proc simp: same_proc_def
        split: option.split prod.split)
qed

lemma setenv_ok_names [simp]:
  "setenv_ok PluginErrorKey v = (NUL \<notin> set v)" "setenv_ok PrologStatusKey v = (NUL \<notin> set v)"
  "setenv_ok ''RUST_LOG'' v = (NUL \<notin> set v)"
  by (simp_all add: setenv_ok_def PluginErrorKey_def PrologStatusKey_def)

lemma SetPluginError_frame:
  assumes "SetPluginError h m w = (r, w')" "jenv w = Some je"
  shows "files_at {jpath je} w w' \<and> logs w' = logs w \<and>
    penv w' PrologStatusKey = Some ''error'' \<and>
    (\<forall>k. k \<noteq> PluginErrorKey \<and> k \<noteq> PrologStatusKey \<longrightarrow> penv w' k = penv w k) \<and>
    (\<exists>je'. jenv w' = Some je' \<and> env_follows je je')"
proof -
  obtain r1 w1 where 1: "Set h PluginErrorKey (if m = [] then ''unknown qrmi-ocs-prolog error'' else m) w = (r1, w1)"
    by fastforce
  obtain r2 w2 where 2: "Set h PrologStatusKey ''error'' w1 = (r2, w2)" by fastforce
  have w': "w' = w2" using assms(1) 1 2 by (simp add: SetPluginError_def Let_def split: option.splits)
  note f1 = Set_frame [OF 1 assms(2)]
  then obtain je1 where j1: "jenv w1 = Some je1" "env_follows je je1" by blast
  note f2 = Set_frame [OF 2 j1(1)]
  have "files_at {jpath je} w w2" using f1 f2 env_follows_path [OF j1(2)]
    by (auto intro: files_at_trans_same)
  moreover have "\<exists>je'. jenv w2 = Some je' \<and> env_follows je je'"
    using f2 j1(2) env_follows_trans by blast
  moreover have "penv w2 PrologStatusKey = Some ''error''"
    using f2 by (simp add: fun_eq_iff)
  moreover have "penv w2 k = penv w k" if "k \<noteq> PluginErrorKey" "k \<noteq> PrologStatusKey" for k
    using f1 f2 that by auto
  ultimately show ?thesis using f1 f2 w' by auto
qed

subsection \<open>Keeping the metadata of a failed release\<close>

text \<open>
  For the path the launcher accepts, \<open>.../active_jobs/<job>.<task>/qrmi_ocs_acquired.tsv\<close>,
  the kept copy is \<open>.../qrmi_failed_releases/<job>.<task>.tsv\<close>.
\<close>

definition kept_path :: "string list \<Rightarrow> string \<Rightarrow> string" where
  "kept_path es job = abs_path (es @ [FailedReleaseDir, job @ ''.tsv''])"

lemma normal_names [simp]:
  "normal_elem FailedReleaseDir" "normal_elem ''environment''" "normal_elem ''usage''"
  "normal_elem ''active_jobs''"
  by (simp_all add: FailedReleaseDir_def normal_elem_def)

lemma normal_tsv: "normal_elem job \<Longrightarrow> normal_elem (job @ ''.tsv'')"
  by (auto simp: normal_elem_def append_eq_Cons_conv)

lemma Preserve_paths:
  assumes "\<forall>e \<in> set es. normal_elem e" "normal_elem job" "normal_elem act" "normal_elem nm"
  defines "path \<equiv> abs_path (es @ [act, job, nm])"
  shows "path_dir (path_dir (path_dir path)) = abs_path es" "path_base (path_dir path) = job"
    "path_join [abs_path es, FailedReleaseDir] = abs_path (es @ [FailedReleaseDir])"
    "path_join [abs_path (es @ [FailedReleaseDir]), job @ ''.tsv''] = kept_path es job"
proof -
  have d: "path_dir path = abs_path (es @ [act, job])"
    using path_dir_abs [of "es @ [act, job]" nm] assms by simp
  moreover have "path_dir (abs_path (es @ [act, job])) = abs_path (es @ [act])"
    using path_dir_abs [of "es @ [act]" job] assms by simp
  ultimately show "path_dir (path_dir (path_dir path)) = abs_path es"
    using path_dir_abs [of es act] assms by simp
  show "path_base (path_dir path) = job" using path_base_abs [of job "es @ [act]"] assms d by simp
  show "path_join [abs_path es, FailedReleaseDir] = abs_path (es @ [FailedReleaseDir])"
    using assms by (intro path_join_abs) simp_all
  show "path_join [abs_path (es @ [FailedReleaseDir]), job @ ''.tsv''] = kept_path es job"
    using path_join_abs [of "es @ [FailedReleaseDir]" "job @ ''.tsv''"] assms normal_tsv
    by (simp add: kept_path_def)
qed

text \<open>What one call that changes files at a single place has done.\<close>

lemma sys_mkdir_cases:
  assumes "sys_mkdir h p m w = (e, w')"
  shows "same_proc w w' \<and> (hist w' = hist w \<and> files w' = files w \<and> e \<noteq> None \<or>
    e = None \<and> files w p = None \<and> (\<exists>n. files w' = (files w)(p \<mapsto> n)) \<and> hist w' = files w' # hist w)"
  using assms sys_same_proc(10) [of w h p m]
  by (auto simp: sys_mkdir_def count_sys_def put_files_def split: if_splits)

lemma sys_link_cases:
  assumes "sys_link h p q w = (e, w')"
  shows "same_proc w w' \<and> (hist w' = hist w \<and> files w' = files w \<and> e \<noteq> None \<or>
    e = None \<and> files w q = None \<and> files w p \<noteq> None \<and> files w' = (files w)(q := files w p) \<and>
    hist w' = files w' # hist w)"
  using assms sys_same_proc(9) [of w h p q]
  by (auto simp: sys_link_def count_sys_def put_files_def split: if_splits)

lemma sys_remove_cases:
  assumes "sys_remove h p w = (e, w')"
  shows "same_proc w w' \<and> (hist w' = hist w \<and> files w' = files w \<and> e \<noteq> None \<or>
    e = None \<and> files w p \<noteq> None \<and> files w' = (files w)(p := None) \<and> hist w' = files w' # hist w)"
  using assms sys_same_proc(7) [of w h p]
  by (auto simp: sys_remove_def count_sys_def put_files_def split: if_splits)

lemma Preserve_run:
  assumes run: "PreserveFailedRelease h path w = ((kept, e), w')"
    and d: "path_join [path_dir (path_dir (path_dir path)), FailedReleaseDir] = d"
    and k: "path_join [d, path_base (path_dir path) @ ''.tsv''] = k"
    and ne: "d \<noteq> k" "path \<noteq> d" "path \<noteq> k"
  shows "same_proc w w' \<and>
    (\<exists>fs. hist w' = fs @ hist w \<and> (\<forall>f \<in> set (files w' # fs).
       (f path = files w path \<or> f k = files w path) \<and> (\<forall>q. q \<notin> {path, d, k} \<longrightarrow> f q = files w q) \<and>
       (files w k \<noteq> None \<longrightarrow> f k = files w k) \<and> (files w d \<noteq> None \<longrightarrow> f d = files w d))) \<and>
    (e = None \<longrightarrow> kept = k \<and> files w path \<noteq> None \<and> files w k = None \<and>
       files w' k = files w path \<and> files w' path = None) \<and>
    (e \<noteq> None \<longrightarrow> files w' path = files w path)"
proof -
  obtain e1 w1 where 1: "sys_mkdir h d 448 w = (e1, w1)" by fastforce
  note c1 = sys_mkdir_cases [OF 1]
  show ?thesis
  proof (cases "e1 \<noteq> None \<and> e1 \<noteq> Some EEXIST")
    case True
    with run 1 have "e \<noteq> None \<and> w' = w1" by (auto simp: PreserveFailedRelease_def d Let_def)
    with c1 True show ?thesis by (auto intro!: exI [of _ "[]"])
  next
    case ok: False
    obtain e2 w2 where 2: "sys_link h path k w1 = (e2, w2)" by fastforce
    note c2 = sys_link_cases [OF 2]
    obtain e3 w3 where 3: "sys_remove h path w2 = (e3, w3)" by fastforce
    note c3 = sys_remove_cases [OF 3]
    have kk: "path_join [d, path_base (path_dir path) @ ''.tsv''] = k" by (rule k)
    obtain gs where gs: "hist w1 = gs @ hist w"
      "\<forall>f \<in> set (files w1 # gs). (\<forall>q. q \<noteq> d \<longrightarrow> f q = files w q) \<and> (files w d \<noteq> None \<longrightarrow> f d = files w d)"
    proof (cases "e1 = None")
      case True
      with c1 that [of "[files w1]"] show thesis by auto
    next
      case False
      with c1 that [of "[]"] show thesis by auto
    qed
    show ?thesis
    proof (cases e2)
      case (Some x)
      then have "e \<noteq> None \<and> w' = w2" using run ok 1 2
        by (auto simp: PreserveFailedRelease_def d kk Let_def)
      with c1 c2 Some gs ne same_proc_trans [of w w1 w2] show ?thesis
        by (auto intro!: exI [of _ gs])
    next
      case None
      then have r: "w' = w3" "kept = k" "e = None \<longleftrightarrow> e3 = None" using run ok 1 2 3
        by (auto simp: PreserveFailedRelease_def d kk Let_def)
      have f2: "files w2 = (files w1)(k := files w1 path)" "hist w2 = files w2 # gs @ hist w"
        "files w1 k = None" using c2 None gs(1) by auto
      have same: "same_proc w w3" using c1 c2 c3 same_proc_trans by blast
      have w1: "files w1 path = files w path" "files w1 k = files w k" using gs(2) ne by auto
      show ?thesis
      proof (cases "e3 = None")
        case True
        with c3 f2 gs ne r same w1 c2 None show ?thesis
          by (auto intro!: exI [of _ "files w3 # files w2 # gs"])
      next
        case False
        with c3 f2 gs ne r same w1 show ?thesis
          by (auto intro!: exI [of _ "files w2 # gs"])
      qed
    qed
  qed
qed

subsection \<open>What the job environment promises\<close>

definition sample_env_world :: "unit world" where
  "sample_env_world = (fresh_world [''SGE_JOB_SPOOL_DIR'' \<mapsto> ''/s'']
     [''/s'' \<mapsto> \<lparr>fkind = Dir, fmode = 448\<rparr>,
      ''/s/environment'' \<mapsto> \<lparr>fkind = Reg (''A=1'' @ [LF]), fmode = 420\<rparr>] ())
     \<lparr>jenv := Some \<lparr>jpath = ''/s/environment'', jopen = True, jerr = None\<rparr>\<rparr>"

definition faulty_host :: "nat \<Rightarrow> host" where
  "faulty_host n = quiet_host\<lparr>faults := (\<lambda>i. if i = n then Some 3 else None)\<rparr>"

lemma sample_env_simps:
  "jenv sample_env_world = Some \<lparr>jpath = ''/s/environment'', jopen = True, jerr = None\<rparr>"
  "file_data (files sample_env_world) ''/s/environment'' = Some (''A=1'' @ [LF])"
  by code_simp+

text \<open>
  C30. The lock-step contract of \<open>JobEnv.Set\<close>: after a list of variables has been set without
  an error, the job environment file read back gives every one of them the value it has in the
  process, all other variables are as before in the file and in the process, and the file
  still ends at a line end. The names must have no equals sign and names and values no line
  feed.
\<close>

theorem set_pairs_lockstep:
  assumes "set_pairs h kvs w = (None, w')" "jenv w = Some je"
    and "file_data (files w) (jpath je) = Some old" "whole_lines old" "list_all clean_pair kvs"
  shows "\<exists>new. file_data (files w') (jpath je) = Some new \<and> whole_lines new \<and>
    (\<forall>k \<in> fst ` set kvs. env_of_file new k = penv w' k \<and> penv w' k \<noteq> None) \<and>
    (\<forall>k. k \<notin> fst ` set kvs \<longrightarrow> env_of_file new k = env_of_file old k \<and> penv w' k = penv w k)"
proof -
  let ?new = "old @ env_text kvs"
  note ok = set_pairs_ok [OF assms(1-3)]
  note f = env_of_file_text [OF assms(4,5)]
  have pe: "penv w' = penv w ++ map_of (rev kvs)" using ok by blast
  have "env_of_file ?new k = penv w' k \<and> penv w' k \<noteq> None" if "k \<in> fst ` set kvs" for k
  proof -
    have "map_of (rev kvs) k \<noteq> None" using that by (simp add: map_of_eq_None_iff)
    then obtain y where "map_of (rev kvs) k = Some y" by blast
    then show ?thesis by (simp add: f pe map_add_def)
  qed
  moreover have "env_of_file ?new k = env_of_file old k \<and> penv w' k = penv w k"
    if "k \<notin> fst ` set kvs" for k
    using that by (simp add: f pe map_add_dom_app_simps(3) dom_map_of_conv_image_fst)
  ultimately have "(\<forall>k \<in> fst ` set kvs. env_of_file ?new k = penv w' k \<and> penv w' k \<noteq> None) \<and>
    (\<forall>k. k \<notin> fst ` set kvs \<longrightarrow> env_of_file ?new k = env_of_file old k \<and> penv w' k = penv w k)"
    by blast
  then show ?thesis using ok whole_lines_append [OF assms(4)] by blast
qed

theorem set_pairs_lockstep_witness:
  "fst (set_pairs quiet_host [(''B'', ''2''), (''C'', ''3'')] sample_env_world) = None \<and>
   (\<exists>new. file_data (files (snd (set_pairs quiet_host [(''B'', ''2''), (''C'', ''3'')] sample_env_world)))
      ''/s/environment'' = Some new \<and> env_of_file new ''A'' = Some ''1'')"
proof -
  let ?kvs = "[(''B'', ''2''), (''C'', ''3'')]"
  obtain r w' where run: "set_pairs quiet_host ?kvs sample_env_world = (r, w')" by fastforce
  have "fst (set_pairs quiet_host ?kvs sample_env_world) = None" by code_simp
  then have r: "r = None" using run by simp
  have p: "whole_lines (''A=1'' @ [LF])" "list_all clean_pair ?kvs" by code_simp+
  have a: "env_of_file (''A=1'' @ [LF]) ''A'' = Some ''1''" by code_simp
  have "\<exists>new. file_data (files w') ''/s/environment'' = Some new \<and> env_of_file new ''A'' = Some ''1''"
    using set_pairs_lockstep [OF run [unfolded r] sample_env_simps(1), of "''A=1'' @ [LF]"] p a
      sample_env_simps(2) by fastforce
  then show ?thesis using run r by simp
qed

text \<open>
  The error of a write is final. When setting a variable fails in the file, no later call
  changes the file any more, so the plugin error and the failed status that the prolog
  reports after such a failure never reach it; the report itself fails.
\<close>

theorem Set_error_freezes:
  assumes "jenv w = Some je" "setenv_ok k v" "Set h k v w = (Some e, w1)"
  shows "files (snd (set_pairs h kvs w1)) = files w1 \<and>
    files (snd (SetPluginError h m w1)) = files w1 \<and> fst (SetPluginError h m w1) \<noteq> None"
proof -
  obtain je1 e1 where j: "jenv w1 = Some je1" "jerr je1 = Some e1"
    using Set_fails(2) [OF assms(3,1,2)] by blast
  let ?m = "if m = [] then ''unknown qrmi-ocs-prolog error'' else m"
  obtain x w2 where 2: "Set h PluginErrorKey ?m w1 = (Some x, w2)" "jenv w2 = jenv w1" "files w2 = files w1"
    using Set_frozen [OF j] by blast
  obtain y w3 where 3: "Set h PrologStatusKey ''error'' w2 = (Some y, w3)" "files w3 = files w2"
    using Set_frozen [of w2 je1 e1] j 2(2) by metis
  show ?thesis using set_pairs_frozen [OF j] 2 3 by (simp add: SetPluginError_def Let_def)
qed

theorem Set_error_freezes_witness:
  "fst (Set (faulty_host 0) ''B'' ''2'' sample_env_world) \<noteq> None \<and>
   file_data (files (snd (SetPluginError (faulty_host 0) ''lost''
     (snd (Set (faulty_host 0) ''B'' ''2'' sample_env_world))))) ''/s/environment'' =
   Some (''A=1'' @ LF # ''B=2'')"
proof -
  obtain r w1 where run: "Set (faulty_host 0) ''B'' ''2'' sample_env_world = (r, w1)" by fastforce
  have "fst (Set (faulty_host 0) ''B'' ''2'' sample_env_world) \<noteq> None"
    "file_data (files (snd (Set (faulty_host 0) ''B'' ''2'' sample_env_world))) ''/s/environment'' =
       Some (''A=1'' @ LF # ''B=2'')" "setenv_ok ''B'' ''2''"
    by code_simp+
  then obtain e where e: "r = Some e" "file_data (files w1) ''/s/environment'' = Some (''A=1'' @ LF # ''B=2'')"
    "setenv_ok ''B'' ''2''"
    using run by auto
  from Set_error_freezes [OF sample_env_simps(1) e(3) run [unfolded e(1)], of "[]" "''lost''"] e run
  show ?thesis by simp
qed

text \<open>
  Why the values must have no line feed: \<open>Set\<close> accepts one, and the rest of the value then
  is a line of its own, which defines another variable for the job that the process does not
  have.
\<close>

theorem Set_newline_injects:
  assumes "jenv w = Some je" "file_data (files w) (jpath je) = Some old" "whole_lines old"
    and "Set h k (v @ LF # k2 @ CHR ''='' # v2) w = (None, w')"
    and "clean_pair (k, v)" "clean_pair (k2, v2)" "k2 \<noteq> k"
  shows "\<exists>new. file_data (files w') (jpath je) = Some new \<and> env_of_file new k2 = Some v2 \<and>
    penv w' k2 = penv w k2"
proof -
  note ok = Set_ok [OF assms(4,1)]
  have "env_line k (v @ LF # k2 @ CHR ''='' # v2) = env_text [(k, v), (k2, v2)]"
    by (simp add: env_line_def)
  then have "file_data (files w') (jpath je) = Some (old @ env_text [(k, v), (k2, v2)])"
    using ok append_data_at [OF assms(2)] by simp
  moreover have "env_of_file (old @ env_text [(k, v), (k2, v2)]) k2 = Some v2"
    using env_of_file_text [OF assms(3), of "[(k, v), (k2, v2)]"] assms(5,6) by simp
  moreover have "penv w' k2 = penv w k2" using ok assms(7) by simp
  ultimately show ?thesis by blast
qed

theorem Set_newline_injects_witness:
  "fst (Set quiet_host ''B'' (''2'' @ LF # ''C=3'') sample_env_world) = None \<and>
   (\<exists>new. file_data (files (snd (Set quiet_host ''B'' (''2'' @ LF # ''C=3'') sample_env_world)))
      ''/s/environment'' = Some new \<and> env_of_file new ''C'' = Some ''3'')"
proof -
  obtain r w' where run: "Set quiet_host ''B'' (''2'' @ LF # ''C'' @ CHR ''='' # ''3'') sample_env_world = (r, w')"
    by fastforce
  have "fst (Set quiet_host ''B'' (''2'' @ LF # ''C'' @ CHR ''='' # ''3'') sample_env_world) = None" by code_simp
  then have r: "r = None" using run by simp
  have p: "whole_lines (''A=1'' @ [LF])" "clean_pair (''B'', ''2'')" "clean_pair (''C'', ''3'')" by code_simp+
  have "\<exists>new. file_data (files w') ''/s/environment'' = Some new \<and> env_of_file new ''C'' = Some ''3''"
    using Set_newline_injects [OF sample_env_simps(1) _ p(1) run [unfolded r] p(2,3)]
      sample_env_simps(2) by fastforce
  then show ?thesis using run r by simp
qed

text \<open>
  Opening the job environment succeeds only in a spool directory that is set, keeps what
  the file had (an absent file starts empty), leaves it readable for the owner only whatever
  the umask, and touches no other file.
\<close>

theorem OpenJobEnv_keeps:
  assumes "OpenJobEnv h w = (None, w')"
  shows "getenv w ''SGE_JOB_SPOOL_DIR'' \<noteq> [] \<and>
    (let path = path_join [getenv w ''SGE_JOB_SPOOL_DIR'', ''environment''] in
     Path w' = path \<and> mode_at (files w') path = Some 384 \<and>
     file_data (files w') path = Some (case file_data (files w) path of Some d \<Rightarrow> d | None \<Rightarrow> []) \<and>
     (\<forall>q. q \<noteq> path \<longrightarrow> files w' q = files w q))"
  using OpenJobEnv_ok [OF assms]
  by (auto simp: ResolveJobEnvPath_def Let_def Path_def files_at_files split: if_splits)

theorem OpenJobEnv_keeps_witness:
  "fst (OpenJobEnv quiet_host sample_env_world) = None \<and>
   mode_at (files (snd (OpenJobEnv quiet_host sample_env_world))) ''/s/environment'' = Some 384"
proof -
  obtain r w' where run: "OpenJobEnv quiet_host sample_env_world = (r, w')" by fastforce
  have "fst (OpenJobEnv quiet_host sample_env_world) = None" by code_simp
  then have r: "r = None" using run by simp
  have "path_join [getenv sample_env_world ''SGE_JOB_SPOOL_DIR'', ''environment''] = ''/s/environment''"
    by code_simp
  with OpenJobEnv_keeps [OF run [unfolded r]] run r show ?thesis by (simp add: Let_def)
qed

text \<open>
  C29. The metadata of a failed release is never lost, whatever call fails: in every state the
  file system goes through, the metadata is still in the job's spool or already under
  \<open>qrmi_failed_releases/<job>.<task>.tsv\<close>; a record kept before is not replaced; success means
  it is there and only there; and no other file changes.
\<close>

theorem PreserveFailedRelease_safe:
  assumes "\<forall>e \<in> set es. normal_elem e" "normal_elem job"
    and "path = abs_path (es @ [''active_jobs'', job, MetadataFilename])"
    and "PreserveFailedRelease h path w = ((kept, e), w')"
  shows "(\<exists>fs. hist w' = fs @ hist w \<and> (\<forall>f \<in> set (files w' # fs).
      (f path = files w path \<or> f (kept_path es job) = files w path) \<and>
      (files w (kept_path es job) \<noteq> None \<longrightarrow> f (kept_path es job) = files w (kept_path es job)) \<and>
      (\<forall>q. q \<notin> {path, abs_path (es @ [FailedReleaseDir]), kept_path es job} \<longrightarrow> f q = files w q))) \<and>
    (if e = None then kept = kept_path es job \<and> files w kept = None \<and>
         files w' kept = files w path \<and> files w' path = None
     else files w' path = files w path)"
proof -
  note p = Preserve_paths [OF assms(1,2) normal_names(4) normal_MetadataFilename, folded assms(3)]
  have n: "\<forall>x \<in> set (es @ [''active_jobs'', job, MetadataFilename]). normal_elem x"
    "\<forall>x \<in> set (es @ [FailedReleaseDir]). normal_elem x"
    "\<forall>x \<in> set (es @ [FailedReleaseDir, job @ ''.tsv'']). normal_elem x"
    using assms(1,2) normal_tsv by auto
  have "abs_path (es @ [FailedReleaseDir]) \<noteq> kept_path es job"
    using abs_path_inject [OF n(2,3)] unfolding kept_path_def by auto
  moreover have "path \<noteq> abs_path (es @ [FailedReleaseDir])"
    using abs_path_inject [OF n(1,2)] unfolding assms(3) by auto
  moreover have "path \<noteq> kept_path es job"
    using abs_path_inject [OF n(1,3)] unfolding assms(3) kept_path_def by auto
  ultimately have ne: "abs_path (es @ [FailedReleaseDir]) \<noteq> kept_path es job"
    "path \<noteq> abs_path (es @ [FailedReleaseDir])" "path \<noteq> kept_path es job" by simp_all
  from Preserve_run [OF assms(4) _ _ ne] p
  have "(\<exists>fs. hist w' = fs @ hist w \<and> (\<forall>f \<in> set (files w' # fs).
      (f path = files w path \<or> f (kept_path es job) = files w path) \<and>
      (files w (kept_path es job) \<noteq> None \<longrightarrow> f (kept_path es job) = files w (kept_path es job)) \<and>
      (\<forall>q. q \<notin> {path, abs_path (es @ [FailedReleaseDir]), kept_path es job} \<longrightarrow> f q = files w q)))"
    "(e = None \<longrightarrow> kept = kept_path es job \<and> files w path \<noteq> None \<and> files w (kept_path es job) = None \<and>
       files w' (kept_path es job) = files w path \<and> files w' path = None)"
    "e \<noteq> None \<longrightarrow> files w' path = files w path" by auto
  then show ?thesis by auto
qed

definition sample_spool_path :: string where
  "sample_spool_path = ''/n/active_jobs/5.1/qrmi_ocs_acquired.tsv''"

definition sample_spool_world :: "unit world" where
  "sample_spool_world = fresh_world Map.empty
     [''/n'' \<mapsto> \<lparr>fkind = Dir, fmode = 448\<rparr>,
      sample_spool_path \<mapsto> \<lparr>fkind = Reg (record_line sample_record), fmode = 384\<rparr>] ()"

theorem PreserveFailedRelease_safe_witness:
  "fst (PreserveFailedRelease quiet_host sample_spool_path sample_spool_world) =
     (''/n/qrmi_failed_releases/5.1.tsv'', None) \<and>
   file_data (files (snd (PreserveFailedRelease quiet_host sample_spool_path sample_spool_world)))
     ''/n/qrmi_failed_releases/5.1.tsv'' = Some (record_line sample_record)"
proof -
  obtain k e w' where run:
    "PreserveFailedRelease quiet_host sample_spool_path sample_spool_world = ((k, e), w')"
    by (metis prod.exhaust)
  have "fst (PreserveFailedRelease quiet_host sample_spool_path sample_spool_world) =
      (''/n/qrmi_failed_releases/5.1.tsv'', None)" by code_simp
  then have ke: "k = ''/n/qrmi_failed_releases/5.1.tsv''" "e = None" using run by auto
  have n: "\<forall>e \<in> set [''n'']. normal_elem e" "normal_elem ''5.1''" by (simp_all add: normal_elem_def)
  have p: "sample_spool_path = abs_path ([''n''] @ [''active_jobs'', ''5.1'', MetadataFilename])"
    by code_simp
  have "files w' k = files sample_spool_world sample_spool_path"
    using PreserveFailedRelease_safe [OF n p run, THEN conjunct2] ke(2) by (auto split: if_splits)
  then have "file_data (files w') k = file_data (files sample_spool_world) sample_spool_path"
    by (simp add: file_data_def)
  moreover have "file_data (files sample_spool_world) sample_spool_path = Some (record_line sample_record)"
    by code_simp
  ultimately show ?thesis using run ke by simp
qed

end
