(* ===== verification/Qrmi.thy ===== *)
theory Qrmi
  imports Job_Env
begin

text \<open>
  \<open>src/internal/qrmi\<close>: the Go wrapper of libqrmi (\<open>qrmi_real.go\<close>, built with the tag \<open>qrmi\<close>) and
  its stub (\<open>qrmi_stub.go\<close>). The C library is not under src/, so it is a parameter: a record of
  its functions on an opaque state, which may also read the process environment. A C pointer is
  a number; a NULL result is \<open>None\<close>. The wrapper keeps a handle as \<open>nat option\<close>, \<open>None\<close> once it is
  closed. Every call that obtains or gives back something is recorded in the ghost field \<open>qlog\<close>.
  The memory of C strings (\<open>qrmi_string_free\<close>, \<open>C.free\<close>) is in \<open>Cgo_Memory\<close> and \<open>Cgo_Binding\<close>.
\<close>

type_synonym env = "string \<rightharpoonup> string"

record 'q capi =
  c_config_load :: "env \<Rightarrow> string \<Rightarrow> 'q \<Rightarrow> nat option \<times> 'q"
  c_config_free :: "nat \<Rightarrow> 'q \<Rightarrow> 'q"
  c_def_get :: "nat \<Rightarrow> string \<Rightarrow> 'q \<Rightarrow> nat option \<times> 'q"
  c_def_free :: "nat \<Rightarrow> 'q \<Rightarrow> 'q"
  c_def_type :: "nat \<Rightarrow> 'q \<Rightarrow> u32"
  c_def_envs :: "nat \<Rightarrow> 'q \<Rightarrow> (string option \<times> string option) list option"
  c_type_to_str :: "u32 \<Rightarrow> 'q \<Rightarrow> string option"
  c_resource_new :: "env \<Rightarrow> string \<Rightarrow> u32 \<Rightarrow> 'q \<Rightarrow> nat option \<times> 'q"
  c_resource_free :: "nat \<Rightarrow> 'q \<Rightarrow> 'q"
  c_is_accessible :: "env \<Rightarrow> nat \<Rightarrow> 'q \<Rightarrow> (bool \<times> bool) \<times> 'q"
  c_acquire :: "env \<Rightarrow> nat \<Rightarrow> 'q \<Rightarrow> (bool \<times> string option) \<times> 'q"
  c_release :: "env \<Rightarrow> nat \<Rightarrow> string \<Rightarrow> 'q \<Rightarrow> bool \<times> 'q"
  c_last_error :: "'q \<Rightarrow> string option"
  c_logged :: "'q \<Rightarrow> 'q \<Rightarrow> (string option \<times> string option \<times> string option) list"

text \<open>The two builds of the package.\<close>

datatype 'q build = Stub | Real "'q capi"

record EnvVar =
  Key :: string
  Value :: string

subsection \<open>The stub build\<close>

text \<open>\<open>qrmi_stub.go\<close>, whose objects are empty: every function is an error or does nothing.\<close>

definition Stub_LoadConfig :: "string \<Rightarrow> 'q world \<Rightarrow> (gerr + nat option) \<times> 'q world" where
  [simp]: "Stub_LoadConfig path w = (Inl ErrNotAvailable, w)"

definition Stub_Config_Close :: "'q world \<Rightarrow> 'q world" where
  [simp]: "Stub_Config_Close w = w"

definition Stub_Config_ResourceDef :: "string \<Rightarrow> 'q world \<Rightarrow> (gerr + nat option) \<times> 'q world" where
  [simp]: "Stub_Config_ResourceDef name w = (Inl ErrNotAvailable, w)"

definition Stub_Def_Close :: "'q world \<Rightarrow> 'q world" where
  [simp]: "Stub_Def_Close w = w"

definition Stub_Def_Type :: i64 where
  [simp]: "Stub_Def_Type = 0"

definition Stub_Def_TypeString :: string where
  [simp]: "Stub_Def_TypeString = []"

definition Stub_Def_Environments :: "EnvVar list" where
  [simp]: "Stub_Def_Environments = []"

definition Stub_NewResource :: "string \<Rightarrow> i64 \<Rightarrow> 'q world \<Rightarrow> (gerr + nat option) \<times> 'q world" where
  [simp]: "Stub_NewResource name typ w = (Inl ErrNotAvailable, w)"

definition Stub_Resource_Close :: "'q world \<Rightarrow> 'q world" where
  [simp]: "Stub_Resource_Close w = w"

definition Stub_IsAccessible :: "'q world \<Rightarrow> (gerr + bool) \<times> 'q world" where
  [simp]: "Stub_IsAccessible w = (Inl ErrNotAvailable, w)"

definition Stub_Acquire :: "'q world \<Rightarrow> (gerr + string) \<times> 'q world" where
  [simp]: "Stub_Acquire w = (Inl ErrNotAvailable, w)"

definition Stub_Release :: "string \<Rightarrow> 'q world \<Rightarrow> gerr option \<times> 'q world" where
  [simp]: "Stub_Release token w = (Some ErrNotAvailable, w)"

definition Stub_SetLogCallback :: "'q world \<Rightarrow> 'q world" where
  [simp]: "Stub_SetLogCallback w = w"

subsection \<open>Strings and the log callback\<close>

text \<open>A C string ends at its first zero byte, whichever side it comes from.\<close>

definition c_string :: "string \<Rightarrow> string" where
  "c_string s = takeWhile (\<lambda>c. c \<noteq> NUL) s"

definition goStringOrEmpty :: "string option \<Rightarrow> string" where
  "goStringOrEmpty c = (case c of None \<Rightarrow> [] | Some s \<Rightarrow> c_string s)"

definition SetLogCallback :: "'q build \<Rightarrow> string \<Rightarrow> 'q world \<Rightarrow> 'q world" where
  "SetLogCallback b component w = (case b of Stub \<Rightarrow> Stub_SetLogCallback w | Real api \<Rightarrow> w\<lparr>logcb := Some component\<rparr>)"

definition qrmiGoLogCallback ::
  "string option \<times> string option \<times> string option \<Rightarrow> 'q world \<Rightarrow> 'q world" where
  "qrmiGoLogCallback r w =
     (case logcb w of
        None \<Rightarrow> w
      | Some fn \<Rightarrow> (case r of (level, target, message) \<Rightarrow>
          QRMILog fn (goStringOrEmpty level) (goStringOrEmpty target) (goStringOrEmpty message) w))"

text \<open>A call into the library: its new state and the log records it made on the way.\<close>

definition in_lib :: "'q capi \<Rightarrow> 'q \<Rightarrow> 'q world \<Rightarrow> 'q world" where
  "in_lib api q w =
     (let rs = c_logged api (lib w) q in foldl (\<lambda>w r. qrmiGoLogCallback r w) (w\<lparr>lib := q\<rparr>) rs)"

definition event :: "qevent \<Rightarrow> 'q world \<Rightarrow> 'q world" where
  "event e w = w\<lparr>qlog := qlog w @ [e]\<rparr>"

definition lastError :: "'q capi \<Rightarrow> 'q world \<Rightarrow> string" where
  "lastError api w = (case c_last_error api (lib w) of
     None \<Rightarrow> ''(no error message)'' | Some s \<Rightarrow> c_string s)"

subsection \<open>Config and ResourceDef\<close>

definition LoadConfig :: "'q build \<Rightarrow> string \<Rightarrow> 'q world \<Rightarrow> (gerr + nat option) \<times> 'q world" where
  "LoadConfig b path w =
     (case b of
        Stub \<Rightarrow> Stub_LoadConfig path w
      | Real api \<Rightarrow>
          (case c_config_load api (penv w) (c_string path) (lib w) of
             (cfg, q) \<Rightarrow> let w = in_lib api q w in
               (case cfg of
                  None \<Rightarrow> (Inl (Errorf ''qrmi_config_load(%s): %s'' [S path, S (lastError api w)]), w)
                | Some c \<Rightarrow> (Inr (Some c), event (QConfigLoad c) w))))"

definition Config_Close :: "'q build \<Rightarrow> nat option \<Rightarrow> 'q world \<Rightarrow> 'q world" where
  "Config_Close b c w =
     (case b of Stub \<Rightarrow> Stub_Config_Close w | Real api \<Rightarrow>
        (case c of None \<Rightarrow> w
         | Some c \<Rightarrow> event (QConfigFree c) (in_lib api (c_config_free api c (lib w)) w)))"

definition Config_ResourceDef ::
  "'q build \<Rightarrow> nat option \<Rightarrow> string \<Rightarrow> 'q world \<Rightarrow> (gerr + nat option) \<times> 'q world" where
  "Config_ResourceDef b c name w =
     (case b of
        Stub \<Rightarrow> Stub_Config_ResourceDef name w
      | Real api \<Rightarrow>
          (case c of
             None \<Rightarrow> (Inl (Errorf ''qrmi: config is closed'' []), w)
           | Some c \<Rightarrow>
               (case c_def_get api c (c_string name) (lib w) of
                  (d, q) \<Rightarrow> let w = in_lib api q w in
                    (case d of
                       None \<Rightarrow> (Inl (Errorf ''qrmi_config_resource_def_get(%s): %s''
                                 [S name, S (lastError api w)]), w)
                     | Some d \<Rightarrow> (Inr (Some d), event (QDefGet d) w)))))"

definition Def_Close :: "'q build \<Rightarrow> nat option \<Rightarrow> 'q world \<Rightarrow> 'q world" where
  "Def_Close b d w =
     (case b of Stub \<Rightarrow> Stub_Def_Close w | Real api \<Rightarrow>
        (case d of None \<Rightarrow> w
         | Some d \<Rightarrow> event (QDefFree d) (in_lib api (c_def_free api d (lib w)) w)))"

text \<open>\<open>int(d.c._type)\<close>: a C enumeration widened without a sign.\<close>

definition Def_Type :: "'q build \<Rightarrow> nat option \<Rightarrow> 'q world \<Rightarrow> i64" where
  "Def_Type b d w =
     (case b of Stub \<Rightarrow> Stub_Def_Type | Real api \<Rightarrow>
        (case d of None \<Rightarrow> 0 | Some d \<Rightarrow> ucast (c_def_type api d (lib w))))"

definition Def_TypeString :: "'q build \<Rightarrow> nat option \<Rightarrow> 'q world \<Rightarrow> string" where
  "Def_TypeString b d w =
     (case b of Stub \<Rightarrow> Stub_Def_TypeString | Real api \<Rightarrow>
        (case d of None \<Rightarrow> []
         | Some d \<Rightarrow> goStringOrEmpty (c_type_to_str api (c_def_type api d (lib w)) (lib w))))"

definition Def_Environments :: "'q build \<Rightarrow> nat option \<Rightarrow> 'q world \<Rightarrow> EnvVar list" where
  "Def_Environments b d w =
     (case b of Stub \<Rightarrow> Stub_Def_Environments | Real api \<Rightarrow>
        (case d of None \<Rightarrow> []
         | Some d \<Rightarrow>
             (case c_def_envs api d (lib w) of
                None \<Rightarrow> []
              | Some kvs \<Rightarrow>
                  filter (\<lambda>e. Key e \<noteq> [])
                    (map (\<lambda>(k, v). \<lparr>Key = goStringOrEmpty k, Value = goStringOrEmpty v\<rparr>) kvs))))"

subsection \<open>Resource\<close>

definition NewResource ::
  "'q build \<Rightarrow> string \<Rightarrow> i64 \<Rightarrow> 'q world \<Rightarrow> (gerr + nat option) \<times> 'q world" where
  "NewResource b name typ w =
     (case b of
        Stub \<Rightarrow> Stub_NewResource name typ w
      | Real api \<Rightarrow>
          (case c_resource_new api (penv w) (c_string name) (ucast typ) (lib w) of
             (r, q) \<Rightarrow> let w = in_lib api q w in
               (case r of
                  None \<Rightarrow> (Inl (Errorf ''qrmi_resource_new(%s): %s'' [S name, S (lastError api w)]), w)
                | Some r \<Rightarrow> (Inr (Some r), event (QResourceNew r (c_string name) (ucast typ)) w))))"

definition Resource_Close :: "'q build \<Rightarrow> nat option \<Rightarrow> 'q world \<Rightarrow> 'q world" where
  "Resource_Close b r w =
     (case b of Stub \<Rightarrow> Stub_Resource_Close w | Real api \<Rightarrow>
        (case r of None \<Rightarrow> w
         | Some r \<Rightarrow> event (QResourceFree r) (in_lib api (c_resource_free api r (lib w)) w)))"

definition resource_closed :: gerr where
  "resource_closed = Errorf ''qrmi: resource is closed'' []"

definition IsAccessible :: "'q build \<Rightarrow> nat option \<Rightarrow> 'q world \<Rightarrow> (gerr + bool) \<times> 'q world" where
  "IsAccessible b r w =
     (case b of
        Stub \<Rightarrow> Stub_IsAccessible w
      | Real api \<Rightarrow>
          (case r of
             None \<Rightarrow> (Inl resource_closed, w)
           | Some r \<Rightarrow>
               (case c_is_accessible api (penv w) r (lib w) of
                  ((success, out), q) \<Rightarrow> let w = in_lib api q w in
                    if \<not> success
                    then (Inl (Errorf ''qrmi_resource_is_accessible: %s'' [S (lastError api w)]), w)
                    else (Inr out, event (QAccessible r out) w))))"

definition Acquire :: "'q build \<Rightarrow> nat option \<Rightarrow> 'q world \<Rightarrow> (gerr + string) \<times> 'q world" where
  "Acquire b r w =
     (case b of
        Stub \<Rightarrow> Stub_Acquire w
      | Real api \<Rightarrow>
          (case r of
             None \<Rightarrow> (Inl resource_closed, w)
           | Some r \<Rightarrow>
               (case c_acquire api (penv w) r (lib w) of
                  ((success, token), q) \<Rightarrow> let w = in_lib api q w in
                    (case token of
                       None \<Rightarrow> (Inl (Errorf ''qrmi_resource_acquire: %s'' [S (lastError api w)]), w)
                     | Some t \<Rightarrow>
                         if \<not> success
                         then (Inl (Errorf ''qrmi_resource_acquire: %s'' [S (lastError api w)]), w)
                         else (Inr (c_string t), event (QAcquire r (c_string t)) w)))))"

definition Release :: "'q build \<Rightarrow> nat option \<Rightarrow> string \<Rightarrow> 'q world \<Rightarrow> gerr option \<times> 'q world" where
  "Release b r token w =
     (case b of
        Stub \<Rightarrow> Stub_Release token w
      | Real api \<Rightarrow>
          (case r of
             None \<Rightarrow> (Some resource_closed, w)
           | Some r \<Rightarrow>
               (case c_release api (penv w) r (c_string token) (lib w) of
                  (success, q) \<Rightarrow>
                    let w = event (QRelease r (c_string token) success) (in_lib api q w) in
                    if \<not> success
                    then (Some (Errorf ''qrmi_resource_release: %s'' [S (lastError api w)]), w)
                    else (None, w))))"

subsection \<open>What a library call changes\<close>

text \<open>Only the library, its trace and the log.\<close>

definition lib_call :: "qevent list \<Rightarrow> 'q world \<Rightarrow> 'q world \<Rightarrow> bool" where
  "lib_call es w w' = (effect {} es w w' \<and> files w' = files w \<and> penv w' = penv w \<and> jenv w' = jenv w)"

lemma lib_call_refl [simp]: "lib_call [] w w"
  by (simp add: lib_call_def)

lemma lib_call_trans: "lib_call es a b \<Longrightarrow> lib_call ds b c \<Longrightarrow> lib_call (es @ ds) a c"
  by (auto simp: lib_call_def intro: effect_trans_same)

lemma lib_call_effect: "lib_call es w w' \<Longrightarrow> effect P es w w'"
  using effect_mono [of "{}" es w w' P] by (simp add: lib_call_def)

lemma lib_call_qlog: "lib_call es w w' \<Longrightarrow> qlog w' = qlog w @ es"
  by (simp add: lib_call_def effect_def)

lemma lib_call_log [simp]:
  "lib_call es w (log_info c m w') = lib_call es w w'"
  "lib_call es w (log_warn c m w') = lib_call es w w'"
  "lib_call es w (log_error c m w') = lib_call es w w'"
  unfolding lib_call_def effect_log
  by (simp_all add: log_info_def log_warn_def log_error_def log_write_def)

lemma lib_call_QRMILog [simp]: "lib_call es w (QRMILog c l t m w') = lib_call es w w'"
  by (simp add: QRMILog_def Let_def)

lemma lib_call_callback: "lib_call es w w' \<Longrightarrow> lib_call es w (qrmiGoLogCallback r w')"
  by (auto simp: qrmiGoLogCallback_def split: option.split prod.split)

lemma in_lib_call: "lib_call [] w (in_lib api q w)"
proof -
  have "lib_call [] w (foldl (\<lambda>w r. qrmiGoLogCallback r w) w' rs)" if "lib_call [] w w'" for w' rs
    using that by (induction rs arbitrary: w') (simp_all add: lib_call_callback)
  then show ?thesis by (simp add: in_lib_def Let_def lib_call_def)
qed

lemma event_call: "lib_call es w w' \<Longrightarrow> lib_call (es @ [e]) w (event e w')"
  by (auto simp: lib_call_def event_def effect_def)

lemmas call_rules = in_lib_call event_call [OF in_lib_call, simplified]

lemma lib_in_lib [simp]: "lib (in_lib api q w) = q"
proof -
  have "lib (qrmiGoLogCallback r v) = lib v" for r and v :: "'a world"
    by (simp add: qrmiGoLogCallback_def QRMILog_def Let_def log_info_def log_warn_def log_error_def log_write_def
        split: option.split prod.split)
  then have "lib (foldl (\<lambda>w r. qrmiGoLogCallback r w) v rs) = lib v" for v :: "'a world" and rs
    by (induction rs arbitrary: v) simp_all
  then show ?thesis by (simp add: in_lib_def Let_def)
qed

lemma lib_event [simp]: "lib (event e w) = lib w"
  by (simp add: event_def)

lemma c_string_idem [simp]: "c_string (c_string s) = c_string s"
  by (simp add: c_string_def takeWhile_takeWhile)

lemma c_string_no_NUL: "NUL \<notin> set (c_string s)"
  by (auto simp: c_string_def dest: set_takeWhileD)

lemma SetLogCallback_call: "lib_call [] w (SetLogCallback b c w)"
  by (simp add: SetLogCallback_def lib_call_def split: build.split)

lemma LoadConfig_Inl: "LoadConfig b p w = (Inl e, w') \<Longrightarrow> lib_call [] w w'"
  by (auto simp: LoadConfig_def Let_def call_rules split: build.splits option.splits prod.splits)

lemma LoadConfig_Inr:
  "LoadConfig b p w = (Inr c, w') \<Longrightarrow>
   \<exists>api n. b = Real api \<and> c = Some n \<and> lib_call [QConfigLoad n] w w'"
  by (auto simp: LoadConfig_def Let_def call_rules split: build.splits option.splits prod.splits)

lemma Config_Close_call: "lib_call [QConfigFree n] w (Config_Close (Real api) (Some n) w)"
  by (simp add: Config_Close_def call_rules)

lemma ResourceDef_Inl: "Config_ResourceDef b c nm w = (Inl e, w') \<Longrightarrow> lib_call [] w w'"
  by (auto simp: Config_ResourceDef_def Let_def call_rules split: build.splits option.splits prod.splits)

lemma ResourceDef_Inr:
  "Config_ResourceDef b c nm w = (Inr d, w') \<Longrightarrow> \<exists>n. d = Some n \<and> lib_call [QDefGet n] w w'"
  by (auto simp: Config_ResourceDef_def Let_def call_rules split: build.splits option.splits prod.splits)

lemma Def_Close_call: "lib_call [QDefFree n] w (Def_Close (Real api) (Some n) w)"
  by (simp add: Def_Close_def call_rules)

lemma NewResource_Inl: "NewResource b nm t w = (Inl e, w') \<Longrightarrow> lib_call [] w w'"
  by (auto simp: NewResource_def Let_def call_rules split: build.splits option.splits prod.splits)

lemma NewResource_Inr:
  "NewResource b nm t w = (Inr r, w') \<Longrightarrow>
   \<exists>n. r = Some n \<and> lib_call [QResourceNew n (c_string nm) (ucast t)] w w'"
  by (auto simp: NewResource_def Let_def call_rules split: build.splits option.splits prod.splits)

lemma Resource_Close_call: "lib_call [QResourceFree n] w (Resource_Close (Real api) (Some n) w)"
  by (simp add: Resource_Close_def call_rules)

lemma IsAccessible_call:
  "IsAccessible b (Some r) w = (res, w') \<Longrightarrow>
   (case res of Inl e \<Rightarrow> lib_call [] w w' | Inr a \<Rightarrow> lib_call [QAccessible r a] w w')"
  by (auto simp: IsAccessible_def Let_def call_rules split: build.splits prod.splits if_splits)

lemma Acquire_Inl: "Acquire b r w = (Inl e, w') \<Longrightarrow> lib_call [] w w'"
  by (auto simp: Acquire_def Let_def call_rules split: build.splits option.splits prod.splits if_splits)

lemma Acquire_Inr:
  "Acquire b (Some r) w = (Inr t, w') \<Longrightarrow> lib_call [QAcquire r t] w w' \<and> c_string t = t"
  by (auto simp: Acquire_def Let_def call_rules split: build.splits option.splits prod.splits if_splits)

lemma Release_call:
  "Release (Real api) (Some r) t w = (res, w') \<Longrightarrow>
   lib_call [QRelease r (c_string t) (res = None)] w w'"
  by (auto simp: Release_def Let_def call_rules split: prod.splits if_splits)

text \<open>What the library answered, and the state it was left in, when a call succeeded.\<close>

lemma answers:
  "LoadConfig (Real api) p w = (Inr (Some c), w') \<Longrightarrow>
     c_config_load api (penv w) (c_string p) (lib w) = (Some c, lib w')"
  "Config_ResourceDef (Real api) (Some c) nm w = (Inr (Some e), w') \<Longrightarrow>
     c_def_get api c (c_string nm) (lib w) = (Some e, lib w')"
  "NewResource (Real api) nm t w = (Inr (Some n), w') \<Longrightarrow>
     c_resource_new api (penv w) (c_string nm) (ucast t) (lib w) = (Some n, lib w')"
  "IsAccessible (Real api) (Some n) w = (Inr a, w') \<Longrightarrow>
     c_is_accessible api (penv w) n (lib w) = ((True, a), lib w')"
  "Acquire (Real api) (Some n) w = (Inr tok, w') \<Longrightarrow>
     \<exists>x. c_acquire api (penv w) n (lib w) = ((True, Some x), lib w') \<and> tok = c_string x"
  by (auto simp: LoadConfig_def Config_ResourceDef_def NewResource_def IsAccessible_def Acquire_def Let_def
      split: prod.splits option.splits if_splits)

subsection \<open>Scopes of handles\<close>

text \<open>
  The discipline of libqrmi: every handle is freed once, in the reverse order of creation, and a
  resource is used only while it is the innermost open handle. \<open>brackets\<close> checks it with a stack.
\<close>

datatype handle = HConfig nat | HDef nat | HResource nat

fun brackets :: "handle list \<Rightarrow> qevent list \<Rightarrow> bool" where
  "brackets st [] = (st = [])"
| "brackets st (e # es) =
     (case e of
        QConfigLoad n \<Rightarrow> brackets (HConfig n # st) es
      | QDefGet n \<Rightarrow> brackets (HDef n # st) es
      | QResourceNew n _ _ \<Rightarrow> brackets (HResource n # st) es
      | QConfigFree n \<Rightarrow> st \<noteq> [] \<and> hd st = HConfig n \<and> brackets (tl st) es
      | QDefFree n \<Rightarrow> st \<noteq> [] \<and> hd st = HDef n \<and> brackets (tl st) es
      | QResourceFree n \<Rightarrow> st \<noteq> [] \<and> hd st = HResource n \<and> brackets (tl st) es
      | QAccessible n _ \<Rightarrow> st \<noteq> [] \<and> hd st = HResource n \<and> brackets st es
      | QAcquire n _ \<Rightarrow> st \<noteq> [] \<and> hd st = HResource n \<and> brackets st es
      | QRelease n _ _ \<Rightarrow> st \<noteq> [] \<and> hd st = HResource n \<and> brackets st es)"

definition nested :: "handle list \<Rightarrow> qevent list \<Rightarrow> bool" where
  "nested st es = (\<forall>rest. brackets st (es @ rest) = brackets st rest)"

lemma nested_Nil [simp]: "nested st []"
  by (simp add: nested_def)

lemma nested_append: "nested st es \<Longrightarrow> nested st ds \<Longrightarrow> nested st (es @ ds)"
  by (simp add: nested_def)

lemma nested_brackets: "nested [] es \<Longrightarrow> brackets [] es"
  by (metis append_Nil2 brackets.simps(1) nested_def)

lemma nested_use [simp]:
  "nested (HResource r # st) [QAccessible r a]"
  "nested (HResource r # st) [QAcquire r t]"
  "nested (HResource r # st) [QRelease r t ok]"
  by (simp_all add: nested_def)

text \<open>The three kinds of handle share one contract: an opening call, its closing call.\<close>

locale scoped =
  fixes opn cls :: "qevent" and hdl :: handle
  assumes opens: "brackets st (opn # es) = brackets (hdl # st) es"
    and closes: "brackets (hdl # st) (cls # es) = brackets st es"
begin

lemma nested_scope: "nested (hdl # st) es \<Longrightarrow> nested st ([opn] @ es @ [cls])"
  by (simp add: nested_def opens closes del: brackets.simps)

end

interpretation config_scope: scoped "QConfigLoad n" "QConfigFree n" "HConfig n" for n
  by unfold_locales simp_all

interpretation def_scope: scoped "QDefGet n" "QDefFree n" "HDef n" for n
  by unfold_locales simp_all

interpretation resource_scope: scoped "QResourceNew n nm t" "QResourceFree n" "HResource n" for n nm t
  by unfold_locales simp_all

subsection \<open>Tokens\<close>

text \<open>The tokens acquired in a trace for which no release was asked later, oldest first.\<close>

fun unreleased :: "(nat \<times> string) list \<Rightarrow> qevent list \<Rightarrow> (nat \<times> string) list" where
  "unreleased held [] = held"
| "unreleased held (e # es) =
     (case e of
        QAcquire r t \<Rightarrow> unreleased (held @ [(r, t)]) es
      | QRelease r t ok \<Rightarrow> unreleased (remove1 (r, t) held) es
      | _ \<Rightarrow> unreleased held es)"

lemma unreleased_append [simp]: "unreleased held (es @ ds) = unreleased (unreleased held es) ds"
  by (induction es arbitrary: held) (simp_all split: qevent.split)

end
