(* ===== verification/C_Metadata.thy ===== *)
theory C_Metadata
  imports Qrmi
begin

text \<open>
  The metadata file between the Go hooks and the C hooks they replace
  (\<open>src/cmd/qrmi-ocs-prolog/main.c\<close>, \<open>src/cmd/qrmi-ocs-epilog/main.c\<close>). The comment of \<open>Record\<close> promises
  that either version reads what the other writes. The C functions are modelled on their strings,
  which end at the first zero byte; a C \<open>int\<close> has 32 bits and a \<open>long\<close> 64; that
  \<open>malloc\<close> fails is not modelled. The lemmas: the exact
  condition under which each version reads the other's record, and that the two readers agree.
\<close>

subsection \<open>The C library\<close>

text \<open>\<open>strtok_r(s, "\t", \<dots>)\<close>: the next token that is not empty, and the rest after its delimiter.\<close>

definition next_token :: "string \<Rightarrow> string option \<times> string" where
  "next_token s =
     (let t = dropWhile (\<lambda>c. c = TAB) s in
      if t = [] then (None, [])
      else (Some (takeWhile (\<lambda>c. c \<noteq> TAB) t), drop 1 (dropWhile (\<lambda>c. c \<noteq> TAB) t)))"

definition c_space :: "char \<Rightarrow> bool" where
  "c_space c = (c \<in> {SP, TAB, LF, CR, CHR 0x0B, CHR 0x0C})"

text \<open>
  \<open>strtol(s, &end, 10)\<close> with a \<open>long\<close> of 64 bits: the number, what \<open>end\<close> points to, and whether
  \<open>errno\<close> was set. Without digits \<open>end\<close> is \<open>s\<close>.
\<close>

definition strtol :: "string \<Rightarrow> int \<times> string \<times> bool" where
  "strtol s =
     (let t = dropWhile c_space s;
          neg = (t \<noteq> [] \<and> hd t = CHR ''-'');
          u = (if t \<noteq> [] \<and> (hd t = CHR ''-'' \<or> hd t = CHR ''+'') then tl t else t);
          ds = takeWhile is_digit u;
          v = (if neg then - digits_val ds else digits_val ds) in
      if ds = [] then (0, s, False)
      else if v < - 9223372036854775808 then (- 9223372036854775808, dropWhile is_digit u, True)
      else if 9223372036854775807 < v then (9223372036854775807, dropWhile is_digit u, True)
      else (v, dropWhile is_digit u, False))"

text \<open>The check both numbers get: no error, some digits, and nothing after them.\<close>

definition long_of :: "string \<Rightarrow> int option" where
  "long_of s = (case strtol s of (v, rest, erange) \<Rightarrow>
     if erange \<or> rest = s \<or> rest \<noteq> [] then None else Some v)"

subsection \<open>The C reader and writer\<close>

definition INT_MAX :: int where
  "INT_MAX = 2147483647"

definition c_parse_record_line :: "string \<Rightarrow> acq_record option" where
  "c_parse_record_line line =
     (let line = takeWhile (\<lambda>c. c \<noteq> CR \<and> c \<noteq> LF) (c_string line);
          (name, rest) = next_token line;
          (type_text, rest) = next_token rest;
          (token, rest) = next_token rest;
          (epoch_text, rest) = next_token rest
      in (case (name, type_text, token) of
            (Some name, Some type_text, Some token) \<Rightarrow>
              (case long_of type_text of
                 None \<Rightarrow> None
               | Some typ \<Rightarrow>
                   if typ < 0 \<or> INT_MAX < typ then None
                   else (case (case epoch_text of None \<Rightarrow> Some 0 | Some e \<Rightarrow> long_of e) of
                           None \<Rightarrow> None
                         | Some epoch \<Rightarrow>
                             Some \<lparr>rec_name = name, rec_type = word_of_int typ, rec_token = token,
                                   rec_epoch = word_of_int epoch\<rparr>))
          | _ \<Rightarrow> None))"

text \<open>The loop over the lines of \<open>getline\<close>; \<open>None\<close> when \<open>metadata_error\<close> is set.\<close>

fun c_read_loop :: "string list \<Rightarrow> acq_record option \<Rightarrow> acq_record option" where
  "c_read_loop [] have_record = have_record"
| "c_read_loop (line # lines) have_record =
     (if line = [] \<or> hd line = CR then c_read_loop lines have_record
      else case have_record of
        None \<Rightarrow>
          (case c_parse_record_line line of None \<Rightarrow> None | Some r \<Rightarrow> c_read_loop lines (Some r))
      | Some r \<Rightarrow> None)"

definition c_read_metadata :: "string \<Rightarrow> acq_record option" where
  "c_read_metadata d = c_read_loop (raw_lines d) None"

text \<open>The line \<open>fprintf\<close> writes: the type is an enumeration of 32 bits, printed as an \<open>int\<close>.\<close>

definition c_record_line :: "acq_record \<Rightarrow> string" where
  "c_record_line r =
     c_string (rec_name r) @ TAB # show_int (sint (ucast (rec_type r) :: 32 word)) @ TAB #
     c_string (rec_token r) @ TAB # itoa (rec_epoch r) @ [LF]"

subsection \<open>Tokens and numbers\<close>

lemma upto_tab:
  "TAB \<notin> set s \<Longrightarrow> takeWhile (\<lambda>c. c \<noteq> TAB) (s @ TAB # t) = s \<and> dropWhile (\<lambda>c. c \<noteq> TAB) (s @ TAB # t) = TAB # t"
  "TAB \<notin> set s \<Longrightarrow> takeWhile (\<lambda>c. c \<noteq> TAB) s = s \<and> dropWhile (\<lambda>c. c \<noteq> TAB) s = []"
  by (induction s) auto

lemma no_tab_start: "s \<noteq> [] \<Longrightarrow> TAB \<notin> set s \<Longrightarrow> dropWhile (\<lambda>c. c = TAB) (s @ t) = s @ t"
  by (cases s) auto

lemma next_token_sep: "s \<noteq> [] \<Longrightarrow> TAB \<notin> set s \<Longrightarrow> next_token (s @ TAB # t) = (Some s, t)"
  using no_tab_start [of s "TAB # t"] upto_tab(1) [of s t] by (simp add: next_token_def)

lemma next_token_last: "s \<noteq> [] \<Longrightarrow> TAB \<notin> set s \<Longrightarrow> next_token s = (Some s, [])"
  using no_tab_start [of s "[]"] by (simp add: next_token_def upto_tab(2))

lemma next_token_Nil [simp]: "next_token [] = (None, [])"
  by (simp add: next_token_def)

lemma next_token_Some:
  assumes "next_token s = (Some t, rest)"
  shows "t \<noteq> [] \<and> TAB \<notin> set t \<and> set t \<subseteq> set s \<and> set rest \<subseteq> set s"
proof -
  let ?s = "dropWhile (\<lambda>c. c = TAB) s"
  have s: "?s \<noteq> []" "t = takeWhile (\<lambda>c. c \<noteq> TAB) ?s" "rest = drop 1 (dropWhile (\<lambda>c. c \<noteq> TAB) ?s)"
    using assms by (auto simp: next_token_def Let_def split: if_splits)
  moreover have "hd ?s \<noteq> TAB" using hd_dropWhile [OF s(1)] by simp
  ultimately have "t \<noteq> []" "TAB \<notin> set t" "set t \<subseteq> set ?s" "set rest \<subseteq> set ?s"
    by (cases ?s; auto dest: set_takeWhileD set_dropWhileD in_set_dropD)+
  moreover have "set ?s \<subseteq> set s" by (auto dest: set_dropWhileD)
  ultimately show ?thesis by blast
qed

lemma digits_long:
  assumes "all_digits s"
  shows "takeWhile is_digit s = s" "dropWhile is_digit s = []" "dropWhile c_space s = s" "s \<noteq> []"
    "hd s \<noteq> CHR ''-''" "hd s \<noteq> CHR ''+''" "\<forall>c \<in> set s. is_digit c"
proof -
  show n: "s \<noteq> []" using assms by (simp add: all_digits_def)
  have d: "is_digit (hd s)" "\<forall>c \<in> set s. is_digit c" using assms n by (auto simp: all_digits_def list_all_iff)
  then show "takeWhile is_digit s = s" "dropWhile is_digit s = []" "\<forall>c \<in> set s. is_digit c" by simp_all
  have "\<not> c_space (hd s)" "hd s \<noteq> CHR ''-''" "hd s \<noteq> CHR ''+''" using d(1) by (auto simp: c_space_def is_digit_def)
  with n show "dropWhile c_space s = s" "hd s \<noteq> CHR ''-''" "hd s \<noteq> CHR ''+''" by (simp_all add: dropWhile_eq_self_iff)
qed

text \<open>Whatever number Go reads, \<open>strtol\<close> reads too.\<close>

lemma long_of_parse_i64: "parse_i64 s = Some w \<Longrightarrow> long_of s = Some (sint w)"
proof -
  assume w: "parse_i64 s = Some w"
  then have i: "parse_int s = Some (sint w)" by (rule parse_i64_Some_parse_int)
  then obtain c t where s: "s = c # t" by (cases s) auto
  have r: "\<not> sint w < - 9223372036854775808" "\<not> 9223372036854775807 < sint w" using sint_i64_range [of w] by simp_all
  consider (sign) "c = CHR ''-'' \<or> c = CHR ''+''" "all_digits t" | (plain) "all_digits s"
    using i s by (auto split: if_splits)
  then show ?thesis
  proof cases
    case sign
    have "dropWhile c_space s = s" using sign(1) s by (auto simp: c_space_def)
    then show ?thesis using sign i s r digits_long(7) [OF sign(2)]
      by (auto simp: long_of_def strtol_def Let_def digits_long [OF sign(2)] split: if_splits)
  next
    case plain
    have "sint w = digits_val s" using i s digits_long(5,6) [OF plain] plain by (auto split: if_splits)
    then show ?thesis using r by (simp add: long_of_def strtol_def Let_def digits_long [OF plain] digits_long(4) [OF plain, symmetric])
  qed
qed

lemma long_of_itoa [simp]: "long_of (itoa w) = Some (sint w)"
  by (rule long_of_parse_i64) simp

subsection \<open>What the C reader accepts\<close>

text \<open>The records both versions can write and read.\<close>

definition c_field :: "string \<Rightarrow> bool" where
  "c_field s = (s \<noteq> [] \<and> set s \<inter> {NUL, TAB, LF, CR} = {})"

definition shared_record :: "acq_record \<Rightarrow> bool" where
  "shared_record r = (c_field (rec_name r) \<and> c_field (rec_token r) \<and>
     0 \<le> sint (rec_type r) \<and> sint (rec_type r) \<le> INT_MAX)"

lemma plain_c_string: "NUL \<notin> set s \<Longrightarrow> c_string s = s"
  by (auto simp: c_string_def takeWhile_eq_all_conv)

lemma in_c_line: "set (takeWhile (\<lambda>c. c \<noteq> CR \<and> c \<noteq> LF) (c_string l)) \<inter> {NUL, LF, CR} = {}"
  using c_string_no_NUL [of l] by (auto dest: set_takeWhileD)

lemma c_parse_sound: "c_parse_record_line l = Some r \<Longrightarrow> shared_record r"
proof -
  assume p: "c_parse_record_line l = Some r"
  let ?l = "takeWhile (\<lambda>c. c \<noteq> CR \<and> c \<noteq> LF) (c_string l)"
  obtain n r1 where 1: "next_token ?l = (n, r1)" by fastforce
  obtain t r2 where 2: "next_token r1 = (t, r2)" by fastforce
  obtain k r3 where 3: "next_token r2 = (k, r3)" by fastforce
  obtain e r4 where 4: "next_token r3 = (e, r4)" by fastforce
  obtain name ty tok v where v: "n = Some name" "t = Some ty" "k = Some tok" "long_of ty = Some v" "0 \<le> v" "v \<le> INT_MAX"
    "rec_name r = name" "rec_token r = tok" "rec_type r = word_of_int v"
    using p by (auto simp: c_parse_record_line_def Let_def 1 2 3 4 split: option.splits if_splits)
  note n = next_token_Some [OF 1 [unfolded v(1)]] and t = next_token_Some [OF 2 [unfolded v(2)]]
    and k = next_token_Some [OF 3 [unfolded v(3)]]
  have "set name \<subseteq> set ?l" "set tok \<subseteq> set ?l" using n t k by blast+
  then have "c_field name" "c_field tok" using n k in_c_line [of l] by (auto simp: c_field_def)
  moreover have "sint (word_of_int v :: i64) = v"
    using v(5,6) signed_take_bit_int_eq_self [of 63 v] by (simp add: sint_sbintrunc' INT_MAX_def)
  ultimately show ?thesis using v by (simp add: shared_record_def)
qed

lemma c_parse_render:
  assumes "shared_record r"
  shows "c_parse_record_line (render_record r) = Some r"
proof -
  have n: "rec_name r \<noteq> []" "TAB \<notin> set (rec_name r)" "NUL \<notin> set (rec_name r)" "CR \<notin> set (rec_name r)" "LF \<notin> set (rec_name r)"
    and t: "rec_token r \<noteq> []" "TAB \<notin> set (rec_token r)" "NUL \<notin> set (rec_token r)" "CR \<notin> set (rec_token r)" "LF \<notin> set (rec_token r)"
    using assms by (auto simp: shared_record_def c_field_def)
  have i: "NUL \<notin> set (itoa x)" for x by (auto dest!: itoa_chars simp: is_digit_def)
  have "NUL \<notin> set (render_record r)" using n t i by (simp add: render_record_def)
  moreover have tw: "takeWhile (\<lambda>c. c \<noteq> CR \<and> c \<noteq> LF) (render_record r) = render_record r"
    using n t by (auto simp: render_record_def takeWhile_eq_all_conv)
  moreover have "next_token (render_record r) =
      (Some (rec_name r), itoa (rec_type r) @ TAB # rec_token r @ TAB # itoa (rec_epoch r))"
    unfolding render_record_def using n by (intro next_token_sep)
  moreover have "\<not> sint (rec_type r) < 0" "\<not> INT_MAX < sint (rec_type r)" using assms by (simp_all add: shared_record_def)
  ultimately show ?thesis using t
    by (simp add: c_parse_record_line_def Let_def plain_c_string tw next_token_sep next_token_last)
qed

text \<open>The loop accepts exactly one line that is not skipped, and that line parses.\<close>

lemma c_read_loop_Some:
  "c_read_loop ls (Some r) = (if filter (\<lambda>l. l \<noteq> [] \<and> hd l \<noteq> CR) ls = [] then Some r else None)"
  by (induction ls) auto

lemma c_read_loop_None:
  "c_read_loop ls None =
     (case filter (\<lambda>l. l \<noteq> [] \<and> hd l \<noteq> CR) ls of [l] \<Rightarrow> c_parse_record_line l | _ \<Rightarrow> None)"
  by (induction ls) (auto simp: c_read_loop_Some split: option.splits list.splits)

lemma c_read_sound: "c_read_metadata d = Some r \<Longrightarrow> shared_record r"
  by (auto simp: c_read_metadata_def c_read_loop_None dest: c_parse_sound split: list.splits)

lemma shared_writable: "shared_record r \<Longrightarrow> writable_record r \<and> readable_record r"
  by (auto simp: shared_record_def c_field_def writable_record_def readable_record_def contains_any_iff)

lemma c_reads_shared:
  assumes "shared_record r"
  shows "c_read_metadata (record_line r) = Some r"
proof -
  have "raw_lines (record_line r) = [render_record r]"
    using render_one_line [of r] shared_writable [OF assms] by (simp add: record_line_def raw_lines_one)
  moreover have "render_record r \<noteq> []" "hd (render_record r) \<noteq> CR"
    using assms by (cases "rec_name r"; auto simp: render_record_def shared_record_def c_field_def)+
  ultimately show ?thesis by (simp add: c_read_metadata_def c_read_loop_None c_parse_render [OF assms])
qed

lemma sint_low_half:
  assumes "0 \<le> sint (x :: i64)" "sint x \<le> 2147483647"
  shows "sint (ucast x :: 32 word) = sint x"
proof -
  define v where "v = sint x"
  have x: "x = word_of_int v" by (simp add: v_def)
  have v: "0 \<le> v" "v \<le> 2147483647" using assms by (simp_all add: v_def)
  then have "uint x = v" by (simp add: x uint_word_of_int)
  then have "ucast x = (word_of_int v :: 32 word)" by (simp add: ucast_eq)
  moreover have "sint (word_of_int v :: 32 word) = v"
    using v signed_take_bit_int_eq_self [of 31 v] by (simp add: sint_sbintrunc')
  ultimately show ?thesis by (simp add: v_def)
qed

text \<open>The record whose line \<open>fprintf\<close> writes: the strings end at a zero byte, the type keeps 32 bits.\<close>

definition c_written :: "acq_record \<Rightarrow> acq_record" where
  "c_written r = r\<lparr>rec_name := c_string (rec_name r), rec_token := c_string (rec_token r),
     rec_type := scast (ucast (rec_type r) :: 32 word)\<rparr>"

lemma sint_int_in_long [simp]: "sint (scast (x :: 32 word) :: i64) = sint x"
proof -
  have "signed_take_bit 63 (sint x) = sint x"
    using sint_range_size [of x] by (intro signed_take_bit_int_eq_self) (simp_all add: word_size)
  then have "sint (word_of_int (sint x) :: i64) = sint x" by (simp only: sint_sbintrunc') simp
  then show ?thesis by simp
qed

lemma c_record_line_written: "c_record_line r = record_line (c_written r)"
  by (simp add: c_record_line_def c_written_def record_line_def render_record_def itoa_def)

lemma sint_c_type: "sint (rec_type (c_written r)) \<le> INT_MAX"
  using sint_range_size [of "ucast (rec_type r) :: 32 word"]
  by (simp add: c_written_def INT_MAX_def word_size)

lemma c_written_same:
  "NUL \<notin> set (rec_name r) \<Longrightarrow> NUL \<notin> set (rec_token r) \<Longrightarrow> 0 \<le> sint (rec_type r) \<Longrightarrow>
   sint (rec_type r) \<le> INT_MAX \<Longrightarrow> c_written r = r"
  using sint_low_half [of "rec_type r"] by (simp add: c_written_def plain_c_string INT_MAX_def scast_eq)

lemma c_written_fields:
  assumes "c_written r = r"
  shows "NUL \<notin> set (rec_name r) \<and> NUL \<notin> set (rec_token r) \<and> sint (rec_type r) \<le> INT_MAX"
proof -
  have "rec_name r = c_string (rec_name r)" "rec_token r = c_string (rec_token r)"
    using arg_cong [OF assms, of rec_name] arg_cong [OF assms, of rec_token] by (simp_all add: c_written_def)
  then show ?thesis using c_string_no_NUL [of "rec_name r"] c_string_no_NUL [of "rec_token r"] sint_c_type [of r] assms
    by metis
qed

lemma c_line_shared: "shared_record r \<Longrightarrow> c_record_line r = record_line r"
  using c_written_same [of r]
  by (simp add: c_record_line_written shared_record_def c_field_def)

subsection \<open>One line for both readers\<close>

lemma set_raw_lines: "l \<in> set (raw_lines d) \<Longrightarrow> LF \<notin> set l"
  by (auto simp: raw_lines_def Let_def dest: in_set_butlastD split_elem_no_sep split: if_splits)

lemma split_elem_sub: "x \<in> set (split c s) \<Longrightarrow> set x \<subseteq> set s"
  by (induction s arbitrary: x) (fastforce split: list.splits if_splits)+

lemma set_trim_crs: "set (trim_crs l) \<subseteq> set l"
  by (auto simp: trim_crs_def dest: set_dropWhileD)

lemma trim_crs_no_CR: "CR \<notin> set l \<Longrightarrow> trim_crs l = l"
  by (cases l rule: rev_cases) (auto simp: trim_crs_def)

lemma raw_lines_sub: "l \<in> set (raw_lines d) \<Longrightarrow> set l \<subseteq> set d"
  by (auto simp: raw_lines_def Let_def dest!: in_set_butlastD dest: split_elem_sub [THEN subsetD] split: if_splits)

text \<open>The fields \<open>strings.Split\<close> and \<open>strtok_r\<close> find in a line that starts with a field that is not empty.\<close>

lemma split_Cons_Cons:
  "split c l = f # g # fs \<Longrightarrow> \<exists>rest. l = f @ c # rest \<and> c \<notin> set f \<and> split c rest = g # fs"
proof (induction l arbitrary: f)
  case (Cons x l)
  show ?case
  proof (cases "x = c")
    case False
    then obtain f' where "f = x # f'" "split c l = f' # g # fs"
      using Cons.prems by (auto split: list.splits)
    with Cons.IH [of f'] False show ?thesis by auto
  qed (use Cons.prems in auto)
qed simp

lemma next_token_split:
  "split TAB l = f # fs \<Longrightarrow> f \<noteq> [] \<Longrightarrow>
   \<exists>rest. next_token l = (Some f, rest) \<and> (fs \<noteq> [] \<longrightarrow> split TAB rest = fs)"
proof (cases fs)
  case (Cons g gs)
  assume "split TAB l = f # fs" "f \<noteq> []"
  with Cons split_Cons_Cons [of TAB l f g gs] show ?thesis by (auto simp: next_token_sep)
next
  case Nil
  assume s: "split TAB l = f # fs" "f \<noteq> []"
  have "l = f" using s(1) Nil join_split [of TAB l] by simp
  moreover have "TAB \<notin> set f" using s(1) split_elem_no_sep [of f TAB l] by simp
  ultimately show ?thesis using s(2) Nil by (simp add: next_token_last)
qed

lemma parse_both:
  assumes "parseRecordLine l = Inr r" "c_parse_record_line l = Some r'" "set l \<inter> {NUL, LF, CR} = {}"
  shows "rec_name r' = rec_name r \<and> rec_type r' = rec_type r \<and> rec_token r' = rec_token r"
proof -
  have "3 \<le> length (split TAB l)" using assms(1)
    by (auto simp: parseRecordLine_def Let_def split: if_splits)
  then obtain n t k fs where s: "split TAB l = n # t # k # fs"
    by (auto simp: Suc_le_length_iff numeral_3_eq_3)
  have g: "n \<noteq> []" "t \<noteq> []" "k \<noteq> []" "rec_name r = n" "rec_token r = k" "atoi t = Some (rec_type r)"
    using assms(1) by (auto simp: parseRecordLine_def Let_def s split: if_splits option.splits)
  obtain r1 where 1: "next_token l = (Some n, r1)" "split TAB r1 = t # k # fs"
    using next_token_split [OF s g(1)] by blast
  obtain r2 where 2: "next_token r1 = (Some t, r2)" "split TAB r2 = k # fs"
    using next_token_split [OF 1(2) g(2)] by blast
  obtain r3 where 3: "next_token r2 = (Some k, r3)"
    using next_token_split [OF 2(2) g(3)] by blast
  have l: "takeWhile (\<lambda>c. c \<noteq> CR \<and> c \<noteq> LF) (c_string l) = l"
    using assms(3) plain_c_string [of l] by (auto simp: takeWhile_eq_all_conv)
  have "long_of t = Some (sint (rec_type r))" using g(6) by (auto simp: atoi_def intro: long_of_parse_i64)
  then show ?thesis using assms(2)
    by (auto simp: c_parse_record_line_def Let_def l 1 2 3 g split: option.splits if_splits prod.splits)
qed

lemma content_lines_record: "writable_record r \<Longrightarrow> content_lines (record_line r) = [render_record r]"
  using render_one_line [of r]
  by (cases "render_record r" rule: rev_cases) (auto simp: content_lines_def raw_lines_record trim_crs_def)

lemma c_written_writable: "writable_record r \<Longrightarrow> writable_record (c_written r)"
  by (auto simp: writable_record_def c_written_def contains_any_iff c_string_def dest: set_takeWhileD)

lemma parsed_writable: "content_lines d = [l] \<Longrightarrow> parseRecordLine l = Inr r \<Longrightarrow> writable_record r"
proof -
  assume l: "content_lines d = [l]" and p: "parseRecordLine l = Inr r"
  have "l \<in> set (content_lines d)" using l by simp
  then obtain x where "x \<in> set (raw_lines d)" "l = trim_crs x" by (auto simp: content_lines_def)
  then have n: "LF \<notin> set l" using set_raw_lines [of x d] set_trim_crs [of x] by blast
  have "3 \<le> length (split TAB l)" using p by (auto simp: parseRecordLine_def Let_def split: if_splits)
  then have "set (split TAB l ! 0) \<subseteq> set l" "set (split TAB l ! 2) \<subseteq> set l"
    by (auto intro!: split_elem_sub [of _ TAB] nth_mem)
  then have "set (rec_name r) \<subseteq> set l" "set (rec_token r) \<subseteq> set l"
    using p by (auto simp only: parseRecordLine_def Let_def acq_record.simps sum.inject split: if_splits option.splits)
  then show ?thesis using n parseRecordLine_Inr [OF p]
    by (auto simp: writable_record_def contains_any_iff)
qed

subsection \<open>The properties\<close>

text \<open>
  C24. The metadata file is shared with the C hooks, and this is the exact condition, for each
  record and each of the three ways it can cross. The C epilog gives back the record of the line
  the Go prolog wrote if and only if its name and token are not empty and have no zero byte, tab
  or line end and its type is not negative and fits an \<open>int\<close>; the same holds for the line of the C
  prolog. The Go epilog gives back the record the C prolog wrote if and only if both can write
  it, Go can read it and its line is below one MiB.
\<close>

theorem metadata_shared:
  "(c_read_metadata (record_line r) = Some r) = shared_record r \<and>
   (c_read_metadata (c_record_line r) = Some r) = shared_record r \<and>
   (read_scanned parseRecordLine (c_record_line r) None = Inr r) =
     (writable_record r \<and> readable_record r \<and> c_written r = r \<and>
      int (length (render_record r)) < metadata_max_token)"
proof (intro conjI iffI)
  assume g: "read_scanned parseRecordLine (c_record_line r) None = Inr r"
  then obtain l where l: "short_lines (c_record_line r)" "content_lines (c_record_line r) = [l]" "parseRecordLine l = Inr r"
    by (rule read_scanned_Inr)
  have ok: "writable_record r" using parsed_writable [OF l(2,3)] .
  then have w: "writable_record (c_written r)" by (rule c_written_writable)
  have "l = render_record (c_written r)"
    using l(2) content_lines_record [OF w] by (simp add: c_record_line_written)
  then have s: "c_written r = r" using l(3) parse_render [OF w] by (auto split: if_splits)
  show "writable_record r" "readable_record r" "c_written r = r" "int (length (render_record r)) < metadata_max_token"
    using ok s l(1) raw_lines_record [OF ok] parseRecordLine_Inr [OF l(3)]
    by (simp_all add: c_record_line_written short_lines_def)
next
  assume "writable_record r \<and> readable_record r \<and> c_written r = r \<and> int (length (render_record r)) < metadata_max_token"
  then show "read_scanned parseRecordLine (c_record_line r) None = Inr r"
    using rc.read_back [of r] by (simp add: c_record_line_written record_line_def)
qed (simp_all only: c_line_shared c_reads_shared c_read_sound)

text \<open>
  C25. Where both readers accept a file they agree on the resource and on the token that is
  released: a metadata file without zero bytes and carriage returns never makes one version
  release another token than the other.
\<close>

theorem readers_agree:
  assumes "read_scanned parseRecordLine d None = Inr r" "c_read_metadata d = Some r'"
    and "set d \<inter> {NUL, CR} = {}"
  shows "rec_name r' = rec_name r \<and> rec_type r' = rec_type r \<and> rec_token r' = rec_token r"
proof -
  obtain l where l: "content_lines d = [l]" "parseRecordLine l = Inr r"
    using assms(1) by (rule read_scanned_Inr)
  have cr: "x \<in> set (raw_lines d) \<Longrightarrow> trim_crs x = x \<and> (x = [] \<or> hd x \<noteq> CR)" for x
    using assms(3) raw_lines_sub [of x d] trim_crs_no_CR [of x] by (cases x) auto
  have "content_lines d = filter (\<lambda>l. l \<noteq> [] \<and> hd l \<noteq> CR) (raw_lines d)"
    unfolding content_lines_def using cr by (simp add: map_idI cong: filter_cong) (auto intro!: filter_cong)
  with l(1) have f: "filter (\<lambda>l. l \<noteq> [] \<and> hd l \<noteq> CR) (raw_lines d) = [l]" by simp
  have "c_parse_record_line l = Some r'"
    using assms(2) by (simp add: c_read_metadata_def c_read_loop_None f)
  moreover have "l \<in> set (raw_lines d)"
    using arg_cong [OF f, of set] by auto
  then have "set l \<inter> {NUL, LF, CR} = {}"
    using assms(3) raw_lines_sub [of l d] set_raw_lines [of l d] by blast
  ultimately show ?thesis using parse_both [OF l(2)] by simp
qed

definition odd_line :: string where
  "odd_line = ''EMU_FREE'' @ TAB # ''+07'' @ TAB # ''tok-1'' @ TAB # TAB # ''12'' @ [LF]"

theorem readers_agree_witness:
  "read_scanned parseRecordLine odd_line None =
     Inr \<lparr>rec_name = ''EMU_FREE'', rec_type = 7, rec_token = ''tok-1'', rec_epoch = 0\<rparr> \<and>
   c_read_metadata odd_line =
     Some \<lparr>rec_name = ''EMU_FREE'', rec_type = 7, rec_token = ''tok-1'', rec_epoch = 12\<rparr> \<and>
   rec_token (the (c_read_metadata odd_line)) = ''tok-1''"
proof -
  let ?r = "\<lparr>rec_name = ''EMU_FREE'', rec_type = 7, rec_token = ''tok-1'', rec_epoch = 0\<rparr>"
  have g: "read_scanned parseRecordLine odd_line None = Inr ?r" by code_simp
  have c: "c_read_metadata odd_line = Some (?r\<lparr>rec_epoch := 12\<rparr>)" by code_simp
  have "set odd_line \<inter> {NUL, CR} = {}" by code_simp
  from readers_agree [OF g c this] show ?thesis using g c by simp
qed

end
