(* ===== verification/Grant.thy ===== *)
theory Grant
  imports Go_Errors
begin

text \<open>
  \<open>src/internal/qrmiocs/grant.go\<close>: one backend name out of the value the scheduler granted.
\<close>

definition trimCutset :: string where
  "trimCutset = ''[]{}(),;''"

definition grant_encs :: "string list" where
  "grant_encs = space_encs @ map (\<lambda>c. [c]) trimCutset"

definition grant_trim :: "string \<Rightarrow> string" where
  "grant_trim s = trim_enc grant_encs s"

definition ParseGrantedBackend :: "string \<Rightarrow> gerr + string" where
  "ParseGrantedBackend raw =
     (let v = grant_trim raw in
      if v = [] then Inl (Errorf ''granted value is empty'' [])
      else if contains_any v ''()'' then Inl (Errorf ''granted value %q contains parentheses'' [S raw])
      else let (key, value, found) = cut (CHR ''='') v;
               v = (if found then grant_trim value else v)
           in if v = [] then Inl (Errorf ''granted value %q has no backend name'' [S raw])
              else if contains_any v ('', '' @ [TAB, CR, LF])
              then Inl (Errorf ''granted value %q has multiple tokens'' [S raw])
              else Inr v)"

lemma set_grant_trim: "set (grant_trim s) \<subseteq> set s"
  by (simp add: grant_trim_def set_trim_enc)

lemma set_cut_value: "cut c s = (k, v, b) \<Longrightarrow> set v \<subseteq> set s"
  by (cases b) (auto dest: cut_found cut_not_found)

lemma grant_trim_clean: "clean_left grant_encs (grant_trim s) \<and> clean_right grant_encs (grant_trim s)"
  by (simp add: grant_trim_def trim_enc_clean)

text \<open>The characters a backend name accepted by the parser never has.\<close>

definition backend_forbidden :: string where
  "backend_forbidden = ''(),'' @ [SP, TAB, CR, LF]"

lemma ParseGrantedBackend_cases:
  assumes "ParseGrantedBackend raw = Inr b"
  shows "\<exists>s. b = grant_trim s \<and> set s \<subseteq> set (grant_trim raw) \<and> b \<noteq> [] \<and>
    \<not> contains_any (grant_trim raw) ''()'' \<and> \<not> contains_any b ('', '' @ [TAB, CR, LF])"
proof -
  obtain k v f where c: "cut (CHR ''='') (grant_trim raw) = (k, v, f)"
    by (cases "cut (CHR ''='') (grant_trim raw)") auto
  then have v: "set v \<subseteq> set (grant_trim raw)" by (rule set_cut_value)
  have idem: "grant_trim (grant_trim raw) = grant_trim raw" by (simp add: grant_trim_def)
  from assms c have "b = (if f then grant_trim v else grant_trim raw)" and b: "b \<noteq> []"
    "\<not> contains_any (grant_trim raw) ''()''" "\<not> contains_any b ('', '' @ [TAB, CR, LF])"
    by (auto simp: ParseGrantedBackend_def Let_def split: if_splits)
  then show ?thesis using v idem
    by (intro exI [of _ "if f then v else grant_trim raw"]) (simp split: if_splits)
qed

text \<open>
  C37. What an accepted backend name looks like: it is not empty, it has no parenthesis, comma,
  space, tab, carriage return or line feed, nothing is left to trim, and every character of it
  comes from the granted value.
\<close>

theorem ParseGrantedBackend_sound:
  assumes "ParseGrantedBackend raw = Inr b"
  shows "b \<noteq> [] \<and> set b \<inter> set backend_forbidden = {} \<and> grant_trim b = b \<and> set b \<subseteq> set raw"
proof -
  obtain s where s: "b = grant_trim s" "set s \<subseteq> set (grant_trim raw)" "b \<noteq> []"
    "\<not> contains_any (grant_trim raw) ''()''" "\<not> contains_any b ('', '' @ [TAB, CR, LF])"
    using ParseGrantedBackend_cases [OF assms] by blast
  have "set b \<subseteq> set (grant_trim raw)" using s(1,2) set_grant_trim by blast
  moreover have "set b \<subseteq> set raw" using calculation set_grant_trim by blast
  moreover have "grant_trim b = b" using s(1) by (simp add: grant_trim_def)
  ultimately show ?thesis using s(3-5)
    by (auto simp: contains_any_iff backend_forbidden_def)
qed

theorem ParseGrantedBackend_sound_witness:
  "ParseGrantedBackend ''[qpu=EMU_FREE]'' = Inr ''EMU_FREE'' \<and>
   set ''EMU_FREE'' \<inter> set backend_forbidden = {}"
proof -
  have "ParseGrantedBackend ''[qpu=EMU_FREE]'' = Inr ''EMU_FREE''" by code_simp
  with ParseGrantedBackend_sound [OF this] show ?thesis by blast
qed

subsection \<open>Completeness\<close>

text \<open>
  Decoration: characters that are trimmed (the ASCII white space and the cut set). A plain name:
  ASCII, with no decoration and no equals sign.
\<close>

definition grant_special :: string where
  "grant_special = ''[]{}(),; '' @ [TAB, LF, CR, CHR 0x0B, CHR 0x0C]"

definition decoration :: "string \<Rightarrow> bool" where
  "decoration a = list_all (\<lambda>c. c \<in> set grant_special) a"

definition plain_name :: "string \<Rightarrow> bool" where
  "plain_name b = (b \<noteq> [] \<and>
     list_all (\<lambda>c. is_ascii c \<and> c \<noteq> CHR ''='' \<and> c \<notin> set grant_special) b)"

lemma decoration_sole: "decoration a \<Longrightarrow> \<forall>c \<in> set a. sole_enc grant_encs c"
proof -
  have "list_all (sole_enc grant_encs) grant_special" by code_simp
  then show "decoration a \<Longrightarrow> ?thesis" by (simp add: decoration_def list_all_iff)
qed

lemma plain_name_edge: "plain_name b \<Longrightarrow> edge_free grant_encs b"
proof -
  assume b: "plain_name b"
  let ?A = "\<lambda>c. \<not> is_ascii c \<or> c \<in> set grant_special"
  have n: "b \<noteq> []" and p: "\<forall>c \<in> set b. \<not> ?A c"
    using b by (auto simp: plain_name_def list_all_iff)
  have "list_all (\<lambda>e. e = [] \<or> ?A (hd e) \<and> ?A (last e)) grant_encs"
    by code_simp
  then have "?A (hd e) \<and> ?A (last e)" if "e \<in> set grant_encs" "e \<noteq> []" for e
    using that by (auto simp: list_all_iff)
  moreover have "\<not> ?A (hd b)" "\<not> ?A (last b)" using n p by simp_all
  ultimately show ?thesis unfolding edge_free_def using n by metis
qed

lemma plain_name_free:
  assumes "plain_name b"
  shows "b \<noteq> []" "\<not> contains_any b ''()''" "\<not> contains_any b ('', '' @ [TAB, CR, LF])" "CHR ''='' \<notin> set b"
proof -
  have f: "c \<notin> set b" if "c \<in> set grant_special" for c
    using assms that by (auto simp: plain_name_def list_all_iff)
  have "list_all (\<lambda>c. c \<in> set grant_special) ''()''"
    "list_all (\<lambda>c. c \<in> set grant_special) ('', '' @ [TAB, CR, LF])"
    by code_simp+
  then show "\<not> contains_any b ''()''" "\<not> contains_any b ('', '' @ [TAB, CR, LF])"
    using f unfolding contains_any_def list_all_iff list_ex_iff by blast+
  show "b \<noteq> []" "CHR ''='' \<notin> set b" using assms by (auto simp: plain_name_def list_all_iff)
qed

lemma grant_trim_wrap: "decoration a \<Longrightarrow> decoration b \<Longrightarrow> edge_free grant_encs s \<Longrightarrow>
  grant_trim (a @ s @ b) = s"
  unfolding grant_trim_def by (intro trim_enc_wrap decoration_sole)

lemma ParseGrantedBackend_decorated:
  assumes "plain_name n" "plain_name k" "decoration a" "decoration b" "decoration d"
    "\<not> contains_any d ''()''"
  shows "ParseGrantedBackend (a @ n @ b) = Inr n"
    "ParseGrantedBackend (a @ k @ CHR ''='' # d @ n @ b) = Inr n"
proof -
  note n = plain_name_free [OF assms(1)] and k = plain_name_free [OF assms(2)]
  note en = plain_name_edge [OF assms(1)] plain_name_edge [OF assms(2)]
  have "grant_trim (a @ n @ b) = n" using assms en by (intro grant_trim_wrap)
  with n show "ParseGrantedBackend (a @ n @ b) = Inr n"
    by (simp add: ParseGrantedBackend_def cut_absent)
  let ?p = "k @ CHR ''='' # d @ n"
  have "edge_free grant_encs ?p" using en k(1) n(1) by (simp add: edge_free_def)
  then have "grant_trim (a @ ?p @ b) = ?p" using assms by (intro grant_trim_wrap)
  moreover have "\<not> contains_any ?p ''()''" using k(2) n(2) assms(6)
    by (auto simp: contains_any_def)
  moreover have "grant_trim (d @ n) = n"
    using grant_trim_wrap [of d "[]" n] assms en by (simp add: decoration_def)
  ultimately show "ParseGrantedBackend (a @ k @ CHR ''='' # d @ n @ b) = Inr n"
    using n k by (simp add: ParseGrantedBackend_def cut_at)
qed

text \<open>
  Parentheses that only surround the value are trimmed like brackets and braces, against the
  comment of the function, which says that parenthesized values are rejected.
\<close>

lemma outer_parentheses_accepted: "ParseGrantedBackend ''(EMU_FREE)'' = Inr ''EMU_FREE''"
  by code_simp

lemma grant_trim_two:
  assumes "plain_name n" "plain_name m" "decoration a" "decoration b"
  shows "grant_trim (a @ n @ x @ m @ b) = n @ x @ m"
proof -
  have "edge_free grant_encs (n @ x @ m)"
    using plain_name_edge [OF assms(1)] plain_name_edge [OF assms(2)] assms(1,2)
    by (simp add: edge_free_def plain_name_def)
  then show ?thesis using grant_trim_wrap [of a b "n @ x @ m"] assms by simp
qed

lemma grant_trim_decoration: "decoration a \<Longrightarrow> grant_trim a = []"
proof (rule ccontr)
  assume a: "decoration a" "grant_trim a \<noteq> []"
  then obtain c t where t: "grant_trim a = c # t" by (cases "grant_trim a") auto
  then have "sole_enc grant_encs c" using decoration_sole [OF a(1)] set_grant_trim [of a] by auto
  then have "[c] \<in> set grant_encs" by (simp add: sole_enc_def)
  then show False using grant_trim_clean [of a] t by (auto simp: clean_left_def)
qed

lemma grant_trim_open_pair:
  assumes "plain_name m" "decoration a" "decoration b"
  shows "grant_trim (a @ m @ ''='' @ b) = m @ ''=''"
proof -
  have "list_all (\<lambda>e. e = [] \<or> last e \<noteq> CHR ''='') grant_encs" by code_simp
  then have "edge_free grant_encs (m @ ''='')"
    using plain_name_edge [OF assms(1)] assms(1) by (auto simp: edge_free_def plain_name_def list_all_iff)
  then show ?thesis using grant_trim_wrap [of a b "m @ ''=''"] assms by simp
qed

text \<open>
  C38. The forms the function documents are accepted and the others are rejected. Accepted with
  exactly its name: a plain backend name, or \<open>key=name\<close>, with any brackets, braces, commas,
  semicolons and white space around it and before the name of the pair. Rejected: a name with a
  weight in parentheses, two names with a comma, a space, a tab or a line end between them, a pair
  with nothing after the equals sign, and nothing at all.
\<close>

theorem ParseGrantedBackend_complete:
  assumes "plain_name n" "plain_name m" "decoration a" "decoration b" "decoration d"
    "set (a @ b @ d) \<inter> {CHR ''('', CHR '')''} = {}" "sep \<in> {CHR '','', SP, TAB, CR, LF}"
  shows "ParseGrantedBackend (a @ n @ b) = Inr n \<and>
    ParseGrantedBackend (a @ m @ CHR ''='' # d @ n @ b) = Inr n \<and>
    isl (ParseGrantedBackend (a @ n @ ''('' @ m @ '')'' @ b)) \<and>
    isl (ParseGrantedBackend (a @ n @ d @ sep # d @ m @ b)) \<and>
    isl (ParseGrantedBackend (a @ m @ ''='' @ b)) \<and> isl (ParseGrantedBackend a)"
proof (intro conjI)
  have d: "\<not> contains_any d ''()''" using assms(6) by (auto simp: contains_any_iff)
  show "ParseGrantedBackend (a @ n @ b) = Inr n" "ParseGrantedBackend (a @ m @ CHR ''='' # d @ n @ b) = Inr n"
    by (rule ParseGrantedBackend_decorated [OF assms(1-5) d])+
  have "decoration ('')'' @ b)" using assms(4) by (simp add: decoration_def grant_special_def)
  note w = grant_trim_two [OF assms(1,2,3) this, of "''(''"]
  show "isl (ParseGrantedBackend (a @ n @ ''('' @ m @ '')'' @ b))"
    unfolding ParseGrantedBackend_def w Let_def by (simp add: contains_any_iff)
  note t = grant_trim_two [OF assms(1-4), of "d @ sep # d"]
  have "CHR ''='' \<notin> set grant_special" by code_simp
  then have "CHR ''='' \<notin> set d" using assms(5) unfolding decoration_def list_all_iff by blast
  moreover have "CHR ''='' \<notin> set m" by (rule plain_name_free(4) [OF assms(2)])
  ultimately have "CHR ''='' \<notin> set (n @ (d @ sep # d) @ m)" using assms(7) plain_name_free(4) [OF assms(1)] by auto
  note c = cut_absent [OF this]
  have "contains_any (n @ (d @ sep # d) @ m) ('', '' @ [TAB, CR, LF])" using assms(7) by (auto simp: contains_any_iff)
  then have "isl (ParseGrantedBackend (a @ n @ (d @ sep # d) @ m @ b))"
    unfolding ParseGrantedBackend_def t Let_def c by simp
  then show "isl (ParseGrantedBackend (a @ n @ d @ sep # d @ m @ b))" by simp
  have "grant_trim [] = []" using grant_trim_decoration [of "[]"] by (simp add: decoration_def)
  then show "isl (ParseGrantedBackend (a @ m @ ''='' @ b))"
    using plain_name_free [OF assms(2)] cut_at [of "CHR ''=''" m "[]"]
    unfolding ParseGrantedBackend_def grant_trim_open_pair [OF assms(2-4)] by (simp add: Let_def)
  show "isl (ParseGrantedBackend a)"
    by (simp add: ParseGrantedBackend_def grant_trim_decoration [OF assms(3)])
qed

theorem ParseGrantedBackend_complete_witness:
  "ParseGrantedBackend '' {EMU_FREE];'' = Inr ''EMU_FREE'' \<and>
   ParseGrantedBackend '' {qpu=[EMU_FREE];'' = Inr ''EMU_FREE'' \<and>
   isl (ParseGrantedBackend '' {EMU_FREE(qpu)];'') \<and> isl (ParseGrantedBackend '' {EMU_FREE[,[qpu];'')"
proof -
  have "plain_name ''EMU_FREE''" "plain_name ''qpu''" "decoration '' {''" "decoration ''];''" "decoration ''[''"
    "set ('' {'' @ ''];'' @ ''['') \<inter> {CHR ''('', CHR '')''} = {}" "CHR '','' \<in> {CHR '','', SP, TAB, CR, LF}"
    by code_simp+
  from ParseGrantedBackend_complete [OF this] show ?thesis by simp
qed

end
