(* ===== verification/Sanitize.thy ===== *)
theory Sanitize
  imports Job_Env "HOL-Library.AList"
begin

text \<open>
  \<open>src/internal/qrmiocs/sanitize.go\<close>, lines 17-238: the environment the hooks run with. The
  launcher builds it with \<open>LaunchEnv\<close>; the hooks rebuild it with \<open>ResetProcessEnv\<close>. An
  environment is the list of \<open>KEY=VALUE\<close> strings of \<open>os.Environ\<close>; a Go map of its values is an
  association list in which the last value of a key is kept at its first place (Go's own order
  is unspecified, and the resulting process environment does not depend on it). The lemmas:
  nothing but the four scheduler variables reaches the hook, and the spool directory is the
  job's own and holds no symbolic link.
\<close>

subsection \<open>The patterns\<close>

definition is_alnum :: "char \<Rightarrow> bool" where
  "is_alnum c = (let n = (of_char c :: int) in
     48 \<le> n \<and> n \<le> 57 \<or> 65 \<le> n \<and> n \<le> 90 \<or> 97 \<le> n \<and> n \<le> 122)"

definition digits :: "string \<Rightarrow> bool" where
  "digits s = (s \<noteq> [] \<and> list_all is_digit s)"

definition taskPattern :: "string \<Rightarrow> bool" where
  "taskPattern s = (digits s \<or> s = ''undefined'')"

definition dirPattern :: "string \<Rightarrow> bool" where
  "dirPattern s = (case s of
     [] \<Rightarrow> False
   | c # t \<Rightarrow> c = SLASH \<and> t \<noteq> [] \<and> list_all (\<lambda>x. is_alnum x \<or> x \<in> set ''._/-'') t)"

definition cellPattern :: "string \<Rightarrow> bool" where
  "cellPattern s = (s \<noteq> [] \<and> list_all (\<lambda>x. is_alnum x \<or> x \<in> set ''._-'') s)"

definition tzPattern :: "string \<Rightarrow> bool" where
  "tzPattern s = (s \<noteq> [] \<and> length s \<le> 64 \<and> list_all (\<lambda>x. is_alnum x \<or> x \<in> set ''_+:/.-'') s)"

definition trustedEnv :: "string \<Rightarrow> (string \<Rightarrow> bool) option" where
  "trustedEnv = map_of
     [(''JOB_ID'', digits),
      (''SGE_TASK_ID'', taskPattern),
      (''SGE_JOB_SPOOL_DIR'', dirPattern),
      (''SGE_ROOT'', dirPattern),
      (''SGE_CELL'', cellPattern),
      (''SGE_QMASTER_PORT'', digits),
      (''SGE_EXECD_PORT'', digits),
      (''TZ'', tzPattern)]"

definition dotdot :: string where
  "dotdot = ''..''"

subsection \<open>Settings of the launcher\<close>

record LaunchSettings =
  SGERoot :: string
  SGECell :: string
  SpoolRoots :: "string list"
  QmasterPort :: string
  ExecdPort :: string

definition validate :: "LaunchSettings \<Rightarrow> gerr option" where
  "validate s =
     (if SGERoot s = [] \<or> \<not> cellPattern (SGECell s)
      then Some (Errorf ''--sge-root and --sge-cell are required'' [])
      else case find (\<lambda>dir. \<not> is_abs dir \<or> Clean dir \<noteq> dir) (SGERoot s # SpoolRoots s) of
        Some dir \<Rightarrow> Some (Errorf ''invalid directory %q'' [S dir])
      | None \<Rightarrow>
          (case find (\<lambda>port. port \<noteq> [] \<and> \<not> digits port) [QmasterPort s, ExecdPort s] of
             Some port \<Rightarrow> Some (Errorf ''invalid port %q'' [S port])
           | None \<Rightarrow> None))"

subsection \<open>The spool directory\<close>

definition CheckSpoolDir :: "tree \<Rightarrow> string \<Rightarrow> string \<Rightarrow> string \<Rightarrow> string \<Rightarrow> gerr option" where
  "CheckSpoolDir t spool root jobID taskID =
     (if \<not> is_abs spool \<or> Clean spool \<noteq> spool \<or> contains spool dotdot \<or>
         \<not> prefix (root @ [SLASH]) spool
      then Some (Errorf ''invalid SGE_JOB_SPOOL_DIR %q'' [S spool])
      else
        let task = (if taskID = [] \<or> taskID = ''undefined'' then ''1'' else taskID) in
        if path_base spool \<noteq> jobID @ CHR ''.'' # task \<or> path_base (path_dir spool) \<noteq> ''active_jobs''
        then Some (Errorf ''SGE_JOB_SPOOL_DIR %q is not the spool directory of job %s.%s''
          [S spool, S jobID, S task])
        else case EvalSymlinks t root of
          Inl e \<Rightarrow> Some (Wrapf ''resolve spool root: %w'' [] e)
        | Inr resolvedRoot \<Rightarrow>
            (case EvalSymlinks t spool of
               Inl e \<Rightarrow> Some (Wrapf ''resolve SGE_JOB_SPOOL_DIR: %w'' [] e)
             | Inr resolved \<Rightarrow>
                 if resolved \<noteq> resolvedRoot @ trim_prefix spool root
                 then Some (Errorf ''SGE_JOB_SPOOL_DIR %q contains a symbolic link'' [S spool])
                 else if Lstat t spool \<noteq> Some TDir
                 then Some (Errorf ''SGE_JOB_SPOOL_DIR %q is not a directory'' [S spool])
                 else None))"

text \<open>The loop over the roots: the first that accepts, or else the error of the last.\<close>

fun check_roots :: "tree \<Rightarrow> string \<Rightarrow> string \<Rightarrow> string \<Rightarrow> gerr option \<Rightarrow> string list \<Rightarrow> gerr option" where
  "check_roots t spool jobID taskID err [] = err"
| "check_roots t spool jobID taskID err (root # roots) =
     (case CheckSpoolDir t spool root jobID taskID of
        None \<Rightarrow> None
      | Some e \<Rightarrow> check_roots t spool jobID taskID (Some e) roots)"

subsection \<open>The environment\<close>

definition loader_key :: "string \<Rightarrow> bool" where
  "loader_key key = (prefix ''LD_'' key \<or> key = ''GLIBC_TUNABLES'')"

definition env_key :: "string \<Rightarrow> string" where
  "env_key kv = fst (cut (CHR ''='') kv)"

definition CheckLoaderEnv :: "string list \<Rightarrow> gerr option" where
  "CheckLoaderEnv environ =
     (case find (\<lambda>kv. loader_key (env_key kv)) environ of
        None \<Rightarrow> None
      | Some kv \<Rightarrow> Some (JobError (Errorf ''refusing to run: %s is set'' [S (env_key kv)])))"

definition TrustedPath :: string where
  "TrustedPath = ''/usr/sbin:/usr/bin:/sbin:/bin''"

definition hookUserHome :: "host \<Rightarrow> string" where
  "hookUserHome h = (case home h of
     None \<Rightarrow> ''/'' | Some dir \<Rightarrow> if is_abs dir then dir else ''/'')"

text \<open>The fixed part both functions append.\<close>

definition fixed_env :: "host \<Rightarrow> string list" where
  "fixed_env h = [''PATH='' @ TrustedPath, ''HOME='' @ hookUserHome h, ''LANG=C'', ''LC_ALL=C'']"

definition env_values :: "string list \<Rightarrow> (string \<times> string) list" where
  "env_values environ = foldl (\<lambda>m kv. case cut (CHR ''='') kv of
     (key, value, ok) \<Rightarrow> if ok then AList.update key value m else m) [] environ"

definition env_get :: "(string \<times> string) list \<Rightarrow> string \<Rightarrow> string" where
  "env_get m key = (case map_of m key of Some v \<Rightarrow> v | None \<Rightarrow> [])"

definition LaunchEnv :: "host \<Rightarrow> string list \<Rightarrow> LaunchSettings \<Rightarrow> gerr + string list" where
  "LaunchEnv h environ s =
     (case CheckLoaderEnv environ of Some e \<Rightarrow> Inl e | None \<Rightarrow>
      (case validate s of Some e \<Rightarrow> Inl e | None \<Rightarrow>
        let m = env_values environ;
            jobID = env_get m ''JOB_ID''; taskID = env_get m ''SGE_TASK_ID'' in
        if \<not> digits jobID then Inl (JobError (Errorf ''invalid JOB_ID'' []))
        else if taskID \<noteq> [] \<and> \<not> taskPattern taskID then Inl (JobError (Errorf ''invalid SGE_TASK_ID'' []))
        else
          let spool = env_get m ''SGE_JOB_SPOOL_DIR'';
              roots = (if SpoolRoots s = [] then [SGERoot s] else SpoolRoots s) in
          case check_roots (tree h) spool jobID taskID None roots of
            Some e \<Rightarrow> Inl (JobError e)
          | None \<Rightarrow>
              let tz = env_get m ''TZ'' in
              Inr ([''JOB_ID='' @ jobID, ''SGE_JOB_SPOOL_DIR='' @ spool,
                    ''SGE_ROOT='' @ SGERoot s, ''SGE_CELL='' @ SGECell s]
                @ (if taskID \<noteq> [] then [''SGE_TASK_ID='' @ taskID] else [])
                @ (if QmasterPort s \<noteq> [] then [''SGE_QMASTER_PORT='' @ QmasterPort s] else [])
                @ (if ExecdPort s \<noteq> [] then [''SGE_EXECD_PORT='' @ ExecdPort s] else [])
                @ (if tzPattern tz \<and> \<not> contains tz dotdot then [''TZ='' @ tz] else [])
                @ fixed_env h)))"

fun clean_values :: "string list \<Rightarrow> (string \<times> string) list \<Rightarrow> gerr + (string \<times> string) list" where
  "clean_values [] m = Inr m"
| "clean_values (kv # environ) m =
     (case cut (CHR ''='') kv of
        (key, value, ok) \<Rightarrow>
          (case trustedEnv key of
             None \<Rightarrow> clean_values environ m
           | Some pattern \<Rightarrow>
               if \<not> ok then clean_values environ m
               else if \<not> pattern value \<or> contains value dotdot
               then Inl (Errorf ''unexpected value for %s'' [S key])
               else clean_values environ (AList.update key value m)))"

definition CleanEnv :: "host \<Rightarrow> string list \<Rightarrow> gerr + string list" where
  "CleanEnv h environ =
     (case clean_values environ [] of
        Inl e \<Rightarrow> Inl e
      | Inr m \<Rightarrow> Inr (map (\<lambda>(key, value). key @ CHR ''='' # value) m @ fixed_env h))"

fun set_all :: "string list \<Rightarrow> 'q world \<Rightarrow> gerr option \<times> 'q world" where
  "set_all [] w = (None, w)"
| "set_all (kv # env) w =
     (case cut (CHR ''='') kv of
        (key, value, ok) \<Rightarrow>
          (case setenv key value w of
             (Some e, w) \<Rightarrow> (Some (Wrapf ''setenv %s: %w'' [S key] e), w)
           | (None, w) \<Rightarrow> set_all env w))"

text \<open>\<open>environ\<close> is what \<open>os.Environ\<close> gives in both calls.\<close>

definition ResetProcessEnv :: "host \<Rightarrow> string list \<Rightarrow> 'q world \<Rightarrow> gerr option \<times> 'q world" where
  "ResetProcessEnv h environ w =
     (case CheckLoaderEnv environ of
        Some e \<Rightarrow> (Some e, w)
      | None \<Rightarrow>
          (case CleanEnv h environ of
             Inl e \<Rightarrow> (Some (JobError e), w)
           | Inr env \<Rightarrow> set_all env (clearenv w)))"

subsection \<open>What an accepted spool directory is\<close>

definition job_dir :: "string \<Rightarrow> string \<Rightarrow> string" where
  "job_dir jobID taskID =
     jobID @ CHR ''.'' # (if taskID = [] \<or> taskID = ''undefined'' then ''1'' else taskID)"

lemma abs_path_not_Nil [simp]: "abs_path es \<noteq> []"
  by (simp add: abs_path_def)

lemma abs_path_two:
  assumes "\<forall>e \<in> set es. normal_elem e" "path_base (abs_path es) = b" "path_base (path_dir (abs_path es)) = a"
    and "b \<noteq> [SLASH]" "a \<noteq> [SLASH]"
  obtains fs where "es = fs @ [a, b]"
proof -
  have root: "path_base (abs_path []) = [SLASH]" by code_simp
  obtain gs y where g: "es = gs @ [y]" using assms(2,4) root by (cases es rule: rev_cases) auto
  have y: "y = b" using assms(1,2) g by (simp add: path_base_abs)
  have d: "path_dir (abs_path es) = abs_path gs" using assms(1) g path_dir_abs by simp
  obtain fs x where f: "gs = fs @ [x]" using assms(3,5) d root by (cases gs rule: rev_cases) auto
  have "x = a" using assms(1,3) d f g by (simp add: path_base_abs)
  with f g y that [of fs] show thesis by simp
qed

lemma CheckSpoolDir_None:
  assumes "CheckSpoolDir t spool root job task = None" "is_abs root" "Clean root = root"
  obtains rs fs es rr where
    "root = abs_path rs" "spool = abs_path (rs @ fs)" "fs \<noteq> []" "\<forall>e \<in> set (rs @ fs). normal_elem e"
    "rs @ fs = es @ [''active_jobs'', job_dir job task]"
    "EvalSymlinks_elems t root = Inr rr" "dir_path t (rr @ fs)" "\<not> contains spool dotdot"
proof -
  from assms(1) have 1: "is_abs spool" "Clean spool = spool" "\<not> contains spool dotdot"
    "prefix (root @ [SLASH]) spool"
    by (auto simp: CheckSpoolDir_def split: if_splits)
  from assms(1) 1 have 2: "path_base spool = job_dir job task" "path_base (path_dir spool) = ''active_jobs''"
    by (auto simp: CheckSpoolDir_def job_dir_def Let_def split: if_splits)
  from assms(1) 1 2 obtain rr rd where 3: "EvalSymlinks_elems t root = Inr rr"
    "EvalSymlinks_elems t spool = Inr rd" "abs_path rd = abs_path rr @ trim_prefix spool root"
    "Lstat t spool = Some TDir"
    by (auto simp: CheckSpoolDir_def EvalSymlinks_Inr job_dir_def Let_def
        split: if_splits sum.splits)
  obtain ss where ss: "spool = abs_path ss" "\<forall>e \<in> set ss. normal_elem e"
    using clean_abs_pathE [OF 1(1,2)] .
  obtain rs where rs: "root = abs_path rs" "\<forall>e \<in> set rs. normal_elem e"
    using clean_abs_pathE [OF assms(2,3)] .
  obtain fs where fs: "ss = rs @ fs" "fs \<noteq> []" "rs \<noteq> []" "abs_path ss = abs_path rs @ SLASH # join SLASH fs"
    using abs_path_prefixE [OF ss(2) rs(2)] 1(4) ss(1) rs(1) by auto
  have "job_dir job task \<noteq> [SLASH]"
  proof
    assume "job_dir job task = [SLASH]"
    then have "CHR ''.'' \<in> {SLASH}" by (auto simp: job_dir_def append_eq_Cons_conv)
    then show False by simp
  qed
  then obtain es where es: "ss = es @ [''active_jobs'', job_dir job task]"
    using abs_path_two [OF ss(2)] 2 ss(1) by auto
  have tp: "trim_prefix spool root = SLASH # join SLASH fs"
    using ss(1) rs(1) fs(4) by (simp add: trim_prefix_append)
  have rd: "link_free t rd" and rr: "link_free t rr" using 3 EvalSymlinks_resolved by blast+
  have "rr \<noteq> []"
  proof
    assume "rr = []"
    with 3(3) tp have e: "abs_path rd = SLASH # SLASH # join SLASH fs" by (simp add: abs_path_def)
    then have "join SLASH rd = SLASH # join SLASH fs" by (simp add: abs_path_def)
    then obtain c cs where c: "rd = c # cs" by (cases rd) auto
    then have "normal_elem c" using resolved_normal [OF rd] by simp
    then have "c \<noteq> []" "SLASH \<notin> set c" by (simp_all add: normal_elem_def)
    then have "hd c \<noteq> SLASH" using hd_in_set [of c] by metis
    moreover have "hd (join SLASH rd) = hd c" using c \<open>c \<noteq> []\<close> by (cases cs) (simp_all only: join.simps hd_append2 HOL.simp_thms not_False_eq_True)
    ultimately show False using \<open>join SLASH rd = SLASH # join SLASH fs\<close>
      by (metis list.sel(1))
  qed
  then have "abs_path rd = abs_path (rr @ fs)"
    using 3(3) tp fs(2) by (simp add: abs_path_append)
  then have rdf: "rd = rr @ fs"
    using abs_path_inject [of rd "rr @ fs"] resolved_normal [OF rd] resolved_normal [OF rr] ss(2) fs(1)
    by auto
  let ?l = "job_dir job task"
  have n: "\<forall>x \<in> set (es @ [''active_jobs'']). normal_elem x" "normal_elem ?l" using ss(2) es by auto
  have "Lstat t (abs_path ((es @ [''active_jobs'']) @ [?l])) = Some TDir" using 3(4) ss(1) es by simp
  then obtain d where d: "walk t kernel_links [] (es @ [''active_jobs'']) = Inr d"
    "lookup t (d @ [?l]) = Some TDir"
    using Lstat_abs [OF n] by (auto split: sum.splits)
  have "walk t max_links [] ((es @ [''active_jobs'']) @ [?l]) = Inr rd"
    using 3(2) EvalSymlinks_elems_abs [OF ss(2)] ss(1) es by simp
  from walk_snoc [OF this d(1) _ n(2) d(2)] have "rd = d @ [?l]"
    by (simp add: max_links_def kernel_links_def)
  then have "dir_path t rd"
    using d(2) rd resolved_dir_path [of t d ?l "[]"] n(2) by simp
  with that [of rs fs es rr] rs ss fs es rdf 1(3) 3(1) show thesis by auto
qed

lemma CheckSpoolDir_accepts:
  assumes "\<forall>e \<in> set (rs @ fs). normal_elem e" "rs \<noteq> []" "fs \<noteq> []"
    and "rs @ fs = es @ [''active_jobs'', job_dir job task]"
    and "walk t kernel_links [] rs = Inr rr" "rr \<noteq> []" "dir_path t (rr @ fs)"
    and "\<not> contains (abs_path (rs @ fs)) dotdot"
  shows "CheckSpoolDir t (abs_path (rs @ fs)) (abs_path rs) job task = None"
proof -
  let ?s = "abs_path (rs @ fs)" and ?l = "job_dir job task"
  have s: "?s = abs_path rs @ SLASH # join SLASH fs" using assms(2,3) by (simp add: abs_path_append)
  have n: "\<forall>x \<in> set (es @ [''active_jobs'']). normal_elem x" "normal_elem ?l" "\<forall>e \<in> set rs. normal_elem e"
    using assms(1) assms(1) [unfolded assms(4)] by simp_all
  have se: "?s = abs_path ((es @ [''active_jobs'']) @ [?l])" using assms(4) by simp
  have b: "path_base ?s = ?l" "path_dir ?s = abs_path (es @ [''active_jobs''])"
    unfolding se using n by (simp_all only: path_base_abs path_dir_abs)
  have b2: "path_base (path_dir ?s) = ''active_jobs''" unfolding b(2) by (simp add: path_base_abs)
  have dr: "dir_path t rr" using assms(7) by (rule dir_path_prefix)
  then have top: "rr = [] \<or> lookup t rr = Some TDir" by (cases rr rule: rev_cases) auto
  have er: "EvalSymlinks_elems t (abs_path rs) = Inr rr"
    using EvalSymlinks_elems_abs [OF n(3)] walk_mono [OF assms(5), of max_links]
    by (simp add: kernel_links_def max_links_def)
  have go: "walk t k [] (rs @ gs) = Inr (rr @ gs)" if "kernel_links \<le> k" "dir_path t (rr @ gs)" for k gs
  proof -
    have "walk t k [] rs = Inr rr" using assms(5) that(1) by (rule walk_mono)
    then obtain k' where "walk t k [] (rs @ gs) = walk t k' rr gs" using top by (rule walk_then)
    also have "\<dots> = Inr (rr @ gs)" using walk_dirs [of t rr gs k' "[]"] that(2) by simp
    finally show ?thesis .
  qed
  have "EvalSymlinks_elems t ?s = Inr (rr @ fs)"
    using EvalSymlinks_elems_abs [OF assms(1)] go [of max_links fs] assms(7)
    by (simp add: kernel_links_def max_links_def)
  moreover have "Lstat t ?s = Some TDir"
  proof -
    have l: "butlast fs @ [last fs] = fs" using assms(3) by simp
    then have "(rs @ butlast fs) @ [last fs] = (es @ [''active_jobs'']) @ [?l]" using assms(4) by simp
    then have e: "es @ [''active_jobs''] = rs @ butlast fs" "last fs = ?l" by (metis butlast_snoc, metis last_snoc)
    have d: "dir_path t ((rr @ butlast fs) @ [?l])" using assms(7) l e(2) by simp
    then have "walk t kernel_links [] (es @ [''active_jobs'']) = Inr (rr @ butlast fs)"
      using go [of kernel_links "butlast fs"] e(1) by (simp del: append_assoc)
    moreover have "lookup t ((rr @ butlast fs) @ [?l]) = Some TDir"
      using d unfolding dir_path_snoc by blast
    ultimately show ?thesis unfolding se Lstat_abs [OF n(1,2)] by simp
  qed
  moreover have "abs_path (rr @ fs) = abs_path rr @ trim_prefix ?s (abs_path rs)"
    using assms(3,6) s by (simp add: abs_path_append trim_prefix_append)
  moreover have "prefix (abs_path rs @ [SLASH]) ?s" using s by (simp add: prefix_def)
  ultimately show ?thesis
    using b(1) b2 er assms(8) Clean_abs_path [OF assms(1)]
    by (simp add: CheckSpoolDir_def is_abs_abs_path EvalSymlinks_def job_dir_def Let_def)
qed

subsection \<open>Environments as maps\<close>

definition env_of_list :: "string list \<Rightarrow> (string \<rightharpoonup> string)" where
  "env_of_list environ = foldl env_add Map.empty environ"

definition kv :: "string \<times> string \<Rightarrow> string" where
  "kv p = fst p @ CHR ''='' # snd p"

lemma env_add_kv: "CHR ''='' \<notin> set (fst p) \<Longrightarrow> env_add f (kv p) = f(fst p \<mapsto> snd p)"
  by (simp add: env_add_def kv_def cut_at)

lemma env_add_kvs:
  "\<forall>p \<in> set ps. CHR ''='' \<notin> set (fst p) \<Longrightarrow> foldl env_add f (map kv ps) = f ++ map_of (rev ps)"
  by (induction ps arbitrary: f) (simp_all add: env_add_kv map_add_def fun_eq_iff split: option.split)

lemma env_values_map: "map_of (env_values environ) = env_of_list environ"
proof -
  have "map_of (foldl (\<lambda>m kv. case cut (CHR ''='') kv of
      (key, value, ok) \<Rightarrow> if ok then AList.update key value m else m) m environ) =
      foldl env_add (map_of m) environ" for m
    by (induction environ arbitrary: m)
      (auto simp: env_add_def update_conv' split: prod.split)
  from this [of "[]"] show ?thesis by (simp add: env_values_def env_of_list_def)
qed

lemma env_get_map: "env_get (env_values environ) k = (case env_of_list environ k of Some v \<Rightarrow> v | None \<Rightarrow> [])"
  by (simp add: env_get_def env_values_map)

subsection \<open>The patterns exclude the characters that matter\<close>

definition trusted_keys :: "string list" where
  "trusted_keys = [''JOB_ID'', ''SGE_TASK_ID'', ''SGE_JOB_SPOOL_DIR'', ''SGE_ROOT'', ''SGE_CELL'',
     ''SGE_QMASTER_PORT'', ''SGE_EXECD_PORT'', ''TZ'']"

lemma trustedEnv_simps [simp]:
  "trustedEnv ''JOB_ID'' = Some digits" "trustedEnv ''SGE_TASK_ID'' = Some taskPattern"
  "trustedEnv ''SGE_JOB_SPOOL_DIR'' = Some dirPattern" "trustedEnv ''SGE_ROOT'' = Some dirPattern"
  "trustedEnv ''SGE_CELL'' = Some cellPattern" "trustedEnv ''SGE_QMASTER_PORT'' = Some digits"
  "trustedEnv ''SGE_EXECD_PORT'' = Some digits" "trustedEnv ''TZ'' = Some tzPattern"
  "trustedEnv ''PATH'' = None" "trustedEnv ''HOME'' = None" "trustedEnv ''LANG'' = None"
  "trustedEnv ''LC_ALL'' = None"
  by (simp_all add: trustedEnv_def)

lemma trustedEnv_dom: "trustedEnv k \<noteq> None \<longleftrightarrow> k \<in> set trusted_keys"
proof -
  have "map_of xs k \<noteq> None \<longleftrightarrow> k \<in> set (map fst xs)" for xs :: "(string \<times> (string \<Rightarrow> bool)) list"
    by (auto simp: map_of_eq_None_iff)
  then show ?thesis unfolding trustedEnv_def trusted_keys_def by simp
qed

lemma trusted_key_plain:
  "trustedEnv k \<noteq> None \<Longrightarrow> k \<noteq> [] \<and> CHR ''='' \<notin> set k \<and> NUL \<notin> set k \<and> \<not> loader_key k"
proof -
  have "list_all (\<lambda>k. k \<noteq> [] \<and> CHR ''='' \<notin> set k \<and> NUL \<notin> set k \<and> \<not> loader_key k) trusted_keys"
    by code_simp
  then show "trustedEnv k \<noteq> None \<Longrightarrow> ?thesis" unfolding trustedEnv_dom list_all_iff by blast
qed

lemma digits_chars: "digits s \<Longrightarrow> NUL \<notin> set s \<and> CHR ''.'' \<notin> set s \<and> SLASH \<notin> set s"
proof -
  have "\<not> is_digit NUL" "\<not> is_digit (CHR ''.'')" "\<not> is_digit SLASH" by code_simp+
  then show "digits s \<Longrightarrow> ?thesis" unfolding digits_def list_all_iff by blast
qed

lemma pattern_no_NUL: "trustedEnv k = Some p \<Longrightarrow> p v \<Longrightarrow> NUL \<notin> set v"
proof -
  assume "trustedEnv k = Some p" "p v"
  then have "p \<in> {digits, taskPattern, dirPattern, cellPattern, tzPattern}"
    by (auto simp: trustedEnv_def split: if_splits)
  moreover have "\<not> is_alnum NUL" "NUL \<notin> set ''._/-''" "NUL \<notin> set ''._-''" "NUL \<notin> set ''_+:/.-''"
    "NUL \<notin> set ''undefined''" by code_simp+
  ultimately show ?thesis using \<open>p v\<close> digits_chars
    by (auto simp: taskPattern_def dirPattern_def cellPattern_def tzPattern_def list_all_iff split: list.splits)
qed

lemma contains_dot: "contains s dotdot \<Longrightarrow> CHR ''.'' \<in> set s"
  by (auto simp: contains_iff_sublist dotdot_def)

subsection \<open>CleanEnv\<close>

definition bad_entry :: "string \<Rightarrow> bool" where
  "bad_entry e = (case cut (CHR ''='') e of (key, value, ok) \<Rightarrow>
     ok \<and> (case trustedEnv key of None \<Rightarrow> False | Some p \<Rightarrow> \<not> p value \<or> contains value dotdot))"

definition good_values :: "(string \<times> string) list \<Rightarrow> bool" where
  "good_values m = (distinct (map fst m) \<and>
     (\<forall>(k, v) \<in> set m. \<exists>p. trustedEnv k = Some p \<and> p v \<and> \<not> contains v dotdot))"

lemma good_values_update:
  "good_values m \<Longrightarrow> trustedEnv k = Some p \<Longrightarrow> p v \<Longrightarrow> \<not> contains v dotdot \<Longrightarrow>
   good_values (AList.update k v m)"
proof -
  assume g: "good_values m" and t: "trustedEnv k = Some p" "p v" "\<not> contains v dotdot"
  have "set (AList.update k v m) \<subseteq> insert (k, v) (set m)"
    by (induction m) auto
  moreover have "distinct (map fst (AList.update k v m))"
    using g by (simp add: good_values_def distinct_update)
  ultimately show ?thesis using g t unfolding good_values_def by blast
qed

lemma clean_values_bad:
  "\<exists>e \<in> set environ. bad_entry e \<Longrightarrow> \<exists>err. clean_values environ m = Inl err"
  by (induction environ arbitrary: m) (auto simp: bad_entry_def split: prod.splits option.splits)

lemma clean_values_ok:
  assumes "\<forall>e \<in> set environ. \<not> bad_entry e" "good_values m"
  obtains m' where "clean_values environ m = Inr m'" "good_values m'"
    "map_of m' = (\<lambda>k. if trustedEnv k \<noteq> None then foldl env_add (map_of m) environ k else None)"
proof -
  have "\<exists>m'. clean_values environ m = Inr m' \<and> good_values m' \<and>
    map_of m' = (\<lambda>k. if trustedEnv k \<noteq> None then foldl env_add f environ k else None)"
    if "\<forall>e \<in> set environ. \<not> bad_entry e" "good_values m"
      "map_of m = (\<lambda>k. if trustedEnv k \<noteq> None then f k else None)" for f
    using that
  proof (induction environ arbitrary: m f)
    case (Cons e environ)
    obtain k v ok where c: "cut (CHR ''='') e = (k, v, ok)" by (metis prod.exhaust)
    show ?case
    proof (cases "trustedEnv k \<noteq> None \<and> ok")
      case True
      then obtain p where p: "trustedEnv k = Some p" by blast
      with Cons.prems(1) c True have v: "p v" "\<not> contains v dotdot" by (auto simp: bad_entry_def)
      have g: "good_values (AList.update k v m)" using good_values_update Cons.prems(2) p v by blast
      have m: "map_of (AList.update k v m) = (\<lambda>x. if trustedEnv x \<noteq> None then env_add f e x else None)"
        using Cons.prems(3) c True p by (auto simp: update_conv' env_add_def)
      from Cons.IH [OF _ g m] Cons.prems(1) c True p v show ?thesis
        by (auto cong: if_cong)
    next
      case False
      then have m: "map_of m = (\<lambda>x. if trustedEnv x \<noteq> None then env_add f e x else None)"
        using Cons.prems(3) c by (auto simp: env_add_def fun_eq_iff)
      from Cons.IH [OF _ Cons.prems(2) m] Cons.prems(1) c False show ?thesis
        by (auto split: option.splits cong: if_cong)
    qed
  qed (simp cong: if_cong)
  moreover have "map_of m = (\<lambda>k. if trustedEnv k \<noteq> None then map_of m k else None)"
  proof
    fix k
    show "map_of m k = (if trustedEnv k \<noteq> None then map_of m k else None)"
      using assms(2) map_of_SomeD [of m k] by (cases "map_of m k") (auto simp: good_values_def)
  qed
  ultimately show thesis using assms that by blast
qed

subsection \<open>Resetting the process environment\<close>

definition fixed_pairs :: "host \<Rightarrow> (string \<times> string) list" where
  "fixed_pairs h = [(''PATH'', TrustedPath), (''HOME'', hookUserHome h), (''LANG'', ''C''), (''LC_ALL'', ''C'')]"

lemma fixed_env_kv: "fixed_env h = map kv (fixed_pairs h)"
  by (simp add: fixed_env_def fixed_pairs_def kv_def)

lemma set_all_kvs:
  "\<forall>p \<in> set ps. setenv_ok (fst p) (snd p) \<Longrightarrow>
   set_all (map kv ps) w = (None, w\<lparr>penv := penv w ++ map_of (rev ps)\<rparr>)"
proof (induction ps arbitrary: w)
  case (Cons p ps)
  then have ok: "setenv_ok (fst p) (snd p)" by simp
  then have "cut (CHR ''='') (kv p) = (fst p, snd p, True)"
    by (simp add: kv_def cut_at setenv_ok_def)
  with Cons ok show ?case
    by (simp add: setenv_def map_add_def fun_eq_iff split: option.split)
qed simp

definition clean_env :: "host \<Rightarrow> string list \<Rightarrow> (string \<rightharpoonup> string)" where
  "clean_env h environ k =
     (case map_of (fixed_pairs h) k of
        Some v \<Rightarrow> Some v
      | None \<Rightarrow> if k \<in> set trusted_keys then env_of_list environ k else None)"

lemma hookUserHome_ok: "\<forall>d. home h = Some d \<longrightarrow> NUL \<notin> set d \<Longrightarrow> NUL \<notin> set (hookUserHome h)"
  by (auto simp: hookUserHome_def split: option.splits)

lemma fixed_pairs_ok:
  "NUL \<notin> set (hookUserHome h) \<Longrightarrow> \<forall>p \<in> set (fixed_pairs h). setenv_ok (fst p) (snd p)"
proof -
  have "NUL \<notin> set TrustedPath" by code_simp
  then show "NUL \<notin> set (hookUserHome h) \<Longrightarrow> ?thesis"
    by (auto simp: fixed_pairs_def setenv_ok_def)
qed

lemma CheckLoaderEnv_None: "CheckLoaderEnv environ = None \<longleftrightarrow> (\<forall>e \<in> set environ. \<not> loader_key (env_key e))"
  by (auto simp: CheckLoaderEnv_def find_None_iff find_Some_iff split: option.split)

lemma CheckLoaderEnv_Some: "CheckLoaderEnv environ = Some e \<Longrightarrow> ExitCode (Some e) = ExitJobError"
  by (auto simp: CheckLoaderEnv_def err_simps split: option.splits)

lemma good_setenv: "good_values m \<Longrightarrow> p \<in> set m \<Longrightarrow> setenv_ok (fst p) (snd p)"
  using trusted_key_plain pattern_no_NUL by (fastforce simp: good_values_def setenv_ok_def)

lemma CleanEnv_good:
  assumes "\<forall>e \<in> set environ. \<not> bad_entry e"
  obtains ps where "CleanEnv h environ = Inr (map kv ps)" "map_of (rev ps) = clean_env h environ"
    "\<forall>p \<in> set ps. CHR ''='' \<notin> set (fst p)"
    "NUL \<notin> set (hookUserHome h) \<Longrightarrow> \<forall>p \<in> set ps. setenv_ok (fst p) (snd p)"
proof -
  have "good_values []" by (simp add: good_values_def)
  then obtain m where m: "clean_values environ [] = Inr m" "good_values m"
    "map_of m = (\<lambda>k. if trustedEnv k \<noteq> None then foldl env_add (map_of []) environ k else None)"
    using clean_values_ok [OF assms] by blast
  note mm = m(3) [unfolded map_of.simps, folded env_of_list_def]
  let ?ps = "m @ fixed_pairs h"
  have "CleanEnv h environ = Inr (map kv ?ps)"
    by (simp add: CleanEnv_def m(1) fixed_env_kv) (simp add: kv_def case_prod_beta)
  moreover have "map_of (rev ?ps) = clean_env h environ"
  proof
    fix k
    have "map_of (rev (fixed_pairs h)) = map_of (fixed_pairs h)"
      by (rule ext) (simp add: fixed_pairs_def)
    moreover have "map_of (rev m) = map_of m" using m(2) map_of_rev by (auto simp: good_values_def)
    ultimately show "map_of (rev ?ps) k = clean_env h environ k"
      using mm trustedEnv_dom [of k] by (simp add: clean_env_def map_add_def split: option.split)
  qed
  moreover have "\<forall>p \<in> set ?ps. CHR ''='' \<notin> set (fst p)"
    using good_setenv [OF m(2)] by (auto simp: setenv_ok_def fixed_pairs_def)
  moreover have "\<forall>p \<in> set ?ps. setenv_ok (fst p) (snd p)" if "NUL \<notin> set (hookUserHome h)"
    using good_setenv [OF m(2)] fixed_pairs_ok [OF that] by auto
  ultimately show thesis using that by blast
qed

lemma ResetProcessEnv_ok:
  assumes "\<forall>e \<in> set environ. \<not> loader_key (env_key e)" "\<forall>e \<in> set environ. \<not> bad_entry e"
    and "NUL \<notin> set (hookUserHome h)"
  shows "ResetProcessEnv h environ w = (None, w\<lparr>penv := clean_env h environ\<rparr>)"
proof -
  obtain ps where ps: "CleanEnv h environ = Inr (map kv ps)" "map_of (rev ps) = clean_env h environ"
    "\<forall>p \<in> set ps. setenv_ok (fst p) (snd p)"
    using CleanEnv_good [OF assms(2), of h] assms(3) by metis
  have "CheckLoaderEnv environ = None" using assms(1) by (simp add: CheckLoaderEnv_None)
  then show ?thesis using ps set_all_kvs [OF ps(3), of "clearenv w"]
    by (simp add: ResetProcessEnv_def) (simp add: clearenv_def)
qed

subsection \<open>The launcher's environment\<close>

definition launch_pairs :: "host \<Rightarrow> (string \<rightharpoonup> string) \<Rightarrow> LaunchSettings \<Rightarrow> (string \<times> string) list" where
  "launch_pairs h f s =
     (let get = (\<lambda>k. case f k of Some v \<Rightarrow> v | None \<Rightarrow> []) in
      [(''JOB_ID'', get ''JOB_ID''), (''SGE_JOB_SPOOL_DIR'', get ''SGE_JOB_SPOOL_DIR''),
       (''SGE_ROOT'', SGERoot s), (''SGE_CELL'', SGECell s)]
      @ filter (\<lambda>p. snd p \<noteq> [])
          [(''SGE_TASK_ID'', get ''SGE_TASK_ID''), (''SGE_QMASTER_PORT'', QmasterPort s),
           (''SGE_EXECD_PORT'', ExecdPort s)]
      @ filter (\<lambda>p. tzPattern (snd p) \<and> \<not> contains (snd p) dotdot) [(''TZ'', get ''TZ'')]
      @ fixed_pairs h)"

lemma kv_lit: "kv (k, v) = k @ CHR ''='' # v"
  by (simp add: kv_def)

lemma check_roots_None:
  "check_roots t spool job task err roots = None \<Longrightarrow> err \<noteq> None \<or> roots \<noteq> [] \<Longrightarrow>
   \<exists>root \<in> set roots. CheckSpoolDir t spool root job task = None"
  by (induction roots arbitrary: err) (auto split: option.splits)

lemma LaunchEnv_Inr:
  assumes "LaunchEnv h environ s = Inr out"
  defines "get \<equiv> (\<lambda>k. case env_of_list environ k of Some v \<Rightarrow> v | None \<Rightarrow> [])"
  shows "out = map kv (launch_pairs h (env_of_list environ) s)"
    "\<forall>e \<in> set environ. \<not> loader_key (env_key e)" "validate s = None"
    "digits (get ''JOB_ID'')" "get ''SGE_TASK_ID'' = [] \<or> taskPattern (get ''SGE_TASK_ID'')"
    "\<exists>root \<in> set (if SpoolRoots s = [] then [SGERoot s] else SpoolRoots s).
       CheckSpoolDir (tree h) (get ''SGE_JOB_SPOOL_DIR'') root (get ''JOB_ID'') (get ''SGE_TASK_ID'') = None"
proof -
  have g: "env_get (env_values environ) k = get k" for k
    by (simp add: get_def env_get_map)
  note unf = LaunchEnv_def Let_def g
  from assms(1) show "\<forall>e \<in> set environ. \<not> loader_key (env_key e)" "validate s = None"
    "digits (get ''JOB_ID'')" "get ''SGE_TASK_ID'' = [] \<or> taskPattern (get ''SGE_TASK_ID'')"
    by (auto simp: unf CheckLoaderEnv_None [symmetric] split: option.splits if_splits)
  from assms(1) have "check_roots (tree h) (get ''SGE_JOB_SPOOL_DIR'') (get ''JOB_ID'') (get ''SGE_TASK_ID'') None
      (if SpoolRoots s = [] then [SGERoot s] else SpoolRoots s) = None"
    by (auto simp: unf split: option.splits if_splits)
  then show "\<exists>root \<in> set (if SpoolRoots s = [] then [SGERoot s] else SpoolRoots s).
       CheckSpoolDir (tree h) (get ''SGE_JOB_SPOOL_DIR'') root (get ''JOB_ID'') (get ''SGE_TASK_ID'') = None"
    by (rule check_roots_None) simp
  from assms(1) show "out = map kv (launch_pairs h (env_of_list environ) s)"
    unfolding LaunchEnv_def Let_def g
    by (auto simp: launch_pairs_def Let_def get_def [symmetric] kv_lit fixed_env_kv
        split: option.splits if_splits)
qed

lemma launch_pairs_keys:
  "distinct (map fst (launch_pairs h f s))"
  "set (map fst (launch_pairs h f s)) \<subseteq> set trusted_keys \<union> {''PATH'', ''HOME'', ''LANG'', ''LC_ALL''}"
  by (auto simp: launch_pairs_def Let_def fixed_pairs_def trusted_keys_def)

lemma launch_pairs_plain: "\<forall>p \<in> set (launch_pairs h f s). CHR ''='' \<notin> set (fst p) \<and> \<not> loader_key (fst p)"
proof -
  have "list_all (\<lambda>k. CHR ''='' \<notin> set k \<and> \<not> loader_key k)
      (trusted_keys @ [''PATH'', ''HOME'', ''LANG'', ''LC_ALL''])" by code_simp
  then show ?thesis using launch_pairs_keys(2) [of h f s] by (fastforce simp: list_all_iff)
qed

lemma env_of_kvs:
  assumes "distinct (map fst ps)" "\<forall>p \<in> set ps. CHR ''='' \<notin> set (fst p)"
  shows "env_of_list (map kv ps) = map_of ps"
  using env_add_kvs [OF assms(2), of Map.empty] map_of_rev [OF assms(1)] by (simp add: env_of_list_def)

lemma LaunchEnv_map:
  "LaunchEnv h environ s = Inr out \<Longrightarrow> env_of_list out = map_of (launch_pairs h (env_of_list environ) s)"
  using LaunchEnv_Inr(1) [of h environ s out] launch_pairs_plain
  by (simp add: env_of_kvs launch_pairs_keys)

lemma bad_entry_kv: "CHR ''='' \<notin> set (fst p) \<Longrightarrow> bad_entry (kv p) =
  (case trustedEnv (fst p) of None \<Rightarrow> False | Some q \<Rightarrow> \<not> q (snd p) \<or> contains (snd p) dotdot)"
  by (simp add: bad_entry_def kv_def cut_at)

lemma digits_no_dots: "digits v \<Longrightarrow> \<not> contains v dotdot"
  using digits_chars contains_dot by blast

lemma taskPattern_no_dots: "taskPattern v \<Longrightarrow> \<not> contains v dotdot"
proof -
  have "\<not> contains ''undefined'' dotdot" by code_simp
  then show "taskPattern v \<Longrightarrow> ?thesis" using digits_no_dots by (auto simp: taskPattern_def)
qed

lemma validate_None:
  "validate s = None \<Longrightarrow> SGERoot s \<noteq> [] \<and> cellPattern (SGECell s) \<and>
   (\<forall>d \<in> set (SGERoot s # SpoolRoots s). is_abs d \<and> Clean d = d) \<and>
   (\<forall>p \<in> {QmasterPort s, ExecdPort s}. p \<noteq> [] \<longrightarrow> digits p)"
  by (auto simp: validate_def find_None_iff split: if_splits option.splits)

lemma bad_launch_entry:
  assumes "LaunchEnv h environ s = Inr out"
  shows "(\<exists>e \<in> set out. bad_entry e) \<longleftrightarrow>
    (let spool = (case env_of_list environ ''SGE_JOB_SPOOL_DIR'' of Some v \<Rightarrow> v | None \<Rightarrow> []) in
     \<not> dirPattern spool \<or> \<not> dirPattern (SGERoot s) \<or> contains (SGERoot s) dotdot \<or>
     contains (SGECell s) dotdot)"
proof -
  let ?get = "\<lambda>k. case env_of_list environ k of Some v \<Rightarrow> v | None \<Rightarrow> []"
  note l = LaunchEnv_Inr [OF assms]
  note v = validate_None [OF l(3)]
  have sp: "\<not> contains (?get ''SGE_JOB_SPOOL_DIR'') dotdot"
    using l(6) by (auto simp: CheckSpoolDir_def split: if_splits)
  have "bad_entry (kv p) =
      (case trustedEnv (fst p) of None \<Rightarrow> False | Some q \<Rightarrow> \<not> q (snd p) \<or> contains (snd p) dotdot)"
    if "p \<in> set (launch_pairs h (env_of_list environ) s)" for p
    using that launch_pairs_plain by (intro bad_entry_kv) blast
  then have "(\<exists>e \<in> set out. bad_entry e) \<longleftrightarrow>
      (\<exists>p \<in> set (launch_pairs h (env_of_list environ) s).
         case trustedEnv (fst p) of None \<Rightarrow> False | Some q \<Rightarrow> \<not> q (snd p) \<or> contains (snd p) dotdot)"
    unfolding l(1) by simp
  also have "\<dots> \<longleftrightarrow> (\<not> dirPattern (?get ''SGE_JOB_SPOOL_DIR'') \<or> \<not> dirPattern (SGERoot s) \<or>
      contains (SGERoot s) dotdot \<or> contains (SGECell s) dotdot)"
    using l(4,5) v sp digits_no_dots taskPattern_no_dots
    by (auto simp: launch_pairs_def Let_def fixed_pairs_def)
  finally show ?thesis by (simp add: Let_def)
qed

lemma CleanEnv_bad: "\<exists>e \<in> set environ. bad_entry e \<Longrightarrow> \<exists>err. CleanEnv h environ = Inl err"
  using clean_values_bad [of environ "[]"] by (auto simp: CleanEnv_def)

subsection \<open>Looking variables up in the launcher's environment\<close>

lemma launch_lookup:
  "(k, v) \<in> set (launch_pairs h f s) \<Longrightarrow> map_of (launch_pairs h f s) k = Some v"
  using launch_pairs_keys(1) by (rule map_of_is_SomeI)

lemma launch_lookup_absent:
  "\<forall>v. (k, v) \<notin> set (launch_pairs h f s) \<Longrightarrow> map_of (launch_pairs h f s) k = None"
  by (auto simp: map_of_eq_None_iff)

lemma launch_fixed:
  "(k, v) \<in> set (fixed_pairs h) \<Longrightarrow> map_of (launch_pairs h f s) k = Some v"
  by (rule launch_lookup) (simp add: launch_pairs_def Let_def)

lemma launch_task:
  "(case map_of (launch_pairs h f s) ''SGE_TASK_ID'' of Some v \<Rightarrow> v | None \<Rightarrow> []) =
   (case f ''SGE_TASK_ID'' of Some v \<Rightarrow> v | None \<Rightarrow> [])"
proof (cases "(case f ''SGE_TASK_ID'' of Some v \<Rightarrow> v | None \<Rightarrow> []) = []")
  case True
  then have "map_of (launch_pairs h f s) ''SGE_TASK_ID'' = None"
    by (intro launch_lookup_absent) (auto simp: launch_pairs_def Let_def fixed_pairs_def)
  then show ?thesis using True by simp
next
  case False
  then have "map_of (launch_pairs h f s) ''SGE_TASK_ID'' =
      Some (case f ''SGE_TASK_ID'' of Some v \<Rightarrow> v | None \<Rightarrow> [])"
    by (intro launch_lookup) (auto simp: launch_pairs_def Let_def)
  then show ?thesis by simp
qed

lemma launch_optional:
  assumes "map_of (launch_pairs h f s) k \<noteq> None" "k \<in> {''SGE_TASK_ID'', ''TZ''}"
  shows "map_of (launch_pairs h f s) k = f k"
proof -
  obtain v where v: "map_of (launch_pairs h f s) k = Some v" using assms(1) by blast
  then have "(k, v) \<in> set (launch_pairs h f s)" by (rule map_of_SomeD)
  moreover have "\<not> tzPattern []" by (simp add: tzPattern_def)
  ultimately have "f k = Some v" using assms(2)
    by (auto simp: launch_pairs_def Let_def fixed_pairs_def simp del: filter.simps split: option.splits)
  then show ?thesis using v by simp
qed

lemma launch_loader: "CheckLoaderEnv (map kv (launch_pairs h f s)) = None"
proof -
  have "env_key (kv p) = fst p" if "p \<in> set (launch_pairs h f s)" for p
    using that launch_pairs_plain [of h f s] by (simp add: env_key_def kv_def cut_at)
  then show ?thesis using launch_pairs_plain [of h f s] by (simp add: CheckLoaderEnv_None)
qed

lemma clean_env_launch:
  "env_of_list out = map_of (launch_pairs h f s) \<Longrightarrow> clean_env h out = env_of_list out"
proof
  fix k
  assume o: "env_of_list out = map_of (launch_pairs h f s)"
  show "clean_env h out k = env_of_list out k"
  proof (cases "map_of (fixed_pairs h) k")
    case (Some v)
    then show ?thesis using launch_fixed [OF map_of_SomeD] by (simp add: clean_env_def o)
  next
    case None
    then have "k \<notin> {''PATH'', ''HOME'', ''LANG'', ''LC_ALL''}"
      by (auto simp: fixed_pairs_def split: if_splits)
    then have "map_of (launch_pairs h f s) k = None" if "k \<notin> set trusted_keys"
      using that launch_pairs_keys(2) [of h f s] by (auto simp: map_of_eq_None_iff)
    then show ?thesis using None by (simp add: clean_env_def o)
  qed
qed

subsection \<open>What the environment of a hook promises\<close>

definition sample_tree :: tree where
  "sample_tree =
     [[''data''] \<mapsto> TDir, [''data'', ''spool''] \<mapsto> TDir, [''spool''] \<mapsto> TLink ''data/spool'',
      [''data'', ''spool'', ''active_jobs''] \<mapsto> TDir,
      [''data'', ''spool'', ''active_jobs'', ''5.1''] \<mapsto> TDir,
      [''data'', ''spool'', ''active_jobs'', ''6.1''] \<mapsto> TLink ''5.1'']"

definition sample_settings :: LaunchSettings where
  "sample_settings = \<lparr>SGERoot = ''/opt/ocs'', SGECell = ''default'', SpoolRoots = [''/spool''],
     QmasterPort = [], ExecdPort = ''6445''\<rparr>"

definition sample_environ :: "string list" where
  "sample_environ = [''HOME=/home/alice'', ''JOB_ID=5'', ''SGE_TASK_ID=undefined'',
     ''SGE_JOB_SPOOL_DIR=/spool/active_jobs/5.1'', ''TZ=Europe/Paris'', ''QRMI_TOKEN=x'']"

definition spool_host :: host where
  "spool_host = quiet_host\<lparr>tree := sample_tree\<rparr>"

text \<open>
  C15. An accepted spool directory is the job's own: it lies below the root, ends in
  \<open>active_jobs/<job>.<task>\<close>, and every component below the (resolved) root is a real directory,
  never a symbolic link, so no path that the hooks build in it leaves the root.
\<close>

theorem CheckSpoolDir_sound:
  assumes "CheckSpoolDir t spool root job task = None" "is_abs root" "Clean root = root"
  shows "\<exists>rs fs es rr. root = abs_path rs \<and> spool = abs_path (rs @ fs) \<and> fs \<noteq> [] \<and>
    rs @ fs = es @ [''active_jobs'', job_dir job task] \<and> EvalSymlinks t root = Inr (abs_path rr) \<and>
    (\<forall>p c. prefix (p @ [c]) (rr @ fs) \<longrightarrow> normal_elem c \<and> lookup t (p @ [c]) = Some TDir)"
  using CheckSpoolDir_None [OF assms] unfolding dir_path_def EvalSymlinks_Inr by metis

theorem CheckSpoolDir_sound_witness:
  "CheckSpoolDir sample_tree ''/spool/active_jobs/5.1'' ''/spool'' ''5'' ''undefined'' = None \<and>
   (\<exists>rr fs. EvalSymlinks sample_tree ''/spool'' = Inr (abs_path rr) \<and> fs \<noteq> [] \<and>
      lookup sample_tree (rr @ fs) = Some TDir)"
proof -
  have c: "CheckSpoolDir sample_tree ''/spool/active_jobs/5.1'' ''/spool'' ''5'' ''undefined'' = None"
    "is_abs ''/spool''" "Clean ''/spool'' = ''/spool''" by code_simp+
  obtain fs rr where r: "fs \<noteq> []" "EvalSymlinks sample_tree ''/spool'' = Inr (abs_path rr)"
    "\<forall>p c. prefix (p @ [c]) (rr @ fs) \<longrightarrow> normal_elem c \<and> lookup sample_tree (p @ [c]) = Some TDir"
    using CheckSpoolDir_sound [OF c] by metis
  have "prefix ((rr @ butlast fs) @ [last fs]) (rr @ fs)" using r(1) by simp
  with r(3) have "lookup sample_tree ((rr @ butlast fs) @ [last fs]) = Some TDir" by blast
  with c(1) r show ?thesis by (metis append.assoc append_butlast_last_id)
qed

text \<open>
  C35. Every spool directory the scheduler makes is accepted, also when the root itself is
  reached through up to 40 symbolic links: below the resolved root there are only directories,
  the last two are \<open>active_jobs\<close> and the job's, and no name has two dots in a row.
\<close>

theorem CheckSpoolDir_complete:
  assumes "\<forall>e \<in> set (rs @ fs). normal_elem e" "rs \<noteq> []" "fs \<noteq> []"
    and "rs @ fs = es @ [''active_jobs'', job_dir job task]"
    and "walk t kernel_links [] rs = Inr rr" "rr \<noteq> []" "dir_path t (rr @ fs)"
    and "\<not> contains (abs_path (rs @ fs)) dotdot"
  shows "CheckSpoolDir t (abs_path (rs @ fs)) (abs_path rs) job task = None"
  using assms by (rule CheckSpoolDir_accepts)

theorem CheckSpoolDir_complete_witness:
  "CheckSpoolDir sample_tree (abs_path [''spool'', ''active_jobs'', ''5.1'']) (abs_path [''spool'']) ''5'' ''1'' = None"
proof -
  let ?rs = "[''spool'']" and ?fs = "[''active_jobs'', ''5.1'']" and ?rr = "[''data'', ''spool'']"
  have "dir_path sample_tree (((([] @ [''data'']) @ [''spool'']) @ [''active_jobs'']) @ [''5.1''])"
    unfolding dir_path_snoc by (simp add: normal_elem_def) (simp add: sample_tree_def lookup_def)
  then have d: "dir_path sample_tree (?rr @ ?fs)" by simp
  have "list_all normal_elem (?rs @ ?fs)" "walk sample_tree kernel_links [] ?rs = Inr ?rr"
    "\<not> contains (abs_path (?rs @ ?fs)) dotdot" "?rs @ ?fs = [''spool''] @ [''active_jobs'', job_dir ''5'' ''1'']"
    by code_simp+
  then show ?thesis using CheckSpoolDir_complete [of ?rs ?fs "[''spool'']" "''5''" "''1''" sample_tree ?rr] d
    by (simp add: list_all_iff)
qed

text \<open>
  C14. What the launcher gives a hook: only the scheduler's variables, the time zone and four
  fixed ones; the root and the cell come from the launcher's own settings; the job id is a
  number; the spool directory passed its check against one of the configured roots; and no
  variable of the dynamic loader is among them.
\<close>

theorem LaunchEnv_whitelist:
  assumes "LaunchEnv h environ s = Inr out"
  defines "f \<equiv> env_of_list out"
  shows "dom f \<subseteq> set trusted_keys \<union> {''PATH'', ''HOME'', ''LANG'', ''LC_ALL''} \<and>
    f ''PATH'' = Some TrustedPath \<and> f ''HOME'' = Some (hookUserHome h) \<and>
    f ''LANG'' = Some ''C'' \<and> f ''LC_ALL'' = Some ''C'' \<and>
    f ''SGE_ROOT'' = Some (SGERoot s) \<and> f ''SGE_CELL'' = Some (SGECell s) \<and>
    (\<forall>k \<in> {''JOB_ID'', ''SGE_JOB_SPOOL_DIR''}. f k = Some (case env_of_list environ k of Some v \<Rightarrow> v | None \<Rightarrow> [])) \<and>
    (\<forall>k \<in> {''SGE_TASK_ID'', ''TZ''}. f k \<noteq> None \<longrightarrow> f k = env_of_list environ k) \<and>
    digits (the (f ''JOB_ID'')) \<and>
    (\<exists>root \<in> set (if SpoolRoots s = [] then [SGERoot s] else SpoolRoots s). is_abs root \<and> Clean root = root \<and>
       CheckSpoolDir (tree h) (the (f ''SGE_JOB_SPOOL_DIR'')) root (the (f ''JOB_ID''))
         (case f ''SGE_TASK_ID'' of Some v \<Rightarrow> v | None \<Rightarrow> []) = None) \<and>
    CheckLoaderEnv out = None"
proof -
  let ?ps = "launch_pairs h (env_of_list environ) s"
  let ?get = "\<lambda>k. case env_of_list environ k of Some v \<Rightarrow> v | None \<Rightarrow> []"
  have f: "f = map_of ?ps" using LaunchEnv_map [OF assms(1)] by (simp add: f_def)
  note l = LaunchEnv_Inr [OF assms(1)]
  have keys: "dom f \<subseteq> set trusted_keys \<union> {''PATH'', ''HOME'', ''LANG'', ''LC_ALL''}"
    unfolding f dom_map_of_conv_image_fst using launch_pairs_keys(2) [of h "env_of_list environ" s] by simp
  have fixed: "f ''PATH'' = Some TrustedPath" "f ''HOME'' = Some (hookUserHome h)"
    "f ''LANG'' = Some ''C''" "f ''LC_ALL'' = Some ''C''"
    unfolding f by (rule launch_fixed; simp add: fixed_pairs_def)+
  have own: "f ''SGE_ROOT'' = Some (SGERoot s)" "f ''SGE_CELL'' = Some (SGECell s)"
    "f ''JOB_ID'' = Some (?get ''JOB_ID'')" "f ''SGE_JOB_SPOOL_DIR'' = Some (?get ''SGE_JOB_SPOOL_DIR'')"
    unfolding f by (rule launch_lookup; simp add: launch_pairs_def Let_def)+
  have opt: "\<forall>k \<in> {''SGE_TASK_ID'', ''TZ''}. f k \<noteq> None \<longrightarrow> f k = env_of_list environ k"
    unfolding f using launch_optional by blast
  have task: "(case f ''SGE_TASK_ID'' of Some v \<Rightarrow> v | None \<Rightarrow> []) = ?get ''SGE_TASK_ID''"
    unfolding f by (rule launch_task)
  obtain root where root: "root \<in> set (if SpoolRoots s = [] then [SGERoot s] else SpoolRoots s)"
    "CheckSpoolDir (tree h) (?get ''SGE_JOB_SPOOL_DIR'') root (?get ''JOB_ID'') (?get ''SGE_TASK_ID'') = None"
    using l(6) by blast
  moreover have "is_abs root \<and> Clean root = root"
    using validate_None [OF l(3)] root(1) by (auto split: if_splits)
  ultimately have "\<exists>root \<in> set (if SpoolRoots s = [] then [SGERoot s] else SpoolRoots s).
      is_abs root \<and> Clean root = root \<and>
      CheckSpoolDir (tree h) (the (f ''SGE_JOB_SPOOL_DIR'')) root (the (f ''JOB_ID''))
        (case f ''SGE_TASK_ID'' of Some v \<Rightarrow> v | None \<Rightarrow> []) = None"
    unfolding task own option.sel by blast
  moreover have "CheckLoaderEnv out = None" using launch_loader l(1) by simp
  moreover have "digits (the (f ''JOB_ID''))" using l(4) own(3) by simp
  ultimately show ?thesis using keys fixed own opt by blast
qed

theorem LaunchEnv_whitelist_witness:
  "\<exists>out. LaunchEnv spool_host sample_environ sample_settings = Inr out \<and>
     env_of_list out ''HOME'' = Some ''/home/sge'' \<and> digits (the (env_of_list out ''JOB_ID''))"
proof -
  have "\<not> isl (LaunchEnv spool_host sample_environ sample_settings)" by code_simp
  then obtain out where o: "LaunchEnv spool_host sample_environ sample_settings = Inr out"
    by (cases "LaunchEnv spool_host sample_environ sample_settings") auto
  have "hookUserHome spool_host = ''/home/sge''" by code_simp
  with LaunchEnv_whitelist [OF o] o show ?thesis by auto
qed

text \<open>
  C13. Non-interference: the environment the launcher builds depends on nothing in the job's
  environment but the job id, the task id, the spool directory and the time zone; every other
  variable a job may submit has no effect unless it belongs to the dynamic loader.
\<close>

theorem LaunchEnv_noninterference:
  assumes "\<forall>k \<in> {''JOB_ID'', ''SGE_TASK_ID'', ''SGE_JOB_SPOOL_DIR'', ''TZ''}. env_of_list a k = env_of_list b k"
    and "CheckLoaderEnv a = None" "CheckLoaderEnv b = None"
  shows "LaunchEnv h a s = LaunchEnv h b s"
proof -
  have "env_get (env_values a) k = env_get (env_values b) k"
    if "k \<in> {''JOB_ID'', ''SGE_TASK_ID'', ''SGE_JOB_SPOOL_DIR'', ''TZ''}" for k
    using assms(1) that by (simp only: env_get_map)
  then have "env_get (env_values a) ''JOB_ID'' = env_get (env_values b) ''JOB_ID''"
    "env_get (env_values a) ''SGE_TASK_ID'' = env_get (env_values b) ''SGE_TASK_ID''"
    "env_get (env_values a) ''SGE_JOB_SPOOL_DIR'' = env_get (env_values b) ''SGE_JOB_SPOOL_DIR''"
    "env_get (env_values a) ''TZ'' = env_get (env_values b) ''TZ''" by blast+
  then show ?thesis by (simp only: LaunchEnv_def Let_def assms(2,3) option.case)
qed

theorem LaunchEnv_noninterference_witness:
  "LaunchEnv spool_host sample_environ sample_settings =
   LaunchEnv spool_host (''RUST_LOG=trace'' # ''QRMI_TOKEN=y'' # sample_environ) sample_settings"
proof (rule LaunchEnv_noninterference)
  show "\<forall>k \<in> {''JOB_ID'', ''SGE_TASK_ID'', ''SGE_JOB_SPOOL_DIR'', ''TZ''}.
      env_of_list sample_environ k = env_of_list (''RUST_LOG=trace'' # ''QRMI_TOKEN=y'' # sample_environ) k"
    by code_simp
qed code_simp+

text \<open>
  A variable of the dynamic loader in the environment stops the launcher and the hooks:
  both report a job error (exit code 100), and the hook changes nothing before it.
\<close>

theorem loader_refused:
  assumes "e \<in> set environ" "loader_key (env_key e)"
  shows "\<exists>err. LaunchEnv h environ s = Inl err \<and> ResetProcessEnv h environ w = (Some err, w) \<and>
    ExitCode (Some err) = ExitJobError"
proof -
  have "CheckLoaderEnv environ \<noteq> None" using assms by (auto simp: CheckLoaderEnv_None)
  then obtain err where "CheckLoaderEnv environ = Some err" by blast
  then show ?thesis using CheckLoaderEnv_Some [of environ err]
    by (auto simp: LaunchEnv_def ResetProcessEnv_def)
qed

theorem loader_refused_witness:
  "\<exists>err. LaunchEnv spool_host [''JOB_ID=5'', ''LD_PRELOAD=/tmp/x.so''] sample_settings = Inl err \<and>
     ExitCode (Some err) = 100"
proof -
  have "''LD_PRELOAD=/tmp/x.so'' \<in> set [''JOB_ID=5'', ''LD_PRELOAD=/tmp/x.so'']" "loader_key (env_key ''LD_PRELOAD=/tmp/x.so'')"
    by (simp, code_simp)
  from loader_refused [OF this] show ?thesis unfolding exit_defs by metis
qed

text \<open>
  C32. The whole behaviour of \<open>ResetProcessEnv\<close>: a loader variable or a scheduler variable with
  an unexpected value is a job error and leaves the process as it was; otherwise the new
  environment holds exactly the scheduler variables of the old one and the four fixed ones.
\<close>

theorem ResetProcessEnv_spec:
  assumes "NUL \<notin> set (hookUserHome h)"
  shows "if (\<exists>e \<in> set environ. loader_key (env_key e) \<or> bad_entry e)
    then snd (ResetProcessEnv h environ w) = w \<and>
         ExitCode (fst (ResetProcessEnv h environ w)) = ExitJobError
    else ResetProcessEnv h environ w = (None, w\<lparr>penv := clean_env h environ\<rparr>)"
proof (cases "\<exists>e \<in> set environ. loader_key (env_key e)")
  case True
  then have "CheckLoaderEnv environ \<noteq> None" by (auto simp: CheckLoaderEnv_None)
  with True show ?thesis using CheckLoaderEnv_Some [of environ]
    by (auto simp: ResetProcessEnv_def)
next
  case False
  then have l: "CheckLoaderEnv environ = None" by (auto simp: CheckLoaderEnv_None)
  show ?thesis
  proof (cases "\<exists>e \<in> set environ. bad_entry e")
    case True
    then obtain err where "CleanEnv h environ = Inl err" using CleanEnv_bad by blast
    with True l show ?thesis by (auto simp: ResetProcessEnv_def err_simps)
  next
    case no_bad: False
    with False ResetProcessEnv_ok [OF _ _ assms, of environ w] show ?thesis by auto
  qed
qed

theorem ResetProcessEnv_spec_witness:
  "fst (ResetProcessEnv spool_host sample_environ (fresh_world (env_of_list sample_environ) Map.empty ())) = None \<and>
   penv (snd (ResetProcessEnv spool_host sample_environ (fresh_world (env_of_list sample_environ) Map.empty ())))
     ''QRMI_TOKEN'' = None"
proof -
  have n: "NUL \<notin> set (hookUserHome spool_host)" by code_simp
  have ok: "\<not> (\<exists>e \<in> set sample_environ. loader_key (env_key e) \<or> bad_entry e)" by code_simp
  have c: "clean_env spool_host sample_environ ''QRMI_TOKEN'' = None" by code_simp
  from ResetProcessEnv_spec [OF n, of sample_environ
      "fresh_world (env_of_list sample_environ) Map.empty ()"] ok c
  show ?thesis by (simp only: if_False) simp
qed

text \<open>
  C36. The launcher and the hook's own check agree except on directory names: the hook accepts
  an environment the launcher built if and only if the spool directory and the root consist of
  the characters of the hook's pattern and the root and the cell have no two dots in a row; the
  launcher checks none of this. When the hook accepts, it keeps the environment unchanged.
\<close>

theorem LaunchEnv_CleanEnv:
  assumes "LaunchEnv h environ s = Inr out"
  defines "spool \<equiv> (case env_of_list environ ''SGE_JOB_SPOOL_DIR'' of Some v \<Rightarrow> v | None \<Rightarrow> [])"
  shows "((\<exists>out'. CleanEnv h out = Inr out') \<longleftrightarrow>
      dirPattern spool \<and> dirPattern (SGERoot s) \<and> \<not> contains (SGERoot s) dotdot \<and>
      \<not> contains (SGECell s) dotdot) \<and>
    (\<forall>out'. CleanEnv h out = Inr out' \<longrightarrow> env_of_list out' = env_of_list out)"
proof -
  have bad: "(\<exists>e \<in> set out. bad_entry e) \<longleftrightarrow> \<not> dirPattern spool \<or> \<not> dirPattern (SGERoot s) \<or>
      contains (SGERoot s) dotdot \<or> contains (SGECell s) dotdot"
    using bad_launch_entry [OF assms(1)] by (simp add: spool_def Let_def)
  show ?thesis
  proof (cases "\<exists>e \<in> set out. bad_entry e")
    case True
    then obtain err where "CleanEnv h out = Inl err" using CleanEnv_bad by blast
    with True bad show ?thesis by auto
  next
    case False
    then have "\<forall>e \<in> set out. \<not> bad_entry e" by blast
    then obtain ps where ps: "CleanEnv h out = Inr (map kv ps)" "map_of (rev ps) = clean_env h out"
      "\<forall>p \<in> set ps. CHR ''='' \<notin> set (fst p)" by (rule CleanEnv_good [where h = h])
    have "env_of_list (map kv ps) = clean_env h out"
      using env_add_kvs [OF ps(3), of Map.empty] ps(2) by (simp add: env_of_list_def)
    then have "env_of_list (map kv ps) = env_of_list out"
      using clean_env_launch [OF LaunchEnv_map [OF assms(1)]] by simp
    moreover have "\<forall>out'. CleanEnv h out = Inr out' \<longrightarrow> out' = map kv ps" using ps(1) by simp
    ultimately show ?thesis using False bad ps(1) by blast
  qed
qed

theorem LaunchEnv_CleanEnv_witness:
  "\<exists>out. LaunchEnv spool_host sample_environ (sample_settings\<lparr>SGERoot := ''/opt/ocs+2''\<rparr>) = Inr out \<and>
     (\<forall>out'. CleanEnv spool_host out \<noteq> Inr out')"
proof -
  let ?s = "sample_settings\<lparr>SGERoot := ''/opt/ocs+2''\<rparr>"
  have "\<not> isl (LaunchEnv spool_host sample_environ ?s)" by code_simp
  then obtain out where o: "LaunchEnv spool_host sample_environ ?s = Inr out"
    by (cases "LaunchEnv spool_host sample_environ ?s") auto
  have "\<not> dirPattern (SGERoot ?s)" by code_simp
  with LaunchEnv_CleanEnv [OF o] o show ?thesis by auto
qed

end
