(* ===== verification/Go_Flag.thy ===== *)
theory Go_Flag
  imports Go_Errors "HOL-Library.AList"
begin

text \<open>
  Go's \<open>flag.FlagSet\<close> with string flags only and \<open>ContinueOnError\<close>, as both hooks and the
  adapter use it: \<open>-name value\<close>, \<open>-name=value\<close> and the same with two dashes, up to \<open>--\<close> or the first
  argument that is no flag.
\<close>

abbreviation DASH :: char where "DASH \<equiv> CHR 0x2D"

text \<open>The split of a flag at its first equals sign, which is not the first character.\<close>

definition flag_cut :: "string \<Rightarrow> string \<times> string option" where
  "flag_cut name =
     (case name of
        [] \<Rightarrow> ([], None)
      | c # t \<Rightarrow> (case cut (CHR ''='') t of (k, v, ok) \<Rightarrow> (c # k, if ok then Some v else None)))"

fun parse_flags ::
  "string list \<Rightarrow> string list \<Rightarrow> (string \<times> string) list \<Rightarrow> gerr + ((string \<times> string) list \<times> string list)"
where
  "parse_flags names [] m = Inr (m, [])"
| "parse_flags names (s # args) m =
     (if length s < 2 \<or> hd s \<noteq> DASH then Inr (m, s # args)
      else if s = [DASH, DASH] then Inr (m, args)
      else let name = (if s ! 1 = DASH then drop 2 s else drop 1 s) in
        if name = [] \<or> hd name = DASH \<or> hd name = CHR ''=''
        then Inl (Errorf ''bad flag syntax: %s'' [S s])
        else case flag_cut name of
          (key, value) \<Rightarrow>
            if key \<notin> set names
            then Inl (if key = ''help'' \<or> key = ''h'' then Errorf ''flag: help requested'' []
                      else Errorf ''flag provided but not defined: -%s'' [S key])
            else (case value of
                Some v \<Rightarrow> parse_flags names args (AList.update key v m)
              | None \<Rightarrow>
                  (case args of
                     [] \<Rightarrow> Inl (Errorf ''flag needs an argument: -%s'' [S key])
                   | v # args' \<Rightarrow> parse_flags names args' (AList.update key v m))))"

definition flag_value :: "(string \<times> string) list \<Rightarrow> string \<Rightarrow> string \<Rightarrow> string" where
  "flag_value m name dflt = (case map_of m name of Some v \<Rightarrow> v | None \<Rightarrow> dflt)"

definition flag_arg :: "string \<Rightarrow> string \<Rightarrow> string" where
  "flag_arg name value = DASH # DASH # name @ CHR ''='' # value"

lemma parse_flag_arg:
  assumes "name \<in> set names" "name \<noteq> []" "CHR ''='' \<notin> set name" "hd name \<noteq> DASH"
  shows "parse_flags names (flag_arg name v # args) m = parse_flags names args (AList.update name v m)"
proof -
  obtain c t where n: "name = c # t" using assms(2) by (cases name) auto
  with assms show ?thesis by (auto simp: flag_arg_def flag_cut_def cut_at Let_def)
qed

lemma parse_flags_stop:
  "args = [] \<or> hd args = [] \<or> hd (hd args) \<noteq> DASH \<Longrightarrow> parse_flags names args m = Inr (m, args)"
  by (cases args) auto

end
