(* ===== verification/Go_Float.thy ===== *)
theory Go_Float
  imports Go_Errors
begin

text \<open>
  \<open>strconv.ParseFloat(s, 64)\<close> and the conversion of its result to \<open>int\<close>. A finite value is
  \<open>m * 2 ^ x\<close> with an integer \<open>m\<close> of at most 53 bits, rounded half to even from the exact
  value of the text. Values below the normal range are rounded like the others, which gives
  them more precision than Go does; they are all far below one, and the only use of the result
  is the test for a positive integer.
\<close>

datatype gfloat = Fin bool int int | Inf bool | NaN

subsection \<open>Reading\<close>

definition hex_digit :: "char \<Rightarrow> bool" where
  "hex_digit c = (let n = (of_char (lower_char c) :: int) in 97 \<le> n \<and> n \<le> 102)"

definition digit_of :: "char \<Rightarrow> int" where
  "digit_of c = (if is_digit c then int (digit_val c) else of_char (lower_char c) - 87)"

text \<open>
  The mantissa: its digits as one integer, how many of them stand after the point, whether a
  digit and an underscore were seen, and the rest of the text.
\<close>

record mantissa =
  mval :: int
  mfrac :: int
  mdigits :: bool
  munder :: bool

fun read_mantissa :: "bool \<Rightarrow> bool \<Rightarrow> mantissa \<Rightarrow> string \<Rightarrow> mantissa \<times> string" where
  "read_mantissa hex dot m [] = (m, [])"
| "read_mantissa hex dot m (c # s) =
     (if c = CHR ''_'' then read_mantissa hex dot (m\<lparr>munder := True\<rparr>) s
      else if c = CHR ''.'' then
        (if dot then (m, c # s) else read_mantissa hex True m s)
      else if is_digit c \<or> hex \<and> hex_digit c then
        read_mantissa hex dot
          (m\<lparr>mval := (if hex then 16 else 10) * mval m + digit_of c,
             mfrac := (if dot then mfrac m + 1 else mfrac m), mdigits := True\<rparr>) s
      else (m, c # s))"

text \<open>The exponent is cut off at five digits, as in the source of Go.\<close>

fun read_exponent :: "int \<Rightarrow> bool \<Rightarrow> string \<Rightarrow> (int \<times> bool) \<times> string" where
  "read_exponent e u [] = ((e, u), [])"
| "read_exponent e u (c # s) =
     (if c = CHR ''_'' then read_exponent e True s
      else if is_digit c then
        read_exponent (if e < 10000 then 10 * e + int (digit_val c) else e) u s
      else ((e, u), c # s))"

text \<open>Underscores only between digits, where a base prefix counts as a digit.\<close>

fun under_scan :: "bool \<Rightarrow> char \<Rightarrow> string \<Rightarrow> bool" where
  "under_scan hex saw [] = (saw \<noteq> CHR ''_'')"
| "under_scan hex saw (c # s) =
     (if is_digit c \<or> hex \<and> hex_digit c then under_scan hex (CHR ''0'') s
      else if c = CHR ''_'' then saw = CHR ''0'' \<and> under_scan hex (CHR ''_'') s
      else saw \<noteq> CHR ''_'' \<and> under_scan hex (CHR ''!'') s)"

definition drop_sign :: "string \<Rightarrow> bool \<times> string" where
  "drop_sign s = (case s of
     [] \<Rightarrow> (False, [])
   | c # t \<Rightarrow> if c = CHR ''+'' then (False, t) else if c = CHR ''-'' then (True, t) else (False, s))"

definition hex_prefix :: "string \<Rightarrow> bool" where
  "hex_prefix s = (case s of c # d # t \<Rightarrow> c = CHR ''0'' \<and> lower_char d = CHR ''x'' | _ \<Rightarrow> False)"

definition base_prefix :: "string \<Rightarrow> bool" where
  "base_prefix s = (case s of c # d # t \<Rightarrow> c = CHR ''0'' \<and> lower_char d \<in> set ''box'' | _ \<Rightarrow> False)"

definition underscoreOK :: "string \<Rightarrow> bool" where
  "underscoreOK s =
     (let t = snd (drop_sign s) in
      if base_prefix t then under_scan (hex_prefix t) (CHR ''0'') (drop 2 t)
      else under_scan False (CHR ''^'') t)"

text \<open>The whole number: its sign and its exact value \<open>n / d\<close>, or \<open>None\<close> for bad syntax.\<close>

definition read_float :: "string \<Rightarrow> (bool \<times> int \<times> int) option" where
  "read_float s =
     (case drop_sign s of (neg, t) \<Rightarrow>
        let hex = (hex_prefix t \<and> 2 < length t) in
        case read_mantissa hex False \<lparr>mval = 0, mfrac = 0, mdigits = False, munder = False\<rparr>
               (if hex then drop 2 t else t) of
          (m, rest) \<Rightarrow>
            if \<not> mdigits m then None
            else
              let exponent =
                (case rest of
                   [] \<Rightarrow> if hex then None else Some (0, False)
                 | c # r \<Rightarrow>
                     if lower_char c \<noteq> (if hex then CHR ''p'' else CHR ''e'') then None
                     else (case drop_sign r of (eneg, r) \<Rightarrow>
                       if r = [] \<or> \<not> is_digit (hd r) then None
                       else (case read_exponent 0 False r of
                           ((e, u), []) \<Rightarrow> Some (if eneg then - e else e, u)
                         | (_, _ # _) \<Rightarrow> None)))
              in case exponent of
                   None \<Rightarrow> None
                 | Some (e, u) \<Rightarrow>
                     if (munder m \<or> u) \<and> \<not> underscoreOK s then None
                     else
                       let b = (if hex then 2 else 10);
                           x = (if hex then e - 4 * mfrac m else e - mfrac m)
                       in Some (neg, mval m * (if 0 \<le> x then b ^ nat x else 1),
                                if 0 \<le> x then 1 else b ^ nat (- x)))"

subsection \<open>Rounding\<close>

text \<open>The binary exponent of a positive fraction.\<close>

function flog2 :: "int \<Rightarrow> int \<Rightarrow> int" where
  "flog2 n d =
     (if n \<le> 0 \<or> d \<le> 0 then 0
      else if n < d then flog2 (2 * n) d - 1
      else if 2 * d \<le> n then flog2 n (2 * d) + 1
      else 0)"
  by pat_completeness auto
termination
  by (relation "measure (\<lambda>(n, d). nat (if n < d then d - n else if 2 * d \<le> n then n - d else 0))") auto

declare flog2.simps [simp del]

definition round_div :: "int \<Rightarrow> int \<Rightarrow> int" where
  "round_div n d =
     (let q = n div d; r = n mod d in
      if 2 * r < d \<or> 2 * r = d \<and> even q then q else q + 1)"

definition to_float64 :: "bool \<Rightarrow> int \<Rightarrow> int \<Rightarrow> gfloat" where
  "to_float64 neg n d =
     (if n = 0 then Fin neg 0 0
      else
        let e = flog2 n d; s = 52 - e;
            q = (if 0 \<le> s then round_div (n * 2 ^ nat s) d else round_div n (d * 2 ^ nat (- s)))
        in if 2 ^ 1024 \<le> (if 0 \<le> s then q div 2 ^ nat s else q * 2 ^ nat (- s)) then Inf neg
           else Fin neg q (- s))"

definition float_error :: "string \<Rightarrow> string \<Rightarrow> gerr" where
  "float_error s msg = Errorf ''strconv.ParseFloat: parsing %q: %s'' [S s, S msg]"

definition ParseFloat :: "string \<Rightarrow> gerr + gfloat" where
  "ParseFloat s =
     (let l = to_lower s; (neg, t) = drop_sign l in
      if l = ''nan'' then Inr NaN
      else if t = ''inf'' \<or> t = ''infinity'' then Inr (Inf neg)
      else case read_float s of
        None \<Rightarrow> Inl (float_error s ''invalid syntax'')
      | Some (neg, n, d) \<Rightarrow>
          (case to_float64 neg n d of
             Inf _ \<Rightarrow> Inl (float_error s ''value out of range'')
           | f \<Rightarrow> Inr f))"

text \<open>
  \<open>slots := int(value)\<close> when \<open>float64(slots) == value\<close>: the value as an integer if it is one.
  Outside the range of \<open>int\<close> the conversion on amd64 gives the least \<open>int\<close>, which fails the
  comparison except for \<open>-2 ^ 63\<close> itself.
\<close>

definition float_int :: "gfloat \<Rightarrow> int option" where
  "float_int f =
     (case f of
        Fin neg m x \<Rightarrow>
          (let v = (if 0 \<le> x then Some (m * 2 ^ nat x)
                    else if m mod 2 ^ nat (- x) = 0 then Some (m div 2 ^ nat (- x)) else None)
           in case v of
                None \<Rightarrow> None
              | Some i \<Rightarrow> let i = (if neg then - i else i) in
                  if - (2 ^ 63) \<le> i \<and> i < 2 ^ 63 then Some i else None)
      | _ \<Rightarrow> None)"

end
