(* ===== verification/Prolog.thy ===== *)
theory Prolog
  imports Qrmi Grant Sanitize Go_Flag Go_Float
begin

text \<open>
  \<open>src/cmd/qrmi-ocs-prolog-go/main.go\<close>: the queue prolog. It finds the backend the job requested,
  checks that this host offers it, acquires a token and leaves the job environment and the
  metadata for the job and the epilog. Its deferred calls make the nesting of the definitions:
  each handle's scope is a definition, and the deferred \<open>Close\<close> follows it.
\<close>

definition prolog_component :: string where
  "prolog_component = ''qrmi-ocs-prolog''"

record hookConfig =
  ConfigPath :: string
  ResourceName :: string
  SlotsResourceName :: string
  QstatPath :: string
  LogLevel :: string

definition defaultHookConfig :: hookConfig where
  "defaultHookConfig = \<lparr>ConfigPath = ''/etc/qrmi/qrmi_config.json'', ResourceName = ''qpu'',
     SlotsResourceName = ''qpu_slots'', QstatPath = [], LogLevel = []\<rparr>"

definition hook_flags :: "string list" where
  "hook_flags = [''config'', ''resource'', ''slots-resource'', ''qstat'', ''log-level'']"

definition parseHookArgs :: "string list \<Rightarrow> gerr + (hookConfig \<times> string)" where
  "parseHookArgs args =
     (case parse_flags hook_flags args [] of
        Inl e \<Rightarrow> Inl e
      | Inr (m, rest) \<Rightarrow>
          let d = defaultHookConfig;
              cfg = \<lparr>ConfigPath = flag_value m ''config'' (ConfigPath d),
                     ResourceName = flag_value m ''resource'' (ResourceName d),
                     SlotsResourceName = flag_value m ''slots-resource'' (SlotsResourceName d),
                     QstatPath = flag_value m ''qstat'' (QstatPath d),
                     LogLevel = flag_value m ''log-level'' (LogLevel d)\<rparr> in
          if 1 < length rest then Inl (Errorf ''expected at most one job-owner argument'' [])
          else if ConfigPath cfg = [] \<or> ResourceName cfg = [] \<or> \<not> is_abs (QstatPath cfg)
          then Inl (Errorf ''config, resource, and absolute qstat path are required'' [])
          else Inr (cfg, case rest of [] \<Rightarrow> [] | owner # _ \<Rightarrow> owner))"

subsection \<open>Reading the scheduler\<close>

text \<open>
  \<open>fieldValue\<close>: the lines of the output until one is found that starts with the field, then its
  continuation lines.
\<close>

definition field_match :: "string \<Rightarrow> string \<Rightarrow> string option" where
  "field_match field line =
     (case cut_prefix line field of
        (rest, ok) \<Rightarrow>
          if \<not> ok \<or> (\<not> suffix '':'' field \<and> rest \<noteq> [] \<and> hd rest \<noteq> SP \<and> hd rest \<noteq> TAB)
          then None else Some (trim_space rest))"

fun continuation :: "string list \<Rightarrow> string" where
  "continuation [] = []"
| "continuation (line # lines) =
     (if \<not> prefix [SP] line \<and> \<not> prefix [TAB] line then []
      else trim_space line @ continuation lines)"

fun field_lines :: "string \<Rightarrow> string list \<Rightarrow> string" where
  "field_lines field [] = []"
| "field_lines field (line # lines) =
     (case field_match field line of
        None \<Rightarrow> field_lines field lines
      | Some v \<Rightarrow> v @ continuation lines)"

definition fieldValue :: "string \<Rightarrow> string \<Rightarrow> string" where
  "fieldValue out field =
     filter (\<lambda>c. c \<noteq> CHR 0x5C) (field_lines field (fst (scan_lines default_max_token out)))"

fun find_item :: "string list \<Rightarrow> string \<Rightarrow> string option" where
  "find_item [] resourceName = None"
| "find_item (item # items) resourceName =
     (case cut (CHR ''='') (trim_space item) of
        (key, value, ok) \<Rightarrow>
          if ok \<and> trim_space key = resourceName \<and> trim_space value \<noteq> []
          then Some (trim_space value)
          else find_item items resourceName)"

definition resourceFromList :: "string \<Rightarrow> string \<Rightarrow> string option" where
  "resourceFromList list resourceName = find_item (split (CHR '','') list) resourceName"

definition parseJobRequestedResource :: "string \<Rightarrow> string \<Rightarrow> gerr + string" where
  "parseJobRequestedResource out resourceName =
     (case resourceFromList (fieldValue out ''hard_resource_list:'') resourceName of
        Some value \<Rightarrow> Inr value
      | None \<Rightarrow>
          (case resourceFromList (fieldValue out ''master_hard_resource_list:'') resourceName of
             Some value \<Rightarrow> Inr value
           | None \<Rightarrow> Inl (WrapFirst ''%w: %s'' ErrRequestedResourceNotFound [S resourceName])))"

definition trustedExecutable :: "tree \<Rightarrow> string \<Rightarrow> gerr + string" where
  "trustedExecutable t path =
     (if \<not> is_abs path
      then Inl (Errorf ''scheduler executable %s is not an absolute path'' [S path])
      else case EvalSymlinks t path of
        Inl e \<Rightarrow> Inl e
      | Inr path \<Rightarrow>
          (case Stat t path of
             None \<Rightarrow> Inl (SysErr ENOENT (''stat '' @ path))
           | Some n \<Rightarrow>
               if \<not> root_owned_file n
               then Inl (Errorf ''scheduler executable %s is not root-owned and non-writable'' [S path])
               else Inr path))"

definition runSchedulerCommand ::
  "host \<Rightarrow> string \<Rightarrow> string list \<Rightarrow> 'q world \<Rightarrow> (gerr + string) \<times> 'q world" where
  "runSchedulerCommand h path args w =
     (case trustedExecutable (tree h) path of
        Inl e \<Rightarrow> (Inl e, w)
      | Inr trusted \<Rightarrow>
          (case sys_run h trusted args w of
             (Inl msg, w) \<Rightarrow>
               (Inl (RetryError (Wrapf ''run %s %s: %w'' [S trusted, S (join SP args)] (Errorf ''%s'' [S msg]))), w)
           | (Inr out, w) \<Rightarrow> (Inr out, w)))"

definition readJobRequestedResource ::
  "host \<Rightarrow> string \<Rightarrow> string \<Rightarrow> 'q world \<Rightarrow> (gerr + string) \<times> 'q world" where
  "readJobRequestedResource h resourceName qstatPath w =
     (let jobID = getenv w ''JOB_ID'' in
      if jobID = [] then (Inl (Errorf ''JOB_ID is unset'' []), w)
      else case runSchedulerCommand h qstatPath [''-j'', jobID] w of
        (Inl e, w) \<Rightarrow> (Inl e, w)
      | (Inr out, w) \<Rightarrow> (parseJobRequestedResource out resourceName, w))"

definition readGranted ::
  "host \<Rightarrow> string \<Rightarrow> string \<Rightarrow> 'q world \<Rightarrow> (gerr + string) \<times> 'q world" where
  "readGranted h resourceName qstatPath w = readJobRequestedResource h resourceName qstatPath w"

definition checkHostOffers ::
  "host \<Rightarrow> hookConfig \<Rightarrow> string \<Rightarrow> 'q world \<Rightarrow> gerr option \<times> 'q world" where
  "checkHostOffers h cfg backend w =
     (case hostname h of
        None \<Rightarrow> (Some (Wrapf ''read host name: %w'' [] (SysErr ENOENT ''gethostname'')), w)
      | Some host \<Rightarrow>
          let qconfPath = path_join [path_dir (QstatPath cfg), ''qconf''];
              (res, w) = runSchedulerCommand h qconfPath [''-se'', host] w;
              short = fst (cut (CHR ''.'') host);
              retry = (isl res \<and> CHR ''.'' \<in> set host);
              (res, w) = (if retry then runSchedulerCommand h qconfPath [''-se'', short] w else (res, w));
              host = (if retry then short else host)
          in (case res of
                Inl e \<Rightarrow> (Some e, w)
              | Inr out \<Rightarrow>
                  if resourceFromList (fieldValue out ''complex_values'') (ResourceName cfg) \<noteq> Some backend
                  then (Some (JobError (Errorf ''host %s does not offer %s=%s''
                          [S host, S (ResourceName cfg), S backend])), w)
                  else (None, w)))"

subsection \<open>Slots and the scheduler's job variables\<close>

definition parseGrantedSlots :: "string \<Rightarrow> gerr + i64" where
  "parseGrantedSlots raw =
     (let raw = trim_space raw;
          raw = (case cut (CHR ''('') raw of (value, _, ok) \<Rightarrow> if ok then trim_space value else raw) in
      case ParseFloat raw of
        Inl e \<Rightarrow> Inl e
      | Inr value \<Rightarrow>
          (case float_int value of
             Some i \<Rightarrow> if i < 1 then Inl (Errorf ''slot count must be a positive integer'' [])
                       else Inr (of_int i)
           | None \<Rightarrow> Inl (Errorf ''slot count must be a positive integer'' [])))"

definition readGrantedSlots ::
  "host \<Rightarrow> string \<Rightarrow> string \<Rightarrow> 'q world \<Rightarrow> (gerr + i64 option) \<times> 'q world" where
  "readGrantedSlots h resourceName qstatPath w =
     (case readJobRequestedResource h resourceName qstatPath w of
        (Inl e, w) \<Rightarrow> (if is_requested_not_found e then Inr None else Inl e, w)
      | (Inr raw, w) \<Rightarrow>
          ((case parseGrantedSlots raw of
              Inl e \<Rightarrow> Inl (Wrapf ''parse granted %s value %q: %w'' [S resourceName, S raw] e)
            | Inr slots \<Rightarrow> Inr (Some slots)), w))"

definition no_task :: "string \<Rightarrow> bool" where
  "no_task task = (task = [] \<or> task = ''undefined'' \<or> task = ''0'')"

definition schedulerJobID :: "'q world \<Rightarrow> string" where
  "schedulerJobID w =
     (let jobID = getenv w ''JOB_ID''; taskID = getenv w ''SGE_TASK_ID'' in
      if \<not> no_task taskID then jobID @ CHR ''.'' # taskID else jobID)"

definition schedulerJobUID :: "host \<Rightarrow> string \<Rightarrow> gerr + i64" where
  "schedulerJobUID h jobOwner =
     (if jobOwner = [] then Inr (uid h)
      else case users h jobOwner of
        None \<Rightarrow> Inl (Wrapf ''look up scheduler job owner %q: %w'' [S jobOwner]
          (Errorf ''user: unknown user %s'' [S jobOwner]))
      | Some text \<Rightarrow>
          (case atoi text of
             None \<Rightarrow> Inl (Errorf ''invalid uid %q for scheduler job owner %q'' [S text, S jobOwner])
           | Some u \<Rightarrow>
               if sint u < 0
               then Inl (Errorf ''invalid uid %q for scheduler job owner %q'' [S text, S jobOwner])
               else Inr u))"

definition exportSchedulerJobEnv ::
  "host \<Rightarrow> hookConfig \<Rightarrow> string \<Rightarrow> 'q world \<Rightarrow> gerr option \<times> 'q world" where
  "exportSchedulerJobEnv h cfg jobOwner w =
     (case schedulerJobUID h jobOwner of
        Inl e \<Rightarrow> (Some e, w)
      | Inr u \<Rightarrow>
          let pairs = [(''QRMI_JOB_UID'', itoa u), (''QRMI_JOB_ID'', schedulerJobID w)];
              (slots, w) = (if SlotsResourceName cfg \<noteq> []
                            then readGrantedSlots h (SlotsResourceName cfg) (QstatPath cfg) w
                            else (Inr None, w))
          in (case slots of
                Inl e \<Rightarrow> (Some e, w)
              | Inr s \<Rightarrow>
                  let pairs = pairs @ (case s of None \<Rightarrow> [] | Some n \<Rightarrow> [(''QRMI_JOB_QPU_SLOTS'', itoa n)])
                  in set_pairs h (filter (\<lambda>p. snd p \<noteq> []) pairs) w))"

subsection \<open>The exported variables\<close>

definition backend_pairs :: "string \<Rightarrow> EnvVar list \<Rightarrow> (string \<times> string) list" where
  "backend_pairs backend env =
     map (\<lambda>e. (backend @ CHR ''_'' # Key e, Value e)) (filter (\<lambda>e. Key e \<noteq> []) env)"

definition exportBackendEnv ::
  "host \<Rightarrow> string \<Rightarrow> EnvVar list \<Rightarrow> 'q world \<Rightarrow> gerr option \<times> 'q world" where
  "exportBackendEnv h backend env w = set_pairs h (backend_pairs backend env) w"

definition token_key :: "string \<Rightarrow> string" where
  "token_key backend = backend @ ''_QRMI_JOB_ACQUISITION_TOKEN''"

definition runtime_pairs :: "string \<Rightarrow> string \<Rightarrow> string \<Rightarrow> (string \<times> string) list" where
  "runtime_pairs backend token typeStr =
     [(token_key backend, token), (''QRMI_JOB_QPU_RESOURCES'', backend), (''QRMI_JOB_QPU_TYPES'', typeStr),
      (''qrmi_resources'', backend), (''qrmi_resource_types'', typeStr), (''qrmi_acquired_count'', ''1'')]"

definition exportRuntimeEnv ::
  "host \<Rightarrow> string \<Rightarrow> string \<Rightarrow> string \<Rightarrow> 'q world \<Rightarrow> gerr option \<times> 'q world" where
  "exportRuntimeEnv h backend token typeStr w = set_pairs h (runtime_pairs backend token typeStr) w"

definition reportError :: "host \<Rightarrow> gerr \<Rightarrow> 'q world \<Rightarrow> gerr option \<times> 'q world" where
  "reportError h err w =
     (case SetPluginError h (error_text err) w of
        (Some perr, w) \<Rightarrow>
          (Some err, log_warn prolog_component (sprintf ''failed to record plugin error: %v'' [S (error_text perr)]) w)
      | (None, w) \<Rightarrow> (Some err, w))"

subsection \<open>The run\<close>

text \<open>After the token: what is left for the epilog, and its release when anything fails.\<close>

definition release_and_report ::
  "'q build \<Rightarrow> host \<Rightarrow> nat option \<Rightarrow> string \<Rightarrow> gerr \<Rightarrow> 'q world \<Rightarrow> gerr option \<times> 'q world" where
  "release_and_report b h r token err w = reportError h err (snd (Release b r token w))"

definition acquired_record ::
  "'q build \<Rightarrow> host \<Rightarrow> string \<Rightarrow> nat option \<Rightarrow> string \<Rightarrow> 'q world \<Rightarrow> acq_record" where
  "acquired_record b h backend def token w =
     \<lparr>rec_name = backend, rec_type = Def_Type b def w, rec_token = token, rec_epoch = now h\<rparr>"

definition type_text :: "'q build \<Rightarrow> nat option \<Rightarrow> 'q world \<Rightarrow> string" where
  "type_text b def w =
     (if Def_TypeString b def w = [] then itoa (Def_Type b def w) else Def_TypeString b def w)"

definition after_acquire ::
  "'q build \<Rightarrow> host \<Rightarrow> string \<Rightarrow> nat option \<Rightarrow> nat option \<Rightarrow> string \<Rightarrow> 'q world \<Rightarrow> gerr option \<times> 'q world" where
  "after_acquire b h backend def r token w0 =
     (case exportRuntimeEnv h backend token (type_text b def w0) w0 of
        (Some e, w) \<Rightarrow> release_and_report b h r token (Wrapf ''export runtime env: %w'' [] e) w
      | (None, w) \<Rightarrow>
          (case ResolveMetadataPath w of
             Inl e \<Rightarrow> release_and_report b h r token (Wrapf ''resolve metadata path: %w'' [] e) w
           | Inr metaPath \<Rightarrow>
               (case WriteAtomic h metaPath [acquired_record b h backend def token w0] w of
                  (Some e, w) \<Rightarrow>
                    release_and_report b h r token (Wrapf ''write metadata %s: %w'' [S metaPath] e) w
                | (None, w) \<Rightarrow>
                    (case Set h PrologStatusKey ''success'' w of
                       (Some e, w) \<Rightarrow>
                         release_and_report b h r token (Wrapf ''export prolog status: %w'' [] e) w
                     | (None, w) \<Rightarrow>
                         (None, log_info prolog_component
                            (sprintf ''acquired 1 backend resource(s): %s'' [S backend]) w)))))"

definition with_resource ::
  "'q build \<Rightarrow> host \<Rightarrow> string \<Rightarrow> nat option \<Rightarrow> nat option \<Rightarrow> 'q world \<Rightarrow> gerr option \<times> 'q world" where
  "with_resource b h backend def r w =
     (case IsAccessible b r w of
        (Inl e, w) \<Rightarrow>
          reportError h (RetryError (Wrapf ''backend %s accessibility check: %w'' [S backend] e)) w
      | (Inr False, w) \<Rightarrow>
          reportError h (RetryError (Errorf ''backend %s is not accessible'' [S backend])) w
      | (Inr True, w) \<Rightarrow>
          (case Acquire b r w of
             (Inl e, w) \<Rightarrow>
               reportError h (RetryError (Wrapf ''acquire token for %s: %w'' [S backend] e)) w
           | (Inr token, w) \<Rightarrow> after_acquire b h backend def r token w))"

definition with_def ::
  "'q build \<Rightarrow> host \<Rightarrow> hookConfig \<Rightarrow> string \<Rightarrow> string \<Rightarrow> nat option \<Rightarrow> 'q world \<Rightarrow> gerr option \<times> 'q world" where
  "with_def b h cfg jobOwner backend def w =
     (case exportBackendEnv h backend (Def_Environments b def w) w of
        (Some e, w) \<Rightarrow> reportError h (Wrapf ''apply backend env for %s: %w'' [S backend] e) w
      | (None, w) \<Rightarrow>
          (case exportSchedulerJobEnv h cfg jobOwner w of
             (Some e, w) \<Rightarrow> reportError h (Wrapf ''export scheduler job env: %w'' [] e) w
           | (None, w) \<Rightarrow>
               (case NewResource b backend (Def_Type b def w) w of
                  (Inl e, w) \<Rightarrow> reportError h (Wrapf ''new qrmi resource %s: %w'' [S backend] e) w
                | (Inr r, w) \<Rightarrow>
                    (case with_resource b h backend def r w of
                       (res, w) \<Rightarrow> (res, Resource_Close b r w)))))"

definition with_config ::
  "'q build \<Rightarrow> host \<Rightarrow> hookConfig \<Rightarrow> string \<Rightarrow> string \<Rightarrow> nat option \<Rightarrow> 'q world \<Rightarrow> gerr option \<times> 'q world" where
  "with_config b h cfg jobOwner backend qcfg w =
     (case Config_ResourceDef b qcfg backend w of
        (Inl e, w) \<Rightarrow>
          reportError h (JobError (Wrapf ''resource %q not in %s: %w'' [S backend, S (ConfigPath cfg)] e)) w
      | (Inr def, w) \<Rightarrow>
          (case with_def b h cfg jobOwner backend def w of
             (res, w) \<Rightarrow> (res, Def_Close b def w)))"

definition with_job_env ::
  "'q build \<Rightarrow> host \<Rightarrow> hookConfig \<Rightarrow> string \<Rightarrow> string \<Rightarrow> 'q world \<Rightarrow> gerr option \<times> 'q world" where
  "with_job_env b h cfg jobOwner backend w =
     (case ApplyRustLog h (LogLevel cfg) w of
        (Some e, w) \<Rightarrow> reportError h (Wrapf ''apply RUST_LOG: %w'' [] e) w
      | (None, w) \<Rightarrow>
          (case LoadConfig b (ConfigPath cfg) (SetLogCallback b prolog_component w) of
             (Inl e, w) \<Rightarrow> reportError h (Wrapf ''load qrmi config %s: %w'' [S (ConfigPath cfg)] e) w
           | (Inr qcfg, w) \<Rightarrow>
               (case with_config b h cfg jobOwner backend qcfg w of
                  (res, w) \<Rightarrow> (res, Config_Close b qcfg w))))"

definition runWithConfig ::
  "'q build \<Rightarrow> host \<Rightarrow> string \<Rightarrow> hookConfig \<Rightarrow> 'q world \<Rightarrow> gerr option \<times> 'q world" where
  "runWithConfig b h jobOwner cfg w =
     (case readGranted h (ResourceName cfg) (QstatPath cfg) w of
        (Inl e, w) \<Rightarrow>
          if is_requested_not_found e
          then (None, log_info prolog_component
                 (sprintf ''job requests no %s resource; nothing to do'' [S (ResourceName cfg)]) w)
          else (Some e, w)
      | (Inr granted, w) \<Rightarrow>
          (case ParseGrantedBackend granted of
             Inl e \<Rightarrow> (Some (JobError (Wrapf ''parse granted resource value %q: %w'' [S granted] e)), w)
           | Inr backend \<Rightarrow>
               (case checkHostOffers h cfg backend w of
                  (Some e, w) \<Rightarrow> (Some e, w)
                | (None, w) \<Rightarrow>
                    (case OpenJobEnv h w of
                       (Some e, w) \<Rightarrow> (Some e, w)
                     | (None, w) \<Rightarrow>
                         (case with_job_env b h cfg jobOwner backend w of
                            (res, w) \<Rightarrow> (res, snd (Close h w)))))))"

definition prolog_main ::
  "'q build \<Rightarrow> host \<Rightarrow> string list \<Rightarrow> string list \<Rightarrow> 'q world \<Rightarrow> nat \<times> 'q world" where
  "prolog_main b h environ args w =
     (case ResetProcessEnv h environ w of
        (Some e, w) \<Rightarrow>
          (ExitCode (Some e), log_error prolog_component (sprintf ''environment: %v'' [S (error_text e)]) w)
      | (None, w) \<Rightarrow>
          (case parseHookArgs args of
             Inl e \<Rightarrow> (ExitHostError, log_error prolog_component (error_text e) w)
           | Inr (cfg, jobOwner) \<Rightarrow>
               (case runWithConfig b h jobOwner cfg w of
                  (Some e, w) \<Rightarrow> (ExitCode (Some e), log_error prolog_component (error_text e) w)
                | (None, w) \<Rightarrow> (ExitCode None, w))))"

subsection \<open>What a run leaves alone\<close>

lemma same_proc_qlog: "same_proc w w' \<Longrightarrow> qlog w' = qlog w"
  by (simp add: same_proc_def)

lemma qlog_log [simp]:
  "qlog (log_info c m w) = qlog w" "qlog (log_warn c m w) = qlog w" "qlog (log_error c m w) = qlog w"
  by (simp_all add: log_info_def log_warn_def log_error_def log_write_def)

lemma qlog_Set [simp]: "qlog (snd (Set h k v w)) = qlog w"
  by (simp add: Set_def setenv_def Let_def sys_write_def put_files_def count_sys_def
      split: option.split prod.split)

lemma qlog_set_pairs [simp]: "qlog (snd (set_pairs h kvs w)) = qlog w"
proof (induction h kvs w rule: set_pairs.induct)
  case (2 h k v kvs w)
  then show ?case using qlog_Set [of h k v w]
    by (cases "Set h k v w") (auto split: option.split)
qed simp

lemma qlog_set_pairs_run: "set_pairs h kvs w = (r, w') \<Longrightarrow> qlog w' = qlog w"
  using qlog_set_pairs [of h kvs w] by simp

lemma qlog_Set_run: "Set h k v w = (r, w') \<Longrightarrow> qlog w' = qlog w"
  using qlog_Set [of h k v w] by simp

lemma qlog_SetPluginError [simp]: "qlog (snd (SetPluginError h m w)) = qlog w"
proof -
  have "qlog w2 = qlog w1" if "Set h k v w1 = (e, w2)" for k v e and w1 w2 :: "'a world"
    using qlog_Set [of h k v w1] that by simp
  then show ?thesis by (auto simp: SetPluginError_def Let_def split: prod.split)
qed

lemma reportError_Some: "fst (reportError h e w) = Some e"
  by (simp add: reportError_def split: prod.split option.split)

lemma qlog_reportError [simp]: "qlog (snd (reportError h e w)) = qlog w"
proof -
  obtain x w1 where "SetPluginError h (error_text e) w = (x, w1)" by fastforce
  with qlog_SetPluginError [of h "error_text e" w] show ?thesis
    by (simp add: reportError_def split: option.split)
qed

lemma reportError_run: "reportError h e w = (r, w') \<Longrightarrow> r = Some e \<and> qlog w' = qlog w"
  using reportError_Some [of h e w] qlog_reportError [of h e w] by simp

lemma qlog_ApplyRustLog [simp]: "qlog (snd (ApplyRustLog h l w)) = qlog w"
  by (simp add: ApplyRustLog_def split: prod.split)

text \<open>The scheduler's commands only use up system calls.\<close>

definition only_ran :: "'q world \<Rightarrow> 'q world \<Rightarrow> bool" where
  "only_ran w w' = (\<exists>n. w' = w\<lparr>nsys := n\<rparr>)"

lemma only_ran_refl [simp]: "only_ran w w"
  unfolding only_ran_def by (rule exI [of _ "nsys w"]) simp

lemma only_ran_count [simp]: "only_ran w (count_sys w)"
  unfolding only_ran_def count_sys_def by blast

lemma only_ran_trans: "only_ran a b \<Longrightarrow> only_ran b c \<Longrightarrow> only_ran a c"
  by (auto simp: only_ran_def)

lemma only_ran_fields:
  assumes "only_ran w w'"
  shows "files w' = files w" "penv w' = penv w" "jenv w' = jenv w" "qlog w' = qlog w" "logs w' = logs w"
    "lib w' = lib w" "hist w' = hist w"
  using assms by (auto simp: only_ran_def)

lemma runSchedulerCommand_ran: "runSchedulerCommand h p args w = (res, w') \<Longrightarrow> only_ran w w'"
  by (auto simp: runSchedulerCommand_def sys_run_def split: sum.splits prod.splits)

lemma readJobRequested_ran: "readJobRequestedResource h nm q w = (res, w') \<Longrightarrow> only_ran w w'"
  by (auto simp: readJobRequestedResource_def Let_def dest: runSchedulerCommand_ran
      split: if_splits sum.splits prod.splits)

lemma readGranted_ran: "readGranted h nm q w = (res, w') \<Longrightarrow> only_ran w w'"
  unfolding readGranted_def by (rule readJobRequested_ran)

lemma readGrantedSlots_ran: "readGrantedSlots h nm q w = (res, w') \<Longrightarrow> only_ran w w'"
  by (auto simp: readGrantedSlots_def dest: readJobRequested_ran split: sum.splits prod.splits)

lemma checkHostOffers_ran:
  assumes "checkHostOffers h cfg be w = (res, w')"
  shows "only_ran w w'"
proof (cases "hostname h")
  case None
  with assms show ?thesis by (simp add: checkHostOffers_def)
next
  case (Some host)
  let ?q = "path_join [path_dir (QstatPath cfg), ''qconf'']"
  obtain r1 w1 where 1: "runSchedulerCommand h ?q [''-se'', host] w = (r1, w1)" by fastforce
  obtain r2 w2 where 2: "runSchedulerCommand h ?q [''-se'', fst (cut (CHR ''.'') host)] w1 = (r2, w2)"
    by fastforce
  have "w' = w1 \<or> w' = w2"
    using assms by (auto simp: checkHostOffers_def Let_def Some 1 2 split: if_splits sum.splits)
  then show ?thesis
    using runSchedulerCommand_ran [OF 1] runSchedulerCommand_ran [OF 2] only_ran_trans by blast
qed

text \<open>What the prolog asks to set for the job, given the answer about its slots.\<close>

definition job_pairs :: "'q world \<Rightarrow> i64 \<Rightarrow> i64 option \<Rightarrow> (string \<times> string) list" where
  "job_pairs w u slots = filter (\<lambda>p. snd p \<noteq> [])
     ([(''QRMI_JOB_UID'', itoa u), (''QRMI_JOB_ID'', schedulerJobID w)] @
      (case slots of None \<Rightarrow> [] | Some n \<Rightarrow> [(''QRMI_JOB_QPU_SLOTS'', itoa n)]))"

lemma exportSchedulerJobEnv_run:
  assumes "exportSchedulerJobEnv h cfg jo w = (r, w')"
  shows "only_ran w w' \<and> r \<noteq> None \<or>
    (\<exists>u slots w1. schedulerJobUID h jo = Inr u \<and> only_ran w w1 \<and>
       (if SlotsResourceName cfg = [] then slots = None \<and> w1 = w
        else readGrantedSlots h (SlotsResourceName cfg) (QstatPath cfg) w = (Inr slots, w1)) \<and>
       set_pairs h (job_pairs w u slots) w1 = (r, w'))"
proof (cases "schedulerJobUID h jo")
  case (Inl e)
  with assms show ?thesis by (auto simp: exportSchedulerJobEnv_def)
next
  case (Inr u)
  obtain s w1 where s: "(if SlotsResourceName cfg = [] then (Inr None, w)
      else readGrantedSlots h (SlotsResourceName cfg) (QstatPath cfg) w) = (s, w1)" by fastforce
  then have "only_ran w w1" by (auto dest: readGrantedSlots_ran split: if_splits)
  moreover have e: "exportSchedulerJobEnv h cfg jo w =
      (case s of Inl e \<Rightarrow> (Some e, w1) | Inr slots \<Rightarrow> set_pairs h (job_pairs w u slots) w1)"
    using s by (cases "SlotsResourceName cfg = []"; cases s)
      (auto simp: exportSchedulerJobEnv_def Let_def job_pairs_def Inr
        simp del: set_pairs.simps filter.simps filter_append append.simps)
  ultimately show ?thesis
  proof (cases s)
    case (Inr slots)
    have "set_pairs h (job_pairs w u slots) w1 = (r, w')" using e assms Inr by simp
    with \<open>only_ran w w1\<close> s \<open>schedulerJobUID h jo = Inr u\<close> show ?thesis
      by (intro disjI2 exI [of _ u] exI [of _ slots] exI [of _ w1]) (simp add: Inr split: if_splits)
  qed (use assms e in simp)
qed

lemma qlog_exportSchedulerJobEnv: "exportSchedulerJobEnv h cfg jo w = (r, w') \<Longrightarrow> qlog w' = qlog w"
  by (drule exportSchedulerJobEnv_run) (auto dest!: only_ran_fields(4) qlog_set_pairs_run)

lemma qlog_exportRuntimeEnv: "exportRuntimeEnv h be t ts w = (r, w') \<Longrightarrow> qlog w' = qlog w"
  unfolding exportRuntimeEnv_def by (rule qlog_set_pairs_run)

lemma qlog_exportBackendEnv: "exportBackendEnv h be env w = (r, w') \<Longrightarrow> qlog w' = qlog w"
  unfolding exportBackendEnv_def by (rule qlog_set_pairs_run)

lemma WriteAtomic_proc: "WriteAtomic h p rs w = (r, w') \<Longrightarrow> same_proc w w'"
proof -
  let ?pre = "''qrmi_ocs_acquired.''" and ?suf = "''.tsv''"
  assume *: "WriteAtomic h p rs w = (r, w')"
  obtain x w1 where 1: "sys_create_temp h (path_dir p) ?pre ?suf w = (x, w1)" by fastforce
  have q1: "same_proc w w1" using sys_same_proc(11) [of w h "path_dir p" ?pre ?suf] 1 by simp
  show ?thesis
  proof (cases x)
    case (Inl e)
    then show ?thesis using * 1 q1 by (simp add: WriteAtomic_def Let_def)
  next
    case (Inr tmp)
    obtain y w2 where 2: "write_tmp h p tmp rs w1 = (y, w2)" by fastforce
    have f: "file_data (files w1) tmp = Some []" using create_temp_only_at 1 Inr by blast
    have "same_proc w1 w2" using write_tmp_cases [OF 2 f] sys_same_proc(8)
      by (metis only_at_proc same_proc_trans snd_conv)
    with q1 have "same_proc w w2" by (rule same_proc_trans)
    then have "same_proc w (snd (sys_remove h tmp w2))" using sys_same_proc(7) by (rule same_proc_trans)
    then show ?thesis using * 1 2 Inr by (simp add: WriteAtomic_def Let_def)
  qed
qed

lemmas qlog_WriteAtomic = WriteAtomic_proc [THEN same_proc_qlog]

subsection \<open>Tokens and handles\<close>

text \<open>
  \<open>ends st res w w'\<close>: a phase that makes the calls \<open>es\<close>, with the handles of \<open>st\<close> open: it closes
  what it opens, and when it reports an error it holds no token.
\<close>

definition ends :: "handle list \<Rightarrow> gerr option \<Rightarrow> 'q world \<Rightarrow> 'q world \<Rightarrow> bool" where
  "ends st res w w' = (\<exists>es. qlog w' = qlog w @ es \<and> nested st es \<and>
     (res \<noteq> None \<longrightarrow> unreleased [] es = []))"

lemma ends_quiet: "qlog w' = qlog w \<Longrightarrow> ends st res w w'"
  unfolding ends_def by (rule exI [of _ "[]"]) simp

lemma ends_report: "reportError h e w = (res, w') \<Longrightarrow> ends st res w w'"
  using reportError_run ends_quiet by blast

text \<open>The outer phases put an opening and a closing call around an inner one.\<close>

lemma ends_scope:
  assumes "scoped opn cls hdl" "qlog w1 = qlog w @ [opn]" "ends (hdl # st) res w1 w2"
    and "qlog w3 = qlog w2 @ [cls]"
    and "\<And>held. unreleased held [opn] = held" "\<And>held. unreleased held [cls] = held"
  shows "ends st res w w3"
proof -
  obtain es where es: "qlog w2 = qlog w1 @ es" "nested (hdl # st) es" "res \<noteq> None \<longrightarrow> unreleased [] es = []"
    using assms(3) by (auto simp: ends_def)
  have "nested st ([opn] @ es @ [cls])" using scoped.nested_scope [OF assms(1) es(2)] .
  moreover have "qlog w3 = qlog w @ ([opn] @ es @ [cls])" using assms(2,4) es(1) by simp
  moreover have "res \<noteq> None \<longrightarrow> unreleased [] ([opn] @ es @ [cls]) = []"
    using es(3) unfolding unreleased_append assms(5,6) by simp
  ultimately show ?thesis unfolding ends_def by blast
qed

lemma ends_after: "qlog w1 = qlog w \<Longrightarrow> ends st res w1 w2 \<Longrightarrow> ends st res w w2"
  by (simp add: ends_def)

lemma after_acquire_calls:
  assumes "after_acquire (Real api) h be def (Some r) t w = (res, w')" "c_string t = t"
  shows "\<exists>es. qlog w' = qlog w @ es \<and> (if res = None then es = [] else \<exists>ok. es = [QRelease r t ok])"
proof -
  have rel: "\<exists>ok. qlog u' = qlog u @ [QRelease r t ok] \<and> x \<noteq> None"
    if "release_and_report (Real api) h (Some r) t e u = (x, u')" for e x and u u' :: "'a world"
  proof -
    obtain y v where 1: "Release (Real api) (Some r) t u = (y, v)" by fastforce
    then have "reportError h e v = (x, u')" using that by (simp add: release_and_report_def)
    then show ?thesis using lib_call_qlog [OF Release_call [OF 1]] assms(2) by (auto dest!: reportError_run)
  qed
  show ?thesis using assms(1) unfolding after_acquire_def
    by (auto split: prod.splits option.splits sum.splits
        dest!: rel qlog_exportRuntimeEnv qlog_WriteAtomic qlog_Set_run)
qed

lemma with_resource_ends:
  assumes "with_resource b h be def (Some r) w = (res, w')" "b \<noteq> Stub"
  shows "ends (HResource r # st) res w w'"
proof -
  obtain api where b: "b = Real api" using assms(2) by (cases b) auto
  obtain x w1 where 1: "IsAccessible b (Some r) w = (x, w1)" by fastforce
  note i = IsAccessible_call [OF 1]
  show ?thesis
  proof (cases x)
    case (Inl e)
    then show ?thesis using assms(1) 1 i
      by (auto simp: with_resource_def dest!: lib_call_qlog reportError_run intro: ends_quiet)
  next
    case (Inr a)
    then have q1: "qlog w1 = qlog w @ [QAccessible r a]" using i by (simp add: lib_call_qlog)
    obtain y w2 where 2: "Acquire b (Some r) w1 = (y, w2)" by fastforce
    have quiet: "ends (HResource r # st) res w w'" if "reportError h e w1' = (res, w')" "qlog w1' = qlog w1" for e w1'
      using reportError_run [OF that(1)] that(2) q1 unfolding ends_def
      by (intro exI [of _ "[QAccessible r a]"]) simp
    show ?thesis
    proof (cases "a \<and> (\<exists>t. y = Inr t)")
      case False
      then show ?thesis using assms(1) 1 Inr 2 quiet
        by (cases a; cases y) (auto simp: with_resource_def dest!: Acquire_Inl lib_call_qlog)
    next
      case True
      then obtain t where t: "a" "y = Inr t" by blast
      note a = Acquire_Inr [OF 2 [unfolded t(2)]]
      have "after_acquire b h be def (Some r) t w2 = (res, w')"
        using assms(1) 1 Inr 2 t by (simp add: with_resource_def)
      from after_acquire_calls [OF this [unfolded b]] a obtain es where
        es: "qlog w' = qlog w2 @ es" "if res = None then es = [] else \<exists>ok. es = [QRelease r t ok]" by blast
      have "qlog w' = qlog w @ ([QAccessible r a] @ [QAcquire r t] @ es)"
        using es(1) q1 lib_call_qlog [of "[QAcquire r t]" w1 w2] a by simp
      moreover have "nested (HResource r # st) es" "res \<noteq> None \<longrightarrow> unreleased [] ([QAccessible r a] @ [QAcquire r t] @ es) = []"
        using es(2) by (auto split: if_splits)
      ultimately show ?thesis unfolding ends_def by (metis nested_append nested_use(1,2))
    qed
  qed
qed

lemma build_Real: "b \<noteq> Stub \<Longrightarrow> \<exists>api. b = Real api"
  by (cases b) auto

lemma with_def_ends:
  assumes "with_def b h cfg jo be def w = (res, w')" "b \<noteq> Stub"
  shows "ends st res w w'"
proof -
  obtain x w1 where 1: "exportBackendEnv h be (Def_Environments b def w) w = (x, w1)" by fastforce
  obtain y w2 where 2: "exportSchedulerJobEnv h cfg jo w1 = (y, w2)" by fastforce
  note q = qlog_exportBackendEnv [OF 1] qlog_exportSchedulerJobEnv [OF 2]
  obtain z w3 where 3: "NewResource b be (Def_Type b def w2) w2 = (z, w3)" by fastforce
  show ?thesis
  proof (cases "x = None \<and> y = None \<and> (\<exists>r. z = Inr r)")
    case False
    then have "qlog w' = qlog w" using assms(1) 1 2 3 q
      by (cases x; cases y; cases z)
        (auto simp: with_def_def dest!: reportError_run NewResource_Inl lib_call_qlog)
    then show ?thesis by (rule ends_quiet)
  next
    case True
    then obtain r n where r: "x = None" "y = None" "z = Inr (Some n)"
      and c: "lib_call [QResourceNew n (c_string be) (ucast (Def_Type b def w2))] w2 w3"
      using NewResource_Inr 3 by blast
    obtain u w4 where 4: "with_resource b h be def (Some n) w3 = (u, w4)" by fastforce
    have e: "res = u" "w' = Resource_Close b (Some n) w4"
      using assms(1) 1 2 3 4 r by (simp_all add: with_def_def)
    have f: "qlog w' = qlog w4 @ [QResourceFree n]"
      using Resource_Close_call build_Real [OF assms(2)] e(2) lib_call_qlog by blast
    show ?thesis
      by (rule ends_scope [OF resource_scope.scoped_axioms _ with_resource_ends [OF 4 assms(2)] f,
            where w = w, folded e(1)])
        (use lib_call_qlog [OF c] q in auto)
  qed
qed

lemma with_config_ends:
  assumes "with_config b h cfg jo be qcfg w = (res, w')" "b \<noteq> Stub"
  shows "ends st res w w'"
proof -
  obtain x w1 where 1: "Config_ResourceDef b qcfg be w = (x, w1)" by fastforce
  show ?thesis
  proof (cases x)
    case (Inl e)
    then have "qlog w' = qlog w" using assms(1) 1
      by (auto simp: with_config_def dest!: reportError_run ResourceDef_Inl lib_call_qlog)
    then show ?thesis by (rule ends_quiet)
  next
    case (Inr d)
    then obtain n where n: "d = Some n" "lib_call [QDefGet n] w w1" using ResourceDef_Inr 1 by blast
    obtain u w2 where 2: "with_def b h cfg jo be d w1 = (u, w2)" by fastforce
    have e: "res = u" "w' = Def_Close b (Some n) w2"
      using assms(1) 1 2 Inr n by (simp_all add: with_config_def)
    have f: "qlog w' = qlog w2 @ [QDefFree n]"
      using Def_Close_call build_Real [OF assms(2)] e(2) lib_call_qlog by blast
    show ?thesis
      by (rule ends_scope [OF def_scope.scoped_axioms lib_call_qlog [OF n(2)] with_def_ends [OF 2 assms(2)] f,
            folded e(1)]) simp_all
  qed
qed

lemma with_job_env_ends:
  assumes "with_job_env b h cfg jo be w = (res, w')" "b \<noteq> Stub"
  shows "ends st res w w'"
proof -
  obtain x w1 where 1: "ApplyRustLog h (LogLevel cfg) w = (x, w1)" by fastforce
  have q1: "qlog w1 = qlog w" using qlog_ApplyRustLog [of h "LogLevel cfg" w] 1 by simp
  let ?w = "SetLogCallback b prolog_component w1"
  have q2: "qlog ?w = qlog w1" using lib_call_qlog [OF SetLogCallback_call] by fastforce
  obtain y w2 where 2: "LoadConfig b (ConfigPath cfg) ?w = (y, w2)" by fastforce
  show ?thesis
  proof (cases "x = None \<and> (\<exists>c. y = Inr c)")
    case False
    then have "qlog w' = qlog w" using assms(1) 1 2 q1 q2
      by (cases x; cases y) (auto simp: with_job_env_def dest!: reportError_run LoadConfig_Inl lib_call_qlog)
    then show ?thesis by (rule ends_quiet)
  next
    case True
    then obtain n where n: "x = None" "y = Inr (Some n)" "lib_call [QConfigLoad n] ?w w2"
      using LoadConfig_Inr 2 by blast
    obtain u w3 where 3: "with_config b h cfg jo be (Some n) w2 = (u, w3)" by fastforce
    have e: "res = u" "w' = Config_Close b (Some n) w3"
      using assms(1) 1 2 3 n by (simp_all add: with_job_env_def)
    have f: "qlog w' = qlog w3 @ [QConfigFree n]"
      using Config_Close_call build_Real [OF assms(2)] e(2) lib_call_qlog by blast
    show ?thesis
      by (rule ends_scope [OF config_scope.scoped_axioms _ with_config_ends [OF 3 assms(2)] f,
            where w = w, folded e(1)])
        (use lib_call_qlog [OF n(3)] q1 q2 in auto)
  qed
qed

lemma Close_qlog [simp]: "qlog (snd (Close h w)) = qlog w"
  using Close_frame files_at_lib by blast

text \<open>The stub build acquires nothing.\<close>

lemma with_job_env_Stub: "with_job_env Stub h cfg jo be w = (res, w') \<Longrightarrow> qlog w' = qlog w \<and> res \<noteq> None"
proof -
  assume *: "with_job_env Stub h cfg jo be w = (res, w')"
  obtain x w1 where 1: "ApplyRustLog h (LogLevel cfg) w = (x, w1)" by fastforce
  have "qlog w1 = qlog w" using qlog_ApplyRustLog [of h "LogLevel cfg" w] 1 by simp
  with * 1 show ?thesis
    by (cases x) (auto simp: with_job_env_def LoadConfig_def SetLogCallback_def dest!: reportError_run)
qed

lemma runWithConfig_ends:
  assumes "runWithConfig b h jo cfg w = (res, w')"
  shows "ends [] res w w'"
proof -
  obtain x w1 where 1: "readGranted h (ResourceName cfg) (QstatPath cfg) w = (x, w1)" by fastforce
  note q1 = only_ran_fields(4) [OF readGranted_ran [OF 1]]
  show ?thesis
  proof (cases "\<exists>g be. x = Inr g \<and> ParseGrantedBackend g = Inr be")
    case False
    then have "qlog w' = qlog w" using assms 1 q1
      by (auto simp: runWithConfig_def split: sum.splits if_splits)
    then show ?thesis by (rule ends_quiet)
  next
    case True
    then obtain g be where g: "x = Inr g" "ParseGrantedBackend g = Inr be" by blast
    obtain y w2 where 2: "checkHostOffers h cfg be w1 = (y, w2)" by fastforce
    obtain z w3 where 3: "OpenJobEnv h w2 = (z, w3)" by fastforce
    note q2 = only_ran_fields(4) [OF checkHostOffers_ran [OF 2]]
    have q3: "qlog w3 = qlog w2"
      using OpenJobEnv_ok [of h w2 w3] OpenJobEnv_fails [of h w2 _ w3] files_at_lib 3
      by (cases z) blast+
    obtain u w4 where 4: "with_job_env b h cfg jo be w3 = (u, w4)" by fastforce
    show ?thesis
    proof (cases "y = None \<and> z = None")
      case False
      then have "qlog w' = qlog w" using assms 1 2 3 g q1 q2 q3
        by (cases y; cases z) (auto simp: runWithConfig_def)
      then show ?thesis by (rule ends_quiet)
    next
      case True
      then have e: "res = u" "w' = snd (Close h w4)" using assms 1 2 3 4 g by (simp_all add: runWithConfig_def)
      have "ends [] u w3 w4"
        using with_job_env_ends [OF 4] with_job_env_Stub ends_quiet 4 by (cases "b = Stub") blast+
      then show ?thesis using e q1 q2 q3 by (simp add: ends_def)
    qed
  qed
qed

subsection \<open>What a successful run leaves\<close>

text \<open>
  \<open>mirrors kvs w w'\<close>: the variables \<open>kvs\<close> were set in the process and appended to the job
  environment file, which stays open.
\<close>

definition env_ready :: "'q world \<Rightarrow> bool" where
  "env_ready w = (\<exists>je old. jenv w = Some je \<and> file_data (files w) (jpath je) = Some old)"

definition mirrors :: "(string \<times> string) list \<Rightarrow> 'q world \<Rightarrow> 'q world \<Rightarrow> bool" where
  "mirrors kvs w w' = (\<exists>je old. jenv w = Some je \<and> jenv w' = Some je \<and>
     file_data (files w) (jpath je) = Some old \<and>
     file_data (files w') (jpath je) = Some (old @ env_text kvs) \<and>
     penv w' = penv w ++ map_of (rev kvs))"

lemma mirrors_refl: "env_ready w \<Longrightarrow> mirrors [] w w"
  by (auto simp: env_ready_def mirrors_def)

lemma mirrors_ready: "mirrors kvs w w' \<Longrightarrow> env_ready w'"
  by (auto simp: env_ready_def mirrors_def)

lemma mirrors_trans: "mirrors a u v \<Longrightarrow> mirrors b v w \<Longrightarrow> mirrors (a @ b) u w"
  by (auto simp: mirrors_def)

lemma mirrors_same:
  "mirrors kvs u v \<Longrightarrow> jenv w = jenv v \<Longrightarrow> penv w = penv v \<Longrightarrow> files w = files v \<Longrightarrow> mirrors kvs u w"
  by (simp add: mirrors_def)

lemma mirrors_lib_call: "mirrors kvs u v \<Longrightarrow> lib_call es v w \<Longrightarrow> mirrors kvs u w"
  by (erule mirrors_same) (simp_all add: lib_call_def)

lemma mirrors_ran: "mirrors kvs u v \<Longrightarrow> only_ran v w \<Longrightarrow> mirrors kvs u w"
  by (erule mirrors_same) (simp_all add: only_ran_fields)

lemma mirrors_log: "mirrors kvs u v \<Longrightarrow> mirrors kvs u (log_info c m v)"
  by (erule mirrors_same) (simp_all add: log_info_def log_write_def)

lemma mirrors_set_pairs:
  assumes "mirrors a u v" "set_pairs h kvs v = (None, w)"
  shows "mirrors (a @ kvs) u w"
proof -
  obtain je old where e: "jenv v = Some je" "file_data (files v) (jpath je) = Some old"
    using assms(1) by (auto simp: mirrors_def)
  have "mirrors kvs v w" using set_pairs_ok [OF assms(2) e] e by (auto simp: mirrors_def)
  with assms(1) show ?thesis by (rule mirrors_trans)
qed

lemma mirrors_Set:
  assumes "mirrors a u v" "Set h k x v = (None, w)"
  shows "mirrors (a @ [(k, x)]) u w"
proof -
  have "set_pairs h [(k, x)] v = (None, w)" using assms(2) by simp
  with assms(1) show ?thesis by (rule mirrors_set_pairs)
qed

lemma mirrors_only_at:
  assumes "mirrors kvs u v" "only_at P v w" "Path v \<notin> P"
  shows "mirrors kvs u w"
proof -
  obtain je where e: "jenv v = Some je" "jpath je \<notin> P"
    using assms(1,3) by (auto simp: mirrors_def Path_def)
  have "same_proc v w" using assms(2) by (rule only_at_proc)
  then show ?thesis using assms(1) e only_at_file_data [OF assms(2) e(2)]
    by (auto simp: mirrors_def same_proc_def)
qed

lemma MetadataFilename_not: "MetadataFilename \<noteq> ''environment''"
  by (simp add: MetadataFilename_def)

text \<open>The job environment file is not one of the metadata files.\<close>

lemma env_not_metadata:
  assumes "is_abs d" "is_abs d'"
  shows "path_join [d, ''environment''] \<notin>
    insert (path_join [d', MetadataFilename]) (temp_names h (path_join [d', MetadataFilename]))"
proof -
  obtain es where es: "\<forall>x \<in> set es. normal_elem x"
    "path_join [d', MetadataFilename] = abs_path (es @ [MetadataFilename])"
    using path_join_absE [OF assms(2) normal_MetadataFilename] by metis
  have base: "path_base (path_join [a, x]) = x" if "is_abs a" "normal_elem x" for a x
    using path_join_absE [OF that] path_base_abs that(2) by metis
  have "path_join [d, ''environment''] \<noteq> path_join [abs_path es, ''qrmi_ocs_acquired.'' @ temp_random r @ ''.tsv'']" for r
    using base [of d "''environment''"] assms(1) path_join_abs [OF es(1) normal_temp_name [of r]]
      path_base_abs [OF normal_temp_name [of r], of es] by auto
  moreover have "path_join [d, ''environment''] \<noteq> path_join [d', MetadataFilename]"
    using base [of d "''environment''"] base [of d' MetadataFilename] assms
    by (metis normal_MetadataFilename normal_names(2) MetadataFilename_not)
  ultimately show ?thesis using es by (auto simp: temp_names_def path_dir_abs)
qed

lemma getenv_upd: "penv w' = penv w ++ map_of (rev kvs) \<Longrightarrow> k \<notin> fst ` set kvs \<Longrightarrow> getenv w' k = getenv w k"
  by (simp add: getenv_def map_add_dom_app_simps(3) dom_map_of_conv_image_fst)

lemma token_key_not_spool: "token_key be \<noteq> ''SGE_JOB_SPOOL_DIR''"
proof
  assume "token_key be = ''SGE_JOB_SPOOL_DIR''"
  then have "last (token_key be) = last ''SGE_JOB_SPOOL_DIR''" by (rule arg_cong)
  then show False by (simp add: token_key_def)
qed

lemma runtime_not_spool: "''SGE_JOB_SPOOL_DIR'' \<notin> fst ` set (runtime_pairs be t ts)"
  using token_key_not_spool [of be] by (auto simp: runtime_pairs_def)

lemma release_and_report_Some: "release_and_report b h r t e w \<noteq> (None, w')"
  using reportError_Some [of h e] by (metis fst_conv option.distinct(1) release_and_report_def)

lemma after_acquire_ok:
  assumes "after_acquire b h be def r t w = (None, w')" "mirrors kvs u w"
    and env: "Path w = path_join [d, ''environment'']" "is_abs d" "is_abs (getenv w' ''SGE_JOB_SPOOL_DIR'')"
  shows "\<exists>meta. mirrors (kvs @ runtime_pairs be t (type_text b def w) @ [(PrologStatusKey, ''success'')]) u w' \<and>
    ResolveMetadataPath w' = Inr meta \<and>
    file_data (files w') meta = Some (record_line (acquired_record b h be def t w)) \<and>
    writable_record (acquired_record b h be def t w)"
proof -
  let ?rec = "acquired_record b h be def t w" and ?ts = "type_text b def w"
  obtain x w1 where 1: "exportRuntimeEnv h be t ?ts w = (x, w1)" by fastforce
  have x: "x = None" using assms(1) 1
    by (cases x) (auto simp: after_acquire_def release_and_report_Some)
  have m1: "mirrors (kvs @ runtime_pairs be t ?ts) u w1"
    using mirrors_set_pairs [OF assms(2)] 1 x by (simp add: exportRuntimeEnv_def)
  obtain meta where meta: "ResolveMetadataPath w1 = Inr meta"
    using assms(1) 1 x by (cases "ResolveMetadataPath w1")
      (auto simp: after_acquire_def release_and_report_Some)
  obtain y w2 where 2: "WriteAtomic h meta [?rec] w1 = (y, w2)" by fastforce
  have y: "y = None" using assms(1) 1 2 x meta
    by (cases y) (auto simp: after_acquire_def release_and_report_Some)
  obtain z w3 where 3: "Set h PrologStatusKey ''success'' w2 = (z, w3)" by fastforce
  have z: "z = None" using assms(1) 1 2 3 x y meta
    by (cases z) (auto simp: after_acquire_def release_and_report_Some)
  have w': "w' = log_info prolog_component (sprintf ''acquired 1 backend resource(s): %s'' [S be]) w3"
    using assms(1) 1 2 3 x y z meta by (simp add: after_acquire_def)
  obtain je where je: "jenv w = Some je" "jenv w1 = Some je"
    using set_pairs_frame [of h "runtime_pairs be t ?ts" w x w1] m1 1 assms(2)
    by (auto simp: mirrors_def)
  have p2: "penv w2 = penv w1" "jenv w2 = jenv w1"
    using WriteAtomic_proc [OF 2] by (simp_all add: same_proc_def)
  have ok3: "penv w3 = (penv w2)(PrologStatusKey \<mapsto> ''success'')" "jenv w3 = Some je"
      "files w3 = append_data (files w2) (jpath je) (env_line PrologStatusKey ''success'')"
    using Set_ok [of h PrologStatusKey "''success''" w2 w3 je] 3 z p2 je by simp_all
  have same: "penv w' = penv w3" "jenv w' = jenv w3" "files w' = files w3"
    by (simp_all add: w' log_info_def log_write_def)
  have spool: "getenv w' ''SGE_JOB_SPOOL_DIR'' = getenv w1 ''SGE_JOB_SPOOL_DIR''"
    by (simp add: same ok3 p2 getenv_def PrologStatusKey_def)
  have mp: "meta = path_join [getenv w1 ''SGE_JOB_SPOOL_DIR'', MetadataFilename]"
    "ResolveMetadataPath w' = Inr meta"
    using meta spool by (auto simp: ResolveMetadataPath_def Let_def split: if_splits)
  note abs = env(3) [unfolded spool]
  note wa = WriteAtomic_run [OF 2, unfolded mp(1), OF metadata_not_temp [OF abs], folded mp(1)]
  have jp: "jpath je = path_join [d, ''environment'']" using env(1) je by (simp add: Path_def)
  have ne: "jpath je \<notin> insert meta (temp_names h meta)"
    using env_not_metadata [OF env(2) abs] by (simp add: jp mp(1))
  have m2: "mirrors (kvs @ runtime_pairs be t ?ts) u w2"
    by (rule mirrors_only_at [OF m1]) (use wa ne je in \<open>auto simp: Path_def\<close>)
  have "mirrors (kvs @ runtime_pairs be t ?ts @ [(PrologStatusKey, ''success'')]) u w3"
    using mirrors_Set [OF m2] 3 z by simp
  then have "mirrors (kvs @ runtime_pairs be t ?ts @ [(PrologStatusKey, ''success'')]) u w'"
    by (rule mirrors_same) (simp_all add: same)
  moreover have "files w' meta = files w2 meta" using ne append_data_other by (simp add: same ok3, metis)
  then have "file_data (files w') meta = Some (record_line ?rec)" using wa y by (simp add: file_data_def)
  moreover have "writable_record ?rec" using wa y by simp
  ultimately show ?thesis using mp(2) by blast
qed

text \<open>The phases of a run that reports no error.\<close>

lemma with_def_ok:
  assumes "with_def b h cfg jo be def w = (None, w')" "b \<noteq> Stub"
  shows "\<exists>w1 w2 n t w3 w4. exportBackendEnv h be (Def_Environments b def w) w = (None, w1) \<and>
    exportSchedulerJobEnv h cfg jo w1 = (None, w2) \<and>
    lib_call [QResourceNew n (c_string be) (ucast (Def_Type b def w2)), QAccessible n True, QAcquire n t] w2 w3 \<and>
    (\<exists>u v. Acquire b (Some n) u = (Inr t, v)) \<and> after_acquire b h be def (Some n) t w3 = (None, w4) \<and> lib_call [QResourceFree n] w4 w'"
proof -
  obtain x w1 where 1: "exportBackendEnv h be (Def_Environments b def w) w = (x, w1)" by fastforce
  have x: "x = None" using assms(1) 1 by (cases x) (auto simp: with_def_def dest: reportError_run)
  obtain y w2 where 2: "exportSchedulerJobEnv h cfg jo w1 = (y, w2)" by fastforce
  have y: "y = None" using assms(1) 1 2 x by (cases y) (auto simp: with_def_def dest: reportError_run)
  obtain z u where 3: "NewResource b be (Def_Type b def w2) w2 = (z, u)" by fastforce
  obtain m where m: "z = Inr m"
    using assms(1) 1 2 3 x y by (cases z) (auto simp: with_def_def dest: reportError_run)
  obtain n where z: "z = Inr (Some n)"
    and c: "lib_call [QResourceNew n (c_string be) (ucast (Def_Type b def w2))] w2 u"
    using NewResource_Inr [OF 3 [unfolded m]] m by blast
  obtain r w4 where 4: "with_resource b h be def (Some n) u = (r, w4)" by fastforce
  have r: "r = None" "w' = Resource_Close b (Some n) w4"
    using assms(1) 1 2 3 4 x y z by (simp_all add: with_def_def)
  obtain a u1 where 5: "IsAccessible b (Some n) u = (a, u1)" by fastforce
  have a: "a = Inr True" using 4 r 5
    by (cases a; cases "projr a") (auto simp: with_resource_def dest: reportError_run)
  obtain k w3 where 6: "Acquire b (Some n) u1 = (k, w3)" by fastforce
  obtain t where t: "k = Inr t" using 4 r 5 6 a
    by (cases k) (auto simp: with_resource_def dest: reportError_run)
  have "after_acquire b h be def (Some n) t w3 = (None, w4)"
    using 4 r 5 6 a t by (simp add: with_resource_def)
  moreover have "lib_call ([QResourceNew n (c_string be) (ucast (Def_Type b def w2))] @ [QAccessible n True] @ [QAcquire n t]) w2 w3"
    using c IsAccessible_call [OF 5] a Acquire_Inr 6 t
    by (metis lib_call_trans sum.case(2))
  moreover have "lib_call [QResourceFree n] w4 w'"
    using Resource_Close_call build_Real [OF assms(2)] r(2) by metis
  moreover have "\<exists>u v. Acquire b (Some n) u = (Inr t, v)" using 6 t by blast
  ultimately show ?thesis using 1 2 x y
    by (intro exI [of _ w1] exI [of _ w2] exI [of _ n] exI [of _ t] exI [of _ w3] exI [of _ w4]) simp
qed

end
