(* ===== verification/Prolog_Run.thy ===== *)
theory Prolog_Run
  imports Prolog
begin

text \<open>
  What a run of the prolog promises: no leak, success on a quiet host with a library that grants
  tokens, and that it acts on the word of the scheduler only. The lemmas on a successful run are for
  \<open>Prolog_Result\<close>, which says what it leaves, and for the theories on the life of a job.
\<close>

definition meta_of :: "'q world \<Rightarrow> acq_record \<Rightarrow> bool" where
  "meta_of w rec = (writable_record rec \<and> 0 \<le> sint (rec_type rec) \<and>
     (\<exists>meta. ResolveMetadataPath w = Inr meta \<and> file_data (files w) meta = Some (record_line rec)))"

text \<open>A C enumeration is never negative.\<close>

lemma ucast_u32_nonneg: "0 \<le> sint (ucast (x :: u32) :: i64)"
proof -
  have "\<not> bit (ucast x :: i64) 63" by (auto simp: bit_simps dest: bit_imp_le_length)
  then show ?thesis using bit_last_iff [of "ucast x :: i64"] by (simp add: not_less)
qed

lemma Def_Type_nonneg: "0 \<le> sint (Def_Type b def w)"
  using ucast_u32_nonneg by (simp add: Def_Type_def split: build.split option.split)

lemma meta_of_same: "meta_of v rec \<Longrightarrow> penv w = penv v \<Longrightarrow> files w = files v \<Longrightarrow> meta_of w rec"
  by (simp add: meta_of_def ResolveMetadataPath_def getenv_def Let_def)

lemma getenv_same: "penv w = penv v \<Longrightarrow> getenv w k = getenv v k"
  by (simp add: getenv_def)

lemma lib_call_penv: "lib_call es v w \<Longrightarrow> penv w = penv v \<and> files w = files v \<and> jenv w = jenv v"
  by (simp add: lib_call_def)

lemma mirrors_Path: "mirrors kvs v w \<Longrightarrow> Path w = Path v"
  by (auto simp: mirrors_def Path_def)

definition env_at :: "string \<Rightarrow> 'q world \<Rightarrow> bool" where
  "env_at d w = (env_ready w \<and> Path w = path_join [d, ''environment''])"

text \<open>The calls of a successful run, from the inside out.\<close>

definition came_from :: "'q build \<Rightarrow> nat option \<Rightarrow> i64 \<Rightarrow> string \<Rightarrow> bool" where
  "came_from b def ty t =
     ((\<exists>v :: 'q world. ty = Def_Type b def v) \<and> (\<exists>n (u :: 'q world) v. Acquire b (Some n) u = (Inr t, v)))"

definition acquire_calls :: "string \<Rightarrow> u32 \<Rightarrow> nat \<Rightarrow> string \<Rightarrow> qevent list" where
  "acquire_calls be ty n t =
     [QResourceNew n (c_string be) ty, QAccessible n True, QAcquire n t, QResourceFree n]"

lemma after_acquire_quiet: "after_acquire b h be def r t w = (None, w') \<Longrightarrow> qlog w' = qlog w"
  unfolding after_acquire_def
  by (auto split: prod.splits option.splits sum.splits simp: release_and_report_Some
      dest!: qlog_exportRuntimeEnv qlog_WriteAtomic qlog_Set_run)

lemma with_def_mirrors:
  assumes run: "with_def b h cfg jo be def w = (None, w')" "b \<noteq> Stub"
    and env: "env_at d w" "is_abs d" "is_abs (getenv w' ''SGE_JOB_SPOOL_DIR'')"
  shows "\<exists>kvs n t ts ty ty'. mirrors (kvs @ runtime_pairs be t ts @ [(PrologStatusKey, ''success'')]) w w' \<and>
    qlog w' = qlog w @ acquire_calls be ty' n t \<and> came_from b def ty t \<and>
    meta_of w' \<lparr>rec_name = be, rec_type = ty, rec_token = t, rec_epoch = now h\<rparr>"
proof -
  obtain w1 w2 n t w3 w4 where 1: "exportBackendEnv h be (Def_Environments b def w) w = (None, w1)"
    and 2: "exportSchedulerJobEnv h cfg jo w1 = (None, w2)"
    and 3: "lib_call [QResourceNew n (c_string be) (ucast (Def_Type b def w2)), QAccessible n True, QAcquire n t] w2 w3"
    and 4: "\<exists>u v. Acquire b (Some n) u = (Inr t, v)" "after_acquire b h be def (Some n) t w3 = (None, w4)"
    and 5: "lib_call [QResourceFree n] w4 w'"
    using with_def_ok [OF run] by blast
  have m1: "mirrors (backend_pairs be (Def_Environments b def w)) w w1"
    using mirrors_set_pairs [OF mirrors_refl, of w] 1 env(1) by (fastforce simp: env_at_def exportBackendEnv_def)
  obtain u slots v where 21: "only_ran w1 v" and 22: "set_pairs h (job_pairs w1 u slots) v = (None, w2)"
    using exportSchedulerJobEnv_run [OF 2] by blast
  let ?kvs = "backend_pairs be (Def_Environments b def w) @ job_pairs w1 u slots"
  have m3: "mirrors ?kvs w w3"
    using mirrors_lib_call [OF mirrors_set_pairs [OF mirrors_ran [OF m1 21] 22] 3] .
  have "getenv w' ''SGE_JOB_SPOOL_DIR'' = getenv w4 ''SGE_JOB_SPOOL_DIR''"
    using lib_call_penv [OF 5] getenv_same by blast
  with env have e3: "Path w3 = path_join [d, ''environment'']" "is_abs (getenv w4 ''SGE_JOB_SPOOL_DIR'')"
    using mirrors_Path [OF m3] by (simp_all add: env_at_def)
  have m4: "mirrors (?kvs @ runtime_pairs be t (type_text b def w3) @ [(PrologStatusKey, ''success'')]) w w4"
    and f: "meta_of w4 (acquired_record b h be def t w3)"
    using after_acquire_ok [OF 4(2) m3 e3(1) env(2) e3(2)] Def_Type_nonneg [of b def w3]
    by (auto simp: meta_of_def acquired_record_def)
  have q1: "qlog w2 = qlog w" using qlog_exportBackendEnv [OF 1] qlog_exportSchedulerJobEnv [OF 2] by simp
  have q4: "qlog w4 = qlog w3" using 4(2) by (rule after_acquire_quiet)
  have "qlog w' = qlog w @ acquire_calls be (ucast (Def_Type b def w2)) n t"
    using lib_call_qlog [OF 3] lib_call_qlog [OF 5] q1 q4 by (simp add: acquire_calls_def)
  moreover have "meta_of w' \<lparr>rec_name = be, rec_type = Def_Type b def w3, rec_token = t, rec_epoch = now h\<rparr>"
    using meta_of_same [OF f, of w'] lib_call_penv [OF 5] by (simp add: acquired_record_def)
  moreover have "came_from b def (Def_Type b def w3) t" using 4(1) by (auto simp: came_from_def)
  ultimately show ?thesis using mirrors_lib_call [OF m4 5] by blast
qed

definition rust_log_pairs :: "string \<Rightarrow> (string \<times> string) list" where
  "rust_log_pairs level = (case RustLogFromDebug level of (l, ok) \<Rightarrow> if ok then [(''RUST_LOG'', l)] else [])"

lemma ApplyRustLog_mirrors:
  "env_ready w \<Longrightarrow> ApplyRustLog h l w = (None, w') \<Longrightarrow> mirrors (rust_log_pairs l) w w'"
  using mirrors_Set [OF mirrors_refl, of w h "''RUST_LOG''" _ w'] mirrors_refl [of w]
  by (auto simp: ApplyRustLog_def rust_log_pairs_def split: prod.splits if_splits)

lemma with_job_env_mirrors:
  assumes run: "with_job_env b h cfg jo be w = (None, w')"
    and env: "env_at d w" "is_abs d" "is_abs (getenv w' ''SGE_JOB_SPOOL_DIR'')"
  shows "\<exists>kvs c e n t ts ty ty'. mirrors (kvs @ runtime_pairs be t ts @ [(PrologStatusKey, ''success'')]) w w' \<and>
    qlog w' = qlog w @ [QConfigLoad c, QDefGet e] @ acquire_calls be ty' n t @ [QDefFree e, QConfigFree c] \<and>
    came_from b (Some e) ty t \<and> meta_of w' \<lparr>rec_name = be, rec_type = ty, rec_token = t, rec_epoch = now h\<rparr>"
proof -
  have b: "b \<noteq> Stub" using with_job_env_Stub run by blast
  then obtain api where api: "b = Real api" using build_Real by blast
  obtain x w1 where 1: "ApplyRustLog h (LogLevel cfg) w = (x, w1)" by fastforce
  have x: "x = None" using run 1 by (cases x) (auto simp: with_job_env_def dest: reportError_run)
  have m1: "mirrors (rust_log_pairs (LogLevel cfg)) w w1"
    using ApplyRustLog_mirrors [OF _ 1 [unfolded x]] env(1) by (simp add: env_at_def)
  obtain y w2 where 2: "LoadConfig b (ConfigPath cfg) (SetLogCallback b prolog_component w1) = (y, w2)" by fastforce
  obtain k where k: "y = Inr k" using run 1 2 x by (cases y) (auto simp: with_job_env_def dest: reportError_run)
  obtain c where c: "y = Inr (Some c)"
    and c0: "lib_call [QConfigLoad c] (SetLogCallback b prolog_component w1) w2"
    using LoadConfig_Inr [OF 2 [unfolded k]] k by blast
  have c2: "lib_call [QConfigLoad c] w1 w2" using lib_call_trans [OF SetLogCallback_call c0] by simp
  obtain r w5 where 5: "with_config b h cfg jo be (Some c) w2 = (r, w5)" by fastforce
  have r: "r = None" "w' = Config_Close b (Some c) w5"
    using run 1 2 5 x c by (simp_all add: with_job_env_def)
  obtain z w3 where 3: "Config_ResourceDef b (Some c) be w2 = (z, w3)" by fastforce
  obtain l where l: "z = Inr l" using 5 3 r by (cases z) (auto simp: with_config_def dest: reportError_run)
  obtain e where e: "z = Inr (Some e)" and c3: "lib_call [QDefGet e] w2 w3"
    using ResourceDef_Inr [OF 3 [unfolded l]] l by blast
  obtain s w4 where 4: "with_def b h cfg jo be (Some e) w3 = (s, w4)" by fastforce
  have s: "s = None" "w5 = Def_Close b (Some e) w4" using 5 3 4 e r by (simp_all add: with_config_def)
  have c5: "lib_call ([QDefFree e] @ [QConfigFree c]) w4 w'"
    unfolding r(2) s(2) api by (rule lib_call_trans [OF Def_Close_call Config_Close_call])
  have c13: "lib_call ([QConfigLoad c] @ [QDefGet e]) w1 w3" using c2 c3 by (rule lib_call_trans)
  have m3: "mirrors (rust_log_pairs (LogLevel cfg)) w w3" using mirrors_lib_call [OF m1 c13] .
  then have "env_at d w3" using env(1) mirrors_ready [OF m3] mirrors_Path [OF m3] by (simp add: env_at_def)
  moreover have "is_abs (getenv w4 ''SGE_JOB_SPOOL_DIR'')" 
    using env(3) getenv_same [of w' w4] lib_call_penv [OF c5] by simp
  ultimately obtain kvs n t ts ty ty' where
    m: "mirrors (kvs @ runtime_pairs be t ts @ [(PrologStatusKey, ''success'')]) w3 w4"
    and q: "qlog w4 = qlog w3 @ acquire_calls be ty' n t" "came_from b (Some e) ty t"
    and f: "meta_of w4 \<lparr>rec_name = be, rec_type = ty, rec_token = t, rec_epoch = now h\<rparr>"
    using with_def_mirrors [OF 4 [unfolded s(1)] b _ env(2)] by blast
  have "mirrors ((rust_log_pairs (LogLevel cfg) @ kvs) @ runtime_pairs be t ts @ [(PrologStatusKey, ''success'')]) w w'"
    using mirrors_lib_call [OF mirrors_trans [OF m3 m] c5] by simp
  moreover have "qlog w1 = qlog w" using qlog_ApplyRustLog [of h "LogLevel cfg" w] 1 by simp
  then have "qlog w' = qlog w @ [QConfigLoad c, QDefGet e] @ acquire_calls be ty' n t @ [QDefFree e, QConfigFree c]"
    using lib_call_qlog [OF c13] lib_call_qlog [OF c5] q by simp
  moreover have "meta_of w' \<lparr>rec_name = be, rec_type = ty, rec_token = t, rec_epoch = now h\<rparr>"
    using meta_of_same [OF f] lib_call_penv [OF c5] by blast
  ultimately show ?thesis using q(2) by blast
qed

subsection \<open>A sample library and host\<close>

text \<open>
  A library that knows one backend, opens its handles as 1, 2, 3, and counts the tokens it has
  given and not taken back.
\<close>

definition sample_api :: "int capi" where
  "sample_api = \<lparr>c_config_load = (\<lambda>e p q. (Some 1, q)), c_config_free = (\<lambda>c q. q),
     c_def_get = (\<lambda>c nm q. (if nm = ''EMU_FREE'' then Some 2 else None, q)), c_def_free = (\<lambda>d q. q),
     c_def_type = (\<lambda>d q. 3), c_def_envs = (\<lambda>d q. Some [(Some ''QRMI_URL'', Some ''http://emu'')]),
     c_type_to_str = (\<lambda>t q. Some ''pasqal-cloud''), c_resource_new = (\<lambda>e nm t q. (Some 3, q)),
     c_resource_free = (\<lambda>r q. q), c_is_accessible = (\<lambda>e r q. ((True, True), q)),
     c_acquire = (\<lambda>e r q. ((True, Some ''tok-1''), q + 1)), c_release = (\<lambda>e r t q. (True, q - 1)),
     c_last_error = (\<lambda>q. None), c_logged = (\<lambda>q q'. [])\<rparr>"

definition sge_tree :: tree where
  "sge_tree = [[''opt''] \<mapsto> TDir, [''opt'', ''sge''] \<mapsto> TDir,
     [''opt'', ''sge'', ''qstat''] \<mapsto> TReg 493 0, [''opt'', ''sge'', ''qconf''] \<mapsto> TReg 493 0]"

definition sge_cmd :: "nat \<Rightarrow> string \<Rightarrow> string list \<Rightarrow> string + string" where
  "sge_cmd n path args =
     (if path = ''/opt/sge/qstat'' then Inr (''hard_resource_list:  qpu=EMU_FREE,qpu_slots=2'' @ [LF])
      else if path = ''/opt/sge/qconf'' then Inr (''complex_values  qpu=EMU_FREE'' @ [LF])
      else Inl ''exit status 1'')"

definition sge_host :: host where
  "sge_host = quiet_host\<lparr>tree := sge_tree, run_cmd := sge_cmd\<rparr>"

definition sge_world :: "int world" where
  "sge_world = fresh_world
     [''JOB_ID'' \<mapsto> ''5'', ''SGE_TASK_ID'' \<mapsto> ''1'', ''SGE_JOB_SPOOL_DIR'' \<mapsto> ''/n/active_jobs/5.1'']
     [''/n/active_jobs/5.1'' \<mapsto> \<lparr>fkind = Dir, fmode = 493\<rparr>] 0"

definition sge_config :: hookConfig where
  "sge_config = defaultHookConfig\<lparr>QstatPath := ''/opt/sge/qstat''\<rparr>"

subsection \<open>The whole run\<close>

lemma runWithConfig_None:
  assumes "runWithConfig b h jo cfg w = (None, w')"
  shows "(\<exists>e w1. readGranted h (ResourceName cfg) (QstatPath cfg) w = (Inl e, w1) \<and> is_requested_not_found e \<and>
      only_ran w w1 \<and> (\<exists>m. w' = log_info prolog_component m w1)) \<or>
    (\<exists>g be w1 w2 w3 w4. readGranted h (ResourceName cfg) (QstatPath cfg) w = (Inr g, w1) \<and>
      ParseGrantedBackend g = Inr be \<and> checkHostOffers h cfg be w1 = (None, w2) \<and> only_ran w w2 \<and>
      OpenJobEnv h w2 = (None, w3) \<and> with_job_env b h cfg jo be w3 = (None, w4) \<and> w' = snd (Close h w4))"
proof -
  obtain x w1 where 1: "readGranted h (ResourceName cfg) (QstatPath cfg) w = (x, w1)" by fastforce
  note r1 = readGranted_ran [OF 1]
  show ?thesis
  proof (cases x)
    case (Inl e)
    with assms 1 r1 show ?thesis
      by (intro disjI1 exI [of _ e] exI [of _ w1]) (auto simp: runWithConfig_def split: if_splits)
  next
    case (Inr g)
    obtain be where be: "ParseGrantedBackend g = Inr be" using assms 1 Inr
      by (cases "ParseGrantedBackend g") (auto simp: runWithConfig_def)
    obtain y w2 where 2: "checkHostOffers h cfg be w1 = (y, w2)" by fastforce
    have y: "y = None" using assms 1 Inr be 2 by (cases y) (auto simp: runWithConfig_def)
    obtain z w3 where 3: "OpenJobEnv h w2 = (z, w3)" by fastforce
    have z: "z = None" using assms 1 Inr be 2 y 3 by (cases z) (auto simp: runWithConfig_def)
    obtain u w4 where 4: "with_job_env b h cfg jo be w3 = (u, w4)" by fastforce
    have "u = None" "w' = snd (Close h w4)"
      using assms 1 Inr be 2 y 3 z 4 by (simp_all add: runWithConfig_def)
    with 1 Inr be 2 y 3 z 4 only_ran_trans [OF r1 checkHostOffers_ran [OF 2]] show ?thesis by blast
  qed
qed

lemma Close_same: "penv (snd (Close h w)) = penv w \<and> files (snd (Close h w)) = files w \<and> Path (snd (Close h w)) = Path w"
  using Close_frame [of w h] sys_only_at(4) [of w h]
  by (auto simp: Close_def Path_def files_at_def same_proc_def only_at_def fun_eq_iff
      split: option.split prod.split)

definition env_content :: "'q world \<Rightarrow> string \<Rightarrow> string" where
  "env_content w p = (case file_data (files w) p of Some d \<Rightarrow> d | None \<Rightarrow> [])"

lemma OpenJobEnv_env_at:
  assumes "OpenJobEnv h w = (None, w')"
  shows "env_at (getenv w ''SGE_JOB_SPOOL_DIR'') w' \<and> penv w' = penv w \<and>
    (let p = path_join [getenv w ''SGE_JOB_SPOOL_DIR'', ''environment''] in
     Path w' = p \<and> file_data (files w') p = Some (env_content w p))"
  using OpenJobEnv_ok [OF assms]
  by (auto simp: env_at_def env_ready_def Path_def ResolveJobEnvPath_def Let_def env_content_def split: if_splits)

lemma runWithConfig_success:
  assumes run: "runWithConfig b h jo cfg w = (None, w')"
    and abs: "is_abs (getenv w ''SGE_JOB_SPOOL_DIR'')" "is_abs (getenv w' ''SGE_JOB_SPOOL_DIR'')"
    and asked: "\<not> isl (fst (readGranted h (ResourceName cfg) (QstatPath cfg) w))"
  shows "\<exists>g be kvs c e n t ts ty ty'.
    fst (readGranted h (ResourceName cfg) (QstatPath cfg) w) = Inr g \<and> ParseGrantedBackend g = Inr be \<and>
    kvs = runtime_pairs be t ts @ [(PrologStatusKey, ''success'')] \<and>
    qlog w' = qlog w @ [QConfigLoad c, QDefGet e] @ acquire_calls be ty' n t @ [QDefFree e, QConfigFree c] \<and>
    came_from b (Some e) ty t \<and> meta_of w' \<lparr>rec_name = be, rec_type = ty, rec_token = t, rec_epoch = now h\<rparr> \<and>
    (\<exists>pre p. penv w' = penv w ++ map_of (rev (pre @ kvs)) \<and> ResolveJobEnvPath w = Inr p \<and>
       file_data (files w') p = Some (env_content w p @ env_text (pre @ kvs)))"
proof -
  obtain g be w1 w2 w3 w4 where 1: "readGranted h (ResourceName cfg) (QstatPath cfg) w = (Inr g, w1)"
    "ParseGrantedBackend g = Inr be" and r2: "only_ran w w2"
    and 3: "OpenJobEnv h w2 = (None, w3)" and 4: "with_job_env b h cfg jo be w3 = (None, w4)"
    and w': "w' = snd (Close h w4)"
    using runWithConfig_None [OF run] asked by auto
  let ?d = "getenv w ''SGE_JOB_SPOOL_DIR''"
  let ?p = "path_join [?d, ''environment'']"
  have d: "getenv w2 ''SGE_JOB_SPOOL_DIR'' = ?d" using only_ran_fields(2) [OF r2] by (rule getenv_same)
  note o = OpenJobEnv_env_at [OF 3, unfolded d Let_def]
  note c = Close_same [of h w4, folded w']
  have q3: "qlog w3 = qlog w" using OpenJobEnv_ok [OF 3] files_at_lib only_ran_fields(4) [OF r2] by metis
  have "is_abs (getenv w4 ''SGE_JOB_SPOOL_DIR'')" using abs(2) c getenv_same [of w' w4] by simp
  then obtain pre c' e n t ts ty ty' where
    m: "mirrors (pre @ runtime_pairs be t ts @ [(PrologStatusKey, ''success'')]) w3 w4"
    and q: "qlog w4 = qlog w3 @ [QConfigLoad c', QDefGet e] @ acquire_calls be ty' n t @ [QDefFree e, QConfigFree c']"
      "came_from b (Some e) ty t"
    and f: "meta_of w4 \<lparr>rec_name = be, rec_type = ty, rec_token = t, rec_epoch = now h\<rparr>"
    using with_job_env_mirrors [OF 4 _ abs(1)] o by blast
  let ?kvs = "runtime_pairs be t ts @ [(PrologStatusKey, ''success'')]"
  have "penv w' = penv w ++ map_of (rev (pre @ ?kvs))"
    using m o c only_ran_fields(2) [OF r2] by (auto simp: mirrors_def)
  moreover have "env_content w2 ?p = env_content w ?p" using only_ran_fields(1) [OF r2] by (simp add: env_content_def)
  then have "file_data (files w') ?p = Some (env_content w ?p @ env_text (pre @ ?kvs))"
    using m o c by (auto simp: mirrors_def Path_def)
  moreover have "ResolveJobEnvPath w = Inr ?p"
    using abs(1) by (auto simp: ResolveJobEnvPath_def Let_def is_abs_def)
  moreover have "qlog w' = qlog w @ [QConfigLoad c', QDefGet e] @ acquire_calls be ty' n t @ [QDefFree e, QConfigFree c']"
    using q q3 by (simp add: w')
  moreover have "meta_of w' \<lparr>rec_name = be, rec_type = ty, rec_token = t, rec_epoch = now h\<rparr>"
    using meta_of_same [OF f] c by blast
  moreover have "fst (readGranted h (ResourceName cfg) (QstatPath cfg) w) = Inr g" using 1(1) by simp
  ultimately show ?thesis using 1(2) q(2) by blast
qed

subsection \<open>A run on a quiet host\<close>

text \<open>
  \<open>live h d w\<close>: the job environment file is open for writing without an error, the spool directory
  \<open>d\<close> is ready for the metadata, and the environment holds C strings.
\<close>

definition nul_free :: "(string \<rightharpoonup> string) \<Rightarrow> bool" where
  "nul_free m = (\<forall>k v. m k = Some v \<longrightarrow> NUL \<notin> set v)"

definition spool_ready :: "host \<Rightarrow> string \<Rightarrow> files \<Rightarrow> bool" where
  "spool_ready h d f = (let meta = path_join [d, MetadataFilename] in
     is_dir f (path_dir meta) \<and> \<not> is_dir f meta \<and> temp_free h meta f)"

definition live :: "host \<Rightarrow> string \<Rightarrow> string \<Rightarrow> 'q world \<Rightarrow> bool" where
  "live h d job w = ((\<exists>je. jenv w = Some je \<and> jopen je \<and> jerr je = None) \<and> spool_ready h d (files w) \<and>
     getenv w ''SGE_JOB_SPOOL_DIR'' = d \<and> getenv w ''JOB_ID'' = job \<and> nul_free (penv w))"

definition good_pair :: "string \<times> string \<Rightarrow> bool" where
  "good_pair p = (setenv_ok (fst p) (snd p) \<and> fst p \<noteq> ''SGE_JOB_SPOOL_DIR'' \<and> fst p \<noteq> ''JOB_ID'')"

lemma live_same:
  "live h d job v \<Longrightarrow> jenv w = jenv v \<Longrightarrow> penv w = penv v \<Longrightarrow> files w = files v \<Longrightarrow> live h d job w"
  by (simp add: live_def getenv_def)

lemma live_lib_call: "live h d job v \<Longrightarrow> lib_call es v w \<Longrightarrow> live h d job w"
  by (erule live_same) (simp_all add: lib_call_def)

lemma live_ran: "live h d job v \<Longrightarrow> only_ran v w \<Longrightarrow> live h d job w"
  by (erule live_same) (simp_all add: only_ran_fields)

lemma append_data_None: "(append_data f p d) q = None \<longleftrightarrow> f q = None"
  using mode_at_append [of f p d q] by (cases "f q"; cases "append_data f p d q") (simp_all add: mode_at_def)

lemma spool_ready_append [simp]: "spool_ready h d (append_data f p x) = spool_ready h d f"
  by (simp add: spool_ready_def temp_free_def append_data_None)

lemma Set_live:
  assumes h: "fault_free h" and l: "live h d job w" and g: "good_pair (k, v)"
  shows "\<exists>w'. Set h k v w = (None, w') \<and> live h d job w'"
proof -
  obtain je where je: "jenv w = Some je" "jopen je" "jerr je = None" using l by (auto simp: live_def)
  have ok: "setenv_ok k v" "k \<noteq> ''SGE_JOB_SPOOL_DIR''" "k \<noteq> ''JOB_ID''" using g by (simp_all add: good_pair_def)
  obtain w' where s: "Set h k v w = (None, w')"
    using h je ok(1) by (simp add: Set_def setenv_def sys_write_def)
  note o = Set_ok [OF s je(1)]
  have "nul_free (penv w')" using l o ok(1) by (auto simp: live_def nul_free_def setenv_ok_def)
  then have "live h d job w'" using l o je ok by (auto simp: live_def getenv_def)
  with s show ?thesis by blast
qed

lemma set_pairs_live:
  assumes "fault_free h" "live h d job w" "list_all good_pair kvs"
  shows "\<exists>w'. set_pairs h kvs w = (None, w') \<and> live h d job w'"
  using assms(2,3)
proof (induction kvs arbitrary: w)
  case (Cons a kvs)
  obtain k v where a: "a = (k, v)" by fastforce
  obtain w1 where 1: "Set h k v w = (None, w1)" "live h d job w1"
    using Set_live [OF assms(1) Cons.prems(1), of k v] Cons.prems(2) a by auto
  with Cons.IH [OF 1(2)] Cons.prems(2) show ?case by (simp add: a)
qed simp

lemma itoa_no_NUL [simp]: "NUL \<notin> set (itoa u)"
  by (auto dest!: itoa_chars simp: is_digit_def)

lemma goStringOrEmpty_no_NUL [simp]: "NUL \<notin> set (goStringOrEmpty s)"
  by (simp add: goStringOrEmpty_def c_string_no_NUL split: option.split)

lemma type_text_no_NUL [simp]: "NUL \<notin> set (type_text b def w)"
  by (auto simp: type_text_def Def_TypeString_def split: build.split option.split)

lemma token_key_not_job: "token_key be \<noteq> ''JOB_ID''"
proof
  assume "token_key be = ''JOB_ID''"
  then have "last (token_key be) = last ''JOB_ID''" by (rule arg_cong)
  then show False by (simp add: token_key_def)
qed

definition good_backend :: "string \<Rightarrow> bool" where
  "good_backend be = (CHR ''='' \<notin> set be \<and> NUL \<notin> set be)"

lemma runtime_pairs_good:
  "good_backend be \<Longrightarrow> NUL \<notin> set t \<Longrightarrow> NUL \<notin> set ts \<Longrightarrow> list_all good_pair (runtime_pairs be t ts)"
  using token_key_not_job [of be] token_key_not_spool [of be]
  by (simp add: runtime_pairs_def good_pair_def good_backend_def setenv_ok_def token_key_def)

lemma getenv_no_NUL: "nul_free (penv w) \<Longrightarrow> NUL \<notin> set (getenv w k)"
  by (auto simp: getenv_def nul_free_def split: option.split)

lemma job_pairs_good: "nul_free (penv w) \<Longrightarrow> list_all good_pair (job_pairs w u slots)"
  using getenv_no_NUL [of w]
  by (auto simp: job_pairs_def good_pair_def setenv_ok_def schedulerJobID_def Let_def list_all_iff split: option.split)

lemma rust_level_no_NUL: "RustLogFromDebug raw = (l, True) \<Longrightarrow> NUL \<notin> set l"
  by (auto simp: RustLogFromDebug_def Let_def rust_levels_def split: if_splits option.splits)

lemma ApplyRustLog_live:
  assumes "fault_free h" "live h d job w"
  shows "\<exists>w'. ApplyRustLog h l w = (None, w') \<and> live h d job w'"
proof -
  obtain r ok where r: "RustLogFromDebug l = (r, ok)" by fastforce
  then show ?thesis using assms Set_live [OF assms, of "''RUST_LOG''" r] rust_level_no_NUL [of l r]
    by (cases ok) (auto simp: ApplyRustLog_def good_pair_def)
qed

text \<open>A library that opens its handles and grants the token \<open>t\<close> for the backend \<open>be\<close>.\<close>

definition grants :: "'q capi \<Rightarrow> string \<Rightarrow> string \<Rightarrow> bool" where
  "grants api be t =
     ((\<forall>e p q. fst (c_config_load api e p q) \<noteq> None) \<and> (\<forall>c q. fst (c_def_get api c (c_string be) q) \<noteq> None) \<and>
      (\<forall>e k q. fst (c_resource_new api e (c_string be) k q) \<noteq> None) \<and>
      (\<forall>e r q. fst (c_is_accessible api e r q) = (True, True) \<and> fst (c_acquire api e r q) = (True, Some t)) \<and>
      (\<forall>d w. list_all good_pair (backend_pairs be (Def_Environments (Real api) (Some d) w))))"

lemma grants_calls:
  assumes "grants api be t"
  shows "\<exists>c w'. LoadConfig (Real api) p w = (Inr (Some c), w')"
    "\<exists>d w'. Config_ResourceDef (Real api) (Some c) be w = (Inr (Some d), w')"
    "\<exists>r w'. NewResource (Real api) be k w = (Inr (Some r), w')"
    "\<exists>w'. IsAccessible (Real api) (Some r) w = (Inr True, w')"
    "\<exists>w'. Acquire (Real api) (Some r) w = (Inr (c_string t), w')"
proof -
  have g: "\<And>e p q. \<exists>n q'. c_config_load api e p q = (Some n, q')"
    "\<And>c q. \<exists>n q'. c_def_get api c (c_string be) q = (Some n, q')"
    "\<And>e k q. \<exists>n q'. c_resource_new api e (c_string be) k q = (Some n, q')"
    "\<And>e r q. \<exists>q'. c_is_accessible api e r q = ((True, True), q')"
    "\<And>e r q. \<exists>q'. c_acquire api e r q = ((True, Some t), q')"
    using assms unfolding grants_def by (metis not_None_eq prod.collapse)+
  show "\<exists>c w'. LoadConfig (Real api) p w = (Inr (Some c), w')"
    using g(1) [of "penv w" "c_string p" "lib w"] by (auto simp: LoadConfig_def Let_def)
  show "\<exists>d w'. Config_ResourceDef (Real api) (Some c) be w = (Inr (Some d), w')"
    using g(2) [of c "lib w"] by (auto simp: Config_ResourceDef_def Let_def)
  show "\<exists>r w'. NewResource (Real api) be k w = (Inr (Some r), w')"
    using g(3) [of "penv w" "ucast k" "lib w"] by (auto simp: NewResource_def Let_def)
  show "\<exists>w'. IsAccessible (Real api) (Some r) w = (Inr True, w')"
    using g(4) [of "penv w" r "lib w"] by (auto simp: IsAccessible_def Let_def)
  show "\<exists>w'. Acquire (Real api) (Some r) w = (Inr (c_string t), w')"
    using g(5) [of "penv w" r "lib w"] by (auto simp: Acquire_def Let_def)
qed

lemma after_acquire_live:
  assumes h: "fault_free h" "is_abs d" and l: "live h d job w"
    and t: "NUL \<notin> set t" "writable_record (acquired_record b h be def t w)" "good_backend be"
  shows "\<exists>w'. after_acquire b h be def r t w = (None, w') \<and> getenv w' ''SGE_JOB_SPOOL_DIR'' = d"
proof -
  obtain w1 where 1: "exportRuntimeEnv h be t (type_text b def w) w = (None, w1)" "live h d job w1"
    using set_pairs_live [OF h(1) l runtime_pairs_good [OF t(3,1) type_text_no_NUL]]
    unfolding exportRuntimeEnv_def by blast
  let ?meta = "path_join [d, MetadataFilename]"
  have m: "ResolveMetadataPath w1 = Inr ?meta"
    using 1(2) h(2) by (auto simp: live_def ResolveMetadataPath_def Let_def is_abs_def)
  have s: "is_dir (files w1) (path_dir ?meta)" "\<not> is_dir (files w1) ?meta" "temp_free h ?meta (files w1)"
    using 1(2) by (simp_all add: live_def spool_ready_def Let_def)
  obtain w2 where 2: "WriteAtomic h ?meta [acquired_record b h be def t w] w1 = (None, w2)"
    using WriteAtomic_quiet [OF h(1,2) _ refl s, of "[acquired_record b h be def t w]"] t(2) by auto
  have "jenv w2 = jenv w1" "penv w2 = penv w1" using WriteAtomic_proc [OF 2] by (simp_all add: same_proc_def)
  then have "\<exists>w3. Set h PrologStatusKey ''success'' w2 = (None, w3) \<and> getenv w3 ''SGE_JOB_SPOOL_DIR'' = d"
    using 1(2) h(1) by (auto simp: live_def Set_def setenv_def sys_write_def getenv_def put_files_def
        count_sys_def setenv_ok_def PrologStatusKey_def)
  then show ?thesis using 1 m 2
    by (auto simp: after_acquire_def log_info_def log_write_def getenv_def)
qed

lemma with_def_live:
  assumes h: "fault_free h" "is_abs d" and l: "live h d job w"
    and g: "grants api be t" "good_backend be" "\<not> contains_any be [TAB, LF]" "\<not> contains_any (c_string t) [TAB, LF]"
    and u: "schedulerJobUID h jo = Inr u"
    and slots: "SlotsResourceName cfg = [] \<or>
      (\<forall>v :: 'q world. getenv v ''JOB_ID'' = job \<longrightarrow> \<not> isl (fst (readGrantedSlots h (SlotsResourceName cfg) (QstatPath cfg) v)))"
  shows "\<exists>w'. with_def (Real api) h cfg jo be (Some n) (w :: 'q world) = (None, w') \<and>
    getenv w' ''SGE_JOB_SPOOL_DIR'' = d"
proof -
  let ?b = "Real api"
  have "list_all good_pair (backend_pairs be (Def_Environments ?b (Some n) w))" using g(1) by (simp add: grants_def)
  then obtain w1 where 1: "exportBackendEnv h be (Def_Environments ?b (Some n) w) w = (None, w1)" "live h d job w1"
    using set_pairs_live [OF h(1) l] unfolding exportBackendEnv_def by blast
  let ?slots = "readGrantedSlots h (SlotsResourceName cfg) (QstatPath cfg) w1"
  have "SlotsResourceName cfg \<noteq> [] \<Longrightarrow> \<not> isl (fst ?slots)" using slots 1(2) by (auto simp: live_def)
  then obtain s v where s: "(if SlotsResourceName cfg \<noteq> [] then ?slots else (Inr None, w1)) = (Inr s, v)"
    by (cases ?slots; cases "fst ?slots"; cases "SlotsResourceName cfg = []") auto
  have "only_ran w1 v" using s by (auto dest: readGrantedSlots_ran split: if_splits)
  with 1(2) have "live h d job v" by (rule live_ran)
  moreover have "list_all good_pair (job_pairs w1 u s)" using 1(2) by (simp add: live_def job_pairs_good)
  ultimately obtain w2 where 2: "set_pairs h (job_pairs w1 u s) v = (None, w2)" "live h d job w2"
    using set_pairs_live [OF h(1)] by blast
  have e2: "exportSchedulerJobEnv h cfg jo w1 = (None, w2)"
    using s 2(1) u by (simp add: exportSchedulerJobEnv_def Let_def job_pairs_def del: set_pairs.simps filter.simps filter_append append.simps)
  obtain r w3 where 3: "NewResource ?b be (Def_Type ?b (Some n) w2) w2 = (Inr (Some r), w3)"
    using grants_calls(3) [OF g(1)] by blast
  obtain w4 where 4: "IsAccessible ?b (Some r) w3 = (Inr True, w4)" using grants_calls(4) [OF g(1)] by blast
  obtain w5 where 5: "Acquire ?b (Some r) w4 = (Inr (c_string t), w5)" using grants_calls(5) [OF g(1)] by blast
  have "live h d job w3" using live_lib_call [OF 2(2)] NewResource_Inr [OF 3] by blast
  moreover have "lib_call [QAccessible r True] w3 w4" using IsAccessible_call [OF 4] by simp
  ultimately have "live h d job w5" using live_lib_call Acquire_Inr [OF 5] by blast
  then have "\<exists>w6. after_acquire ?b h be (Some n) (Some r) (c_string t) w5 = (None, w6) \<and>
      getenv w6 ''SGE_JOB_SPOOL_DIR'' = d"
    by (rule after_acquire_live [OF h]) (use g in \<open>simp_all add: c_string_no_NUL writable_record_def acquired_record_def\<close>)
  then obtain w6 where 6: "after_acquire ?b h be (Some n) (Some r) (c_string t) w5 = (None, w6)"
      "getenv w6 ''SGE_JOB_SPOOL_DIR'' = d" by blast
  have "penv (Resource_Close ?b (Some r) w6) = penv w6"
    using Resource_Close_call lib_call_penv by blast
  then show ?thesis using 1(1) e2 3 4 5 6
    by (simp add: with_def_def with_resource_def getenv_def)
qed

lemma OpenJobEnv_live:
  assumes h: "fault_free h" and d: "is_abs d" "getenv w ''SGE_JOB_SPOOL_DIR'' = d"
    and s: "spool_ready h d (files w)" "\<not> is_dir (files w) (path_join [d, ''environment''])" "nul_free (penv w)"
  shows "\<exists>w'. OpenJobEnv h w = (None, w') \<and> live h d (getenv w ''JOB_ID'') w'"
proof -
  let ?p = "path_join [d, ''environment'']" and ?m = "path_join [d, MetadataFilename]"
  obtain es where es: "\<forall>x \<in> set es. normal_elem x" "Clean d = abs_path es" "?m = abs_path (es @ [MetadataFilename])"
    using path_join_absE [OF d(1) normal_MetadataFilename] .
  obtain es' where es': "\<forall>x \<in> set es'. normal_elem x" "Clean d = abs_path es'"
    "?p = abs_path (es' @ [''environment''])"
    using path_join_absE [OF d(1) normal_names(2)] .
  have dir: "path_dir ?p = path_dir ?m" using es es' by (simp add: path_dir_abs)
  have sp: "is_dir (files w) (path_dir ?m)" "\<not> is_dir (files w) ?m" "temp_free h ?m (files w)"
    using s(1) by (simp_all add: spool_ready_def Let_def)
  have p: "ResolveJobEnvPath w = Inr ?p" using d by (auto simp: ResolveJobEnvPath_def Let_def is_abs_def)
  obtain w1 where 1: "sys_open_append h ?p 384 w = (None, w1)" "files w1 ?p \<noteq> None"
    using h s(2) sp(1) dir by (cases "files w ?p") (auto simp: sys_open_append_def is_dir_def)
  obtain w2 where 2: "sys_chmod h ?p 384 w1 = (None, w2)" using h 1(2) by (auto simp: sys_chmod_def)
  define w' where "w' = w2\<lparr>jenv := Some \<lparr>jpath = ?p, jopen = True, jerr = None\<rparr>\<rparr>"
  have o: "OpenJobEnv h w = (None, w')" using p 1(1) 2 by (simp add: OpenJobEnv_def w'_def)
  have f: "files w' q = files w q" if "q \<noteq> ?p" for q
    using OpenJobEnv_ok [OF o] p that by (auto simp: files_at_files)
  have ne: "?p \<noteq> ?m" "?p \<notin> temp_names h ?m" "?p \<noteq> path_dir ?m"
    using env_not_metadata [OF d(1) d(1), of h] sp(1) s(2) by auto
  have "temp_free h ?m (files w')"
    using sp(3) ne(2) by (force simp: temp_free_def temp_names_def list_ex_iff f)
  then have "spool_ready h d (files w')"
    using sp ne by (auto simp: spool_ready_def Let_def is_dir_def f)
  then have "live h d (getenv w ''JOB_ID'') w'"
    using OpenJobEnv_ok [OF o] d(2) s(3) by (auto simp: live_def getenv_def)
  with o show ?thesis by blast
qed

lemma runWithConfig_live:
  fixes w :: "'q world"
  assumes h: "fault_free h" and d: "is_abs d" "getenv w ''SGE_JOB_SPOOL_DIR'' = d"
    and s: "spool_ready h d (files w)" "\<not> is_dir (files w) (path_join [d, ''environment''])" "nul_free (penv w)"
    and job: "readGranted h (ResourceName cfg) (QstatPath cfg) w = (Inr gr, w1)" "ParseGrantedBackend gr = Inr be"
      "checkHostOffers h cfg be w1 = (None, w2)"
    and g: "grants api be t" "good_backend be" "\<not> contains_any be [TAB, LF]" "\<not> contains_any (c_string t) [TAB, LF]"
    and u: "schedulerJobUID h jo = Inr u"
    and slots: "SlotsResourceName cfg = [] \<or> (\<forall>v :: 'q world. getenv v ''JOB_ID'' = getenv w ''JOB_ID'' \<longrightarrow>
      \<not> isl (fst (readGrantedSlots h (SlotsResourceName cfg) (QstatPath cfg) v)))"
  shows "\<exists>w'. runWithConfig (Real api) h jo cfg w = (None, w') \<and> getenv w' ''SGE_JOB_SPOOL_DIR'' = d"
proof -
  let ?b = "Real api"
  have r: "only_ran w w2" using only_ran_trans [OF readGranted_ran [OF job(1)] checkHostOffers_ran [OF job(3)]] .
  have same: "penv w2 = penv w" "files w2 = files w" using only_ran_fields [OF r] by simp_all
  obtain w3 where 3: "OpenJobEnv h w2 = (None, w3)" "live h d (getenv w ''JOB_ID'') w3"
    using OpenJobEnv_live [OF h d(1), of w2] d(2) s same getenv_same [OF same(1)] by auto
  obtain w4 where 4: "ApplyRustLog h (LogLevel cfg) w3 = (None, w4)" "live h d (getenv w ''JOB_ID'') w4"
    using ApplyRustLog_live [OF h 3(2)] by blast
  obtain c w5 where 5: "LoadConfig ?b (ConfigPath cfg) (SetLogCallback ?b prolog_component w4) = (Inr (Some c), w5)"
    using grants_calls(1) [OF g(1)] by blast
  obtain n w6 where 6: "Config_ResourceDef ?b (Some c) be w5 = (Inr (Some n), w6)"
    using grants_calls(2) [OF g(1)] by blast
  have "live h d (getenv w ''JOB_ID'') w6"
    using live_lib_call [OF live_lib_call [OF live_lib_call [OF 4(2) SetLogCallback_call]]]
      LoadConfig_Inr [OF 5] ResourceDef_Inr [OF 6] by blast
  from with_def_live [OF h d(1) this g u slots] obtain w7 where
    7: "with_def ?b h cfg jo be (Some n) w6 = (None, w7)" "getenv w7 ''SGE_JOB_SPOOL_DIR'' = d" by blast
  let ?w8 = "Config_Close ?b (Some c) (Def_Close ?b (Some n) w7)"
  have "with_job_env ?b h cfg jo be w3 = (None, ?w8)"
    using 4(1) 5 6 7(1) by (simp add: with_job_env_def with_config_def)
  then have "runWithConfig ?b h jo cfg w = (None, snd (Close h ?w8))"
    using job 3(1) by (simp add: runWithConfig_def)
  moreover have "penv ?w8 = penv w7"
    using lib_call_trans [OF Def_Close_call Config_Close_call] lib_call_penv by blast
  then have "penv (snd (Close h ?w8)) = penv w7" using Close_same [of h ?w8] by simp
  then have "getenv (snd (Close h ?w8)) ''SGE_JOB_SPOOL_DIR'' = d"
    using 7(2) getenv_same [of "snd (Close h ?w8)" w7] by simp
  ultimately show ?thesis by blast
qed

lemma slots_any:
  assumes "trustedExecutable (tree h) qstat = Inr p" "fault_free h" "\<And>n. run_cmd h n p [''-j'', job] = Inr out"
    and "parseJobRequestedResource out nm = Inr raw" "parseGrantedSlots raw = Inr k"
    and "getenv v ''JOB_ID'' = job" "job \<noteq> []"
  shows "\<not> isl (fst (readGrantedSlots h nm qstat v))"
  using assms
  by (simp add: readGrantedSlots_def readJobRequestedResource_def runSchedulerCommand_def sys_run_def Let_def)

lemma sge_nul_free: "nul_free (penv sge_world)"
  by (simp add: nul_free_def sge_world_def fresh_world_def)

lemma sample_grants: "grants sample_api ''EMU_FREE'' ''tok-1''"
proof -
  have "Def_Environments (Real sample_api) (Some d) w = [\<lparr>Key = ''QRMI_URL'', Value = ''http://emu''\<rparr>]" for d w
    by (simp add: Def_Environments_def sample_api_def goStringOrEmpty_def c_string_def)
  then show ?thesis
    by (simp add: grants_def sample_api_def c_string_def backend_pairs_def good_pair_def setenv_ok_def)
qed

lemma sge_slots_known:
  assumes "getenv v ''JOB_ID'' = ''5''"
  shows "\<not> isl (fst (readGrantedSlots sge_host ''qpu_slots'' ''/opt/sge/qstat'' v))"
proof (rule slots_any [where h = sge_host and out = "''hard_resource_list:  qpu=EMU_FREE,qpu_slots=2'' @ [LF]"])
  show "trustedExecutable (tree sge_host) ''/opt/sge/qstat'' = Inr ''/opt/sge/qstat''"
    "parseJobRequestedResource (''hard_resource_list:  qpu=EMU_FREE,qpu_slots=2'' @ [LF]) ''qpu_slots'' = Inr ''2''"
    "parseGrantedSlots ''2'' = Inr 2" by code_simp+
  show "run_cmd sge_host n ''/opt/sge/qstat'' [''-j'', ''5''] = Inr (''hard_resource_list:  qpu=EMU_FREE,qpu_slots=2'' @ [LF])" for n
    by (simp add: sge_host_def sge_cmd_def)
qed (use assms in \<open>simp_all add: sge_host_def quiet_host_def fault_free_def\<close>)

lemma sge_live: "\<exists>w'. runWithConfig (Real sample_api) sge_host ''alice'' sge_config sge_world = (None, w') \<and>
  getenv w' ''SGE_JOB_SPOOL_DIR'' = ''/n/active_jobs/5.1''"
proof (rule runWithConfig_live)
  show "fault_free sge_host" by (simp add: sge_host_def quiet_host_def fault_free_def)
  show "is_abs ''/n/active_jobs/5.1''" "getenv sge_world ''SGE_JOB_SPOOL_DIR'' = ''/n/active_jobs/5.1''"
    "spool_ready sge_host ''/n/active_jobs/5.1'' (files sge_world)"
    "\<not> is_dir (files sge_world) (path_join [''/n/active_jobs/5.1'', ''environment''])"
    "ParseGrantedBackend ''EMU_FREE'' = Inr ''EMU_FREE''" "good_backend ''EMU_FREE''"
    "\<not> contains_any ''EMU_FREE'' [TAB, LF]" "\<not> contains_any (c_string ''tok-1'') [TAB, LF]"
    "schedulerJobUID sge_host ''alice'' = Inr 1001"
    by code_simp+
  show "nul_free (penv sge_world)" by (rule sge_nul_free)
  let ?r = "readGranted sge_host (ResourceName sge_config) (QstatPath sge_config) sge_world"
  have "fst ?r = Inr ''EMU_FREE''" by code_simp
  then show "?r = (Inr ''EMU_FREE'', snd ?r)" by (metis prod.collapse)
  let ?c = "checkHostOffers sge_host sge_config ''EMU_FREE'' (snd ?r)"
  have "fst ?c = None" by code_simp
  then show "?c = (None, snd ?c)" by (metis prod.collapse)
  show "grants sample_api ''EMU_FREE'' ''tok-1''" by (rule sample_grants)
  have job: "getenv sge_world ''JOB_ID'' = ''5''" by code_simp
  show "SlotsResourceName sge_config = [] \<or> (\<forall>v :: int world. getenv v ''JOB_ID'' = getenv sge_world ''JOB_ID'' \<longrightarrow>
      \<not> isl (fst (readGrantedSlots sge_host (SlotsResourceName sge_config) (QstatPath sge_config) v)))"
    using job by (simp add: sge_config_def defaultHookConfig_def sge_slots_known)
qed

subsection \<open>Whose word counts\<close>

text \<open>\<open>says h path args out\<close>: a root-owned, not group or world writable file at \<open>path\<close> printed \<open>out\<close>.\<close>

definition says :: "host \<Rightarrow> string \<Rightarrow> string list \<Rightarrow> string \<Rightarrow> bool" where
  "says h path args out = (\<exists>exe n i. EvalSymlinks (tree h) path = Inr exe \<and> Stat (tree h) exe = Some n \<and>
     root_owned_file n \<and> run_cmd h i exe args = Inr out)"

lemma runSchedulerCommand_says: "runSchedulerCommand h path args w = (Inr out, w') \<Longrightarrow> says h path args out"
  by (auto simp: says_def runSchedulerCommand_def trustedExecutable_def sys_run_def
      split: sum.splits prod.splits if_splits option.splits)

lemma checkHostOffers_None:
  assumes "checkHostOffers h cfg be w = (None, w')"
  shows "\<exists>hn name out. hostname h = Some hn \<and> name \<in> {hn, fst (cut (CHR ''.'') hn)} \<and>
    says h (path_join [path_dir (QstatPath cfg), ''qconf'']) [''-se'', name] out \<and>
    resourceFromList (fieldValue out ''complex_values'') (ResourceName cfg) = Some be"
proof -
  obtain hn where hn: "hostname h = Some hn" using assms by (cases "hostname h") (auto simp: checkHostOffers_def)
  let ?q = "path_join [path_dir (QstatPath cfg), ''qconf'']"
  let ?short = "fst (cut (CHR ''.'') hn)"
  obtain r1 w1 where 1: "runSchedulerCommand h ?q [''-se'', hn] w = (r1, w1)" by fastforce
  obtain r2 w2 where 2: "runSchedulerCommand h ?q [''-se'', ?short] w1 = (r2, w2)" by fastforce
  define r where "r = (if isl r1 \<and> CHR ''.'' \<in> set hn then r2 else r1)"
  obtain out where out: "r = Inr out" "resourceFromList (fieldValue out ''complex_values'') (ResourceName cfg) = Some be"
    using assms hn 1 2 unfolding r_def
    by (cases "isl r1 \<and> CHR ''.'' \<in> set hn"; cases r1; cases r2)
      (auto simp: checkHostOffers_def Let_def split: if_splits)
  have "\<exists>name \<in> {hn, ?short}. says h ?q [''-se'', name] out"
  proof (cases "r = r1")
    case True
    then show ?thesis using runSchedulerCommand_says 1 out(1) by blast
  next
    case False
    then have "r2 = Inr out" using out(1) by (auto simp: r_def split: if_splits)
    then show ?thesis using runSchedulerCommand_says 2 by blast
  qed
  then show ?thesis using hn out(2) by blast
qed

lemma readGranted_says:
  assumes "readGranted h nm qstat w = (Inr g, w')"
  shows "\<exists>out. says h qstat [''-j'', getenv w ''JOB_ID''] out \<and> parseJobRequestedResource out nm = Inr g"
  using assms
  by (auto simp: readGranted_def readJobRequestedResource_def Let_def
      dest!: runSchedulerCommand_says split: if_splits sum.splits prod.splits)

subsection \<open>Properties\<close>

text \<open>
  C2. No leak: whatever the library, the scheduler's commands and the system calls do, a run of
  the prolog closes every handle it opened, in the reverse order, uses a resource only while it
  is open, and when it reports an error it has asked for the release of every token it acquired.
\<close>

theorem prolog_never_leaks:
  assumes "runWithConfig b h jo cfg w = (res, w')"
  shows "\<exists>es. qlog w' = qlog w @ es \<and> brackets [] es \<and> (res \<noteq> None \<longrightarrow> unreleased [] es = [])"
  using runWithConfig_ends [OF assms] nested_brackets unfolding ends_def by blast

theorem prolog_never_leaks_witness:
  "\<exists>es. qlog (snd (runWithConfig (Real sample_api) (sge_host\<lparr>run_cmd := (\<lambda>n p a. Inl ''exit 1'')\<rparr>) ''alice'' sge_config sge_world)) =
     es \<and> brackets [] es \<and> unreleased [] es = []"
proof -
  let ?r = "runWithConfig (Real sample_api) (sge_host\<lparr>run_cmd := (\<lambda>n p a. Inl ''exit 1'')\<rparr>) ''alice'' sge_config sge_world"
  have "fst ?r \<noteq> None" "qlog sge_world = []" by code_simp+
  with prolog_never_leaks [OF prod.collapse [symmetric, of ?r]] show ?thesis by auto
qed

lemma sge_world_start: "qlog sge_world = []" "penv sge_world ''SGE_JOB_SPOOL_DIR'' = Some ''/n/active_jobs/5.1''"
  "is_abs (getenv sge_world ''SGE_JOB_SPOOL_DIR'')"
  by code_simp+

lemma sge_granted: "fst (readGranted sge_host (ResourceName sge_config) (QstatPath sge_config) sge_world) = Inr ''EMU_FREE''"
  by code_simp

text \<open>
  C7. The prolog serves the job: on a host without faults, when the scheduler grants a backend
  that this host offers, the owner's account is known, the spool directory is ready and the
  library opens its handles and grants a token, the run succeeds.
\<close>

theorem prolog_serves:
  fixes w :: "'q world"
  assumes "fault_free h" "is_abs (getenv w ''SGE_JOB_SPOOL_DIR'')"
    and "spool_ready h (getenv w ''SGE_JOB_SPOOL_DIR'') (files w)" "nul_free (penv w)"
    and "\<not> is_dir (files w) (path_join [getenv w ''SGE_JOB_SPOOL_DIR'', ''environment''])"
    and "readGranted h (ResourceName cfg) (QstatPath cfg) w = (Inr gr, w1)" "ParseGrantedBackend gr = Inr be"
    and "checkHostOffers h cfg be w1 = (None, w2)" "schedulerJobUID h jo = Inr u"
    and "grants api be t" "good_backend be" "\<not> contains_any be [TAB, LF]" "\<not> contains_any (c_string t) [TAB, LF]"
    and "SlotsResourceName cfg = [] \<or> (\<forall>v :: 'q world. getenv v ''JOB_ID'' = getenv w ''JOB_ID'' \<longrightarrow>
      \<not> isl (fst (readGrantedSlots h (SlotsResourceName cfg) (QstatPath cfg) v)))"
  shows "fst (runWithConfig (Real api) h jo cfg w) = None"
  using runWithConfig_live [OF assms(1,2) refl assms(3,5,4,6-8,10-13,9,14)] by auto

theorem prolog_serves_witness:
  "fst (runWithConfig (Real sample_api) sge_host [] (sge_config\<lparr>SlotsResourceName := []\<rparr>) sge_world) = None"
proof -
  let ?cfg = "sge_config\<lparr>SlotsResourceName := []\<rparr>"
  have 1: "fault_free sge_host" by (simp add: sge_host_def quiet_host_def fault_free_def)
  have 2: "spool_ready sge_host (getenv sge_world ''SGE_JOB_SPOOL_DIR'') (files sge_world)"
    "\<not> is_dir (files sge_world) (path_join [getenv sge_world ''SGE_JOB_SPOOL_DIR'', ''environment''])"
    "ParseGrantedBackend ''EMU_FREE'' = Inr ''EMU_FREE''" "schedulerJobUID sge_host [] = Inr 1000" "good_backend ''EMU_FREE''"
    "\<not> contains_any ''EMU_FREE'' [TAB, LF]" "\<not> contains_any (c_string ''tok-1'') [TAB, LF]"
    by code_simp+
  let ?r = "readGranted sge_host (ResourceName ?cfg) (QstatPath ?cfg) sge_world"
  have "fst ?r = Inr ''EMU_FREE''" by code_simp
  then have 3: "?r = (Inr ''EMU_FREE'', snd ?r)" by (metis prod.collapse)
  have "fst (checkHostOffers sge_host ?cfg ''EMU_FREE'' (snd ?r)) = None" by code_simp
  then have 4: "checkHostOffers sge_host ?cfg ''EMU_FREE'' (snd ?r) =
      (None, snd (checkHostOffers sge_host ?cfg ''EMU_FREE'' (snd ?r)))" by (metis prod.collapse)
  show ?thesis
    by (rule prolog_serves [OF 1 sge_world_start(3) 2(1) sge_nul_free 2(2) 3 2(3) 4 2(4) sample_grants 2(5-7)]) simp
qed

text \<open>
  C12. Whose word counts: whenever the prolog calls the library at all, the job asked for the
  resource and this host offers the backend, each in the output of an executable that is
  owned by root and not writable for group and others: \<open>qstat -j\<close> for the job's id, and \<open>qconf -se\<close>
  next to it for the name of this host.
\<close>

theorem prolog_asks_scheduler:
  assumes "runWithConfig b h jo cfg w = (res, w')" "qlog w' \<noteq> qlog w"
  shows "\<exists>be g out hn name out'. says h (QstatPath cfg) [''-j'', getenv w ''JOB_ID''] out \<and>
    parseJobRequestedResource out (ResourceName cfg) = Inr g \<and> ParseGrantedBackend g = Inr be \<and>
    hostname h = Some hn \<and> name \<in> {hn, fst (cut (CHR ''.'') hn)} \<and>
    says h (path_join [path_dir (QstatPath cfg), ''qconf'']) [''-se'', name] out' \<and>
    resourceFromList (fieldValue out' ''complex_values'') (ResourceName cfg) = Some be"
proof -
  obtain x w1 where 1: "readGranted h (ResourceName cfg) (QstatPath cfg) w = (x, w1)" by fastforce
  note q1 = only_ran_fields(4) [OF readGranted_ran [OF 1]]
  have "\<exists>g be. x = Inr g \<and> ParseGrantedBackend g = Inr be"
    using assms 1 q1 by (auto simp: runWithConfig_def split: sum.splits if_splits)
  then obtain g be where g: "x = Inr g" "ParseGrantedBackend g = Inr be" by blast
  obtain y w2 where 2: "checkHostOffers h cfg be w1 = (y, w2)" by fastforce
  have "y = None" using assms 1 g 2 q1 only_ran_fields(4) [OF checkHostOffers_ran [OF 2]]
    by (cases y) (auto simp: runWithConfig_def)
  note c = checkHostOffers_None [OF 2 [unfolded this]] and r = readGranted_says [OF 1 [unfolded g(1)]]
  obtain out where out: "says h (QstatPath cfg) [''-j'', getenv w ''JOB_ID''] out"
    "parseJobRequestedResource out (ResourceName cfg) = Inr g" using r by blast
  obtain hn name out' where "hostname h = Some hn" "name \<in> {hn, fst (cut (CHR ''.'') hn)}"
    "says h (path_join [path_dir (QstatPath cfg), ''qconf'']) [''-se'', name] out'"
    "resourceFromList (fieldValue out' ''complex_values'') (ResourceName cfg) = Some be" using c by blast
  with out g(2) show ?thesis by blast
qed

theorem prolog_asks_scheduler_witness:
  "\<exists>out. says sge_host ''/opt/sge/qstat'' [''-j'', ''5''] out"
proof -
  obtain w' where run: "runWithConfig (Real sample_api) sge_host ''alice'' sge_config sge_world = (None, w')"
    "getenv w' ''SGE_JOB_SPOOL_DIR'' = ''/n/active_jobs/5.1''" using sge_live by blast
  have "is_abs (getenv w' ''SGE_JOB_SPOOL_DIR'')" unfolding run(2) by code_simp
  then have "qlog w' \<noteq> qlog sge_world"
    using runWithConfig_success [OF run(1) sge_world_start(3)] sge_granted by auto
  from prolog_asks_scheduler [OF run(1) this] show ?thesis
    by (auto simp: sge_config_def sge_world_def fresh_world_def getenv_def)
qed

end
