(* ===== verification/Epilog.thy ===== *)
theory Epilog
  imports Qrmi Sanitize Go_Flag
begin

text \<open>
  \<open>src/cmd/qrmi-ocs-epilog-go/main.go\<close>: the queue epilog. It reads the metadata the prolog left,
  releases the token, removes the metadata or keeps it for the administrator, and writes the
  accounting. The lemmas: the metadata of a token that was not released is never lost, the
  exit code, and the accounting lines.
\<close>

definition epilog_component :: string where
  "epilog_component = ''qrmi-ocs-epilog''"

record hookConfig =
  ConfigPath :: string
  LogLevel :: string
  JobOwner :: string

definition parseHookArgs :: "string list \<Rightarrow> gerr + hookConfig" where
  "parseHookArgs args =
     (case parse_flags [''config'', ''log-level''] args [] of
        Inl e \<Rightarrow> Inl e
      | Inr (m, rest) \<Rightarrow>
          if 1 < length rest then Inl (Errorf ''expected at most one job-owner argument'' [])
          else Inr \<lparr>ConfigPath = flag_value m ''config'' ''/etc/qrmi/qrmi_config.json'',
                    LogLevel = flag_value m ''log-level'' [],
                    JobOwner = (case rest of [] \<Rightarrow> [] | owner # _ \<Rightarrow> owner)\<rparr>)"

subsection \<open>The release\<close>

fun setenv_pairs :: "(string \<times> string) list \<Rightarrow> 'q world \<Rightarrow> gerr option \<times> 'q world" where
  "setenv_pairs [] w = (None, w)"
| "setenv_pairs ((k, v) # kvs) w =
     (case setenv k v w of
        (Some e, w) \<Rightarrow> (Some (Wrapf ''setenv %s: %w'' [S k] e), w)
      | (None, w) \<Rightarrow> setenv_pairs kvs w)"

definition release_uid :: "host \<Rightarrow> string \<Rightarrow> gerr + i64" where
  "release_uid h owner =
     (if owner = [] then Inr (uid h)
      else case users h owner of
        None \<Rightarrow> Inl (Wrapf ''look up scheduler job owner %q: %w'' [S owner]
          (Errorf ''user: unknown user %s'' [S owner]))
      | Some text \<Rightarrow>
          (case atoi text of
             None \<Rightarrow> Inl (Errorf ''invalid uid %q for scheduler job owner %q'' [S text, S owner])
           | Some u \<Rightarrow> Inr u))"

definition release_job_id :: "'q world \<Rightarrow> string" where
  "release_job_id w =
     (let task = getenv w ''SGE_TASK_ID'' in
      if task \<noteq> [] \<and> task \<noteq> ''undefined'' \<and> task \<noteq> ''0'' then getenv w ''JOB_ID'' @ CHR ''.'' # task
      else getenv w ''JOB_ID'')"

definition release_pairs :: "i64 \<Rightarrow> string \<Rightarrow> acq_record \<Rightarrow> EnvVar list \<Rightarrow> (string \<times> string) list" where
  "release_pairs u jobID rec env =
     [(''QRMI_JOB_UID'', itoa u), (''QRMI_JOB_ID'', jobID),
      (rec_name rec @ ''_QRMI_JOB_ACQUISITION_TOKEN'', rec_token rec)] @
     map (\<lambda>e. (rec_name rec @ CHR ''_'' # Key e, Value e)) env"

definition setReleaseEnv ::
  "'q build \<Rightarrow> host \<Rightarrow> hookConfig \<Rightarrow> acq_record \<Rightarrow> 'q world \<Rightarrow> gerr option \<times> 'q world" where
  "setReleaseEnv b h cfg rec w =
     (case LoadConfig b (ConfigPath cfg) w of
        (Inl e, w) \<Rightarrow> (Some (Wrapf ''load qrmi config %s: %w'' [S (ConfigPath cfg)] e), w)
      | (Inr qcfg, w) \<Rightarrow>
          (case Config_ResourceDef b qcfg (rec_name rec) w of
             (Inl e, w) \<Rightarrow>
               (Some (Wrapf ''resource %q not in %s: %w'' [S (rec_name rec), S (ConfigPath cfg)] e),
                Config_Close b qcfg w)
           | (Inr def, w) \<Rightarrow>
               (case release_uid h (JobOwner cfg) of
                  Inl e \<Rightarrow> (Some e, Config_Close b qcfg (Def_Close b def w))
                | Inr u \<Rightarrow>
                    (case setenv_pairs (release_pairs u (release_job_id w) rec (Def_Environments b def w)) w of
                       (res, w) \<Rightarrow> (res, Config_Close b qcfg (Def_Close b def w))))))"

definition releaseRecord ::
  "'q build \<Rightarrow> host \<Rightarrow> hookConfig \<Rightarrow> acq_record \<Rightarrow> 'q world \<Rightarrow> gerr option \<times> 'q world" where
  "releaseRecord b h cfg rec w =
     (case setReleaseEnv b h cfg rec w of
        (Some e, w) \<Rightarrow> (Some e, w)
      | (None, w) \<Rightarrow>
          (case NewResource b (rec_name rec) (rec_type rec) w of
             (Inl e, w) \<Rightarrow> (Some (Wrapf ''qrmi_resource_new(%s): %w'' [S (rec_name rec)] e), w)
           | (Inr r, w) \<Rightarrow>
               (case Release b r (rec_token rec) w of
                  (res, w) \<Rightarrow>
                    (map_option (Wrapf ''qrmi_resource_release(%s): %w'' [S (rec_name rec)]) res,
                     Resource_Close b r w))))"

subsection \<open>The accounting\<close>

text \<open>\<open>appendUsage\<close> writes each line with one call and stops at the first error.\<close>

fun write_lines :: "host \<Rightarrow> string \<Rightarrow> (string \<times> string) list \<Rightarrow> 'q world \<Rightarrow> gerr option \<times> 'q world" where
  "write_lines h path [] w = (None, w)"
| "write_lines h path ((k, v) # kvs) w =
     (case sys_write h path (env_line k v) w of
        (Some e, w) \<Rightarrow> (Some (SysErr e (''write '' @ path)), w)
      | (None, w) \<Rightarrow> write_lines h path kvs w)"

definition appendUsage :: "host \<Rightarrow> string \<Rightarrow> (string \<times> string) list \<Rightarrow> 'q world \<Rightarrow> gerr option \<times> 'q world" where
  "appendUsage h path metrics w =
     (case sys_open_append h path 420 w of
        (Some e, w) \<Rightarrow> (Some (SysErr e (''open '' @ path)), w)
      | (None, w) \<Rightarrow>
          (case write_lines h path metrics w of (res, w) \<Rightarrow> (res, snd (sys_close h w))))"

definition release_metrics :: "bool \<Rightarrow> i64 \<Rightarrow> (string \<times> string) list" where
  "release_metrics failed elapsed =
     [(''qrmi_release_total'', ''1''), (''qrmi_release_success'', if failed then ''0'' else ''1''),
      (''qrmi_release_failed'', if failed then ''1'' else ''0''),
      (''qrmi_release_elapsed_seconds'', itoa elapsed)]"

definition env_metrics :: "bool \<Rightarrow> i64 \<Rightarrow> (string \<times> string) list" where
  "env_metrics failed elapsed =
     release_metrics failed elapsed @ [(''qrmi_epilog_status'', if failed then ''error'' else ''success'')]"

definition usage_metrics :: "bool \<Rightarrow> i64 \<Rightarrow> (string \<times> string) list" where
  "usage_metrics failed elapsed =
     (''qrmi_acquired_count'', ''1'') # release_metrics failed elapsed @
     [(''qrmi_epilog_status_code'', if failed then ''0'' else ''1'')]"

text \<open>Every variable is tried; an error is only logged.\<close>

fun set_best_effort :: "host \<Rightarrow> (string \<times> string) list \<Rightarrow> 'q world \<Rightarrow> 'q world" where
  "set_best_effort h [] w = w"
| "set_best_effort h ((k, v) # kvs) w =
     (case Set h k v w of
        (Some e, w) \<Rightarrow>
          set_best_effort h kvs
            (log_warn epilog_component (sprintf ''write %s to job env: %v'' [S k, S (error_text e)]) w)
      | (None, w) \<Rightarrow> set_best_effort h kvs w)"

definition publish_usage :: "host \<Rightarrow> bool \<Rightarrow> i64 \<Rightarrow> 'q world \<Rightarrow> 'q world" where
  "publish_usage h failed elapsed w =
     (case ResolveUsagePath w of
        Inl e \<Rightarrow> log_warn epilog_component (sprintf ''resolve usage path: %v'' [S (error_text e)]) w
      | Inr usagePath \<Rightarrow>
          (case appendUsage h usagePath (usage_metrics failed elapsed) w of
             (Some e, w) \<Rightarrow>
               log_warn epilog_component (sprintf ''append usage %s: %v'' [S usagePath, S (error_text e)]) w
           | (None, w) \<Rightarrow> w))"

definition publishSummary :: "host \<Rightarrow> bool \<Rightarrow> i64 \<Rightarrow> 'q world \<Rightarrow> 'q world" where
  "publishSummary h failed elapsed w =
     (case OpenJobEnv h w of
        (None, w) \<Rightarrow>
          snd (Close h (publish_usage h failed elapsed (set_best_effort h (env_metrics failed elapsed) w)))
      | (Some e, w) \<Rightarrow>
          publish_usage h failed elapsed
            (log_warn epilog_component (sprintf ''open job env: %v'' [S (error_text e)]) w))"

definition logSummary :: "bool \<Rightarrow> i64 \<Rightarrow> 'q world \<Rightarrow> 'q world" where
  "logSummary failed elapsed w =
     log_info epilog_component
       (sprintf ''release summary: total=1 success=%d failed=%d elapsed=%ds''
          [D (if failed then 0 else 1), D (if failed then 1 else 0), D (sint elapsed)]) w"

subsection \<open>The run\<close>

text \<open>What happens to the metadata file: removed after a release, kept for the administrator otherwise.\<close>

definition settle_metadata :: "host \<Rightarrow> string \<Rightarrow> bool \<Rightarrow> 'q world \<Rightarrow> 'q world" where
  "settle_metadata h metaPath failed w =
     (if \<not> failed
      then (case sys_remove h metaPath w of
              (Some e, w) \<Rightarrow>
                if e = ENOENT then w
                else log_warn epilog_component (sprintf ''failed to remove metadata file %s: %v''
                       [S metaPath, S (error_text (SysErr e (''remove '' @ metaPath)))]) w
            | (None, w) \<Rightarrow> w)
      else (case PreserveFailedRelease h metaPath w of
              ((kept, Some e), w) \<Rightarrow>
                log_warn epilog_component (sprintf
                  ''failed to move metadata file %s out of the job spool for administrator recovery: %v''
                  [S metaPath, S (error_text e)]) w
            | ((kept, None), w) \<Rightarrow>
                log_warn epilog_component
                  (sprintf ''moved metadata for administrator recovery to %s'' [S kept]) w))"

definition finish :: "host \<Rightarrow> string \<Rightarrow> bool \<Rightarrow> 'q world \<Rightarrow> 'q world" where
  "finish h metaPath failed w =
     logSummary failed (spent h) (publishSummary h failed (spent h) (settle_metadata h metaPath failed w))"

definition start_env :: "hookConfig \<Rightarrow> 'q world \<Rightarrow> 'q world" where
  "start_env cfg w =
     (case RustLogFromDebug (LogLevel cfg) of
        (level, ok) \<Rightarrow> if ok then snd (setenv ''RUST_LOG'' level w) else w)"

definition run :: "'q build \<Rightarrow> host \<Rightarrow> hookConfig \<Rightarrow> 'q world \<Rightarrow> nat \<times> 'q world" where
  "run b h cfg w0 =
     (case SetLogCallback b epilog_component (start_env cfg w0) of w \<Rightarrow>
      (case ResolveMetadataPath w of
         Inl e \<Rightarrow> (1, log_error epilog_component (sprintf ''resolve metadata path: %v'' [S (error_text e)]) w)
       | Inr metaPath \<Rightarrow>
           (case ReadStrictSingle h metaPath w of
              (Inl e, w) \<Rightarrow>
                if is_not_exist e
                then (0, log_info epilog_component
                       (sprintf ''no metadata file found at %s; skipping release'' [S metaPath]) w)
                else (ExitHostError, finish h metaPath True
                       (log_error epilog_component (sprintf ''read metadata %s: %v''
                          [S metaPath, S (error_text e)]) w))
            | (Inr rec, w) \<Rightarrow>
                (case releaseRecord b h cfg rec w of
                   (Some e, w) \<Rightarrow> (0, finish h metaPath True (log_error epilog_component (error_text e) w))
                 | (None, w) \<Rightarrow> (0, finish h metaPath False w)))))"

definition epilog_main ::
  "'q build \<Rightarrow> host \<Rightarrow> string list \<Rightarrow> string list \<Rightarrow> 'q world \<Rightarrow> nat \<times> 'q world" where
  "epilog_main b h environ args w =
     (case ResetProcessEnv h environ w of
        (Some e, w) \<Rightarrow>
          (ExitCode (Some e), log_error epilog_component (sprintf ''environment: %v'' [S (error_text e)]) w)
      | (None, w) \<Rightarrow>
          (case parseHookArgs args of
             Inl e \<Rightarrow> (ExitHostError, log_error epilog_component (error_text e) w)
           | Inr cfg \<Rightarrow> run b h cfg w))"

subsection \<open>The calls of the release\<close>

text \<open>A step that touches no file and leaves the job environment alone.\<close>

definition proc_step :: "qevent list \<Rightarrow> 'q world \<Rightarrow> 'q world \<Rightarrow> bool" where
  "proc_step es w w' = (effect {} es w w' \<and> files w' = files w \<and> jenv w' = jenv w)"

lemma proc_step_refl [simp]: "proc_step [] w w"
  by (simp add: proc_step_def)

lemma proc_step_trans: "proc_step es a b \<Longrightarrow> proc_step ds b c \<Longrightarrow> proc_step (es @ ds) a c"
  by (auto simp: proc_step_def intro: effect_trans_same)

lemma lib_call_proc: "lib_call es w w' \<Longrightarrow> proc_step es w w'"
  by (simp add: lib_call_def proc_step_def)

lemma setenv_proc: "setenv k v w = (r, w') \<Longrightarrow> proc_step [] w w'"
  by (auto simp: setenv_def proc_step_def split: if_splits)

lemma setenv_pairs_proc: "setenv_pairs kvs w = (r, w') \<Longrightarrow> proc_step [] w w'"
proof (induction kvs arbitrary: w)
  case (Cons a kvs)
  obtain k v where a: "a = (k, v)" by fastforce
  obtain x w1 where 1: "setenv k v w = (x, w1)" by fastforce
  note p = setenv_proc [OF 1]
  show ?case
  proof (cases x)
    case None
    then have "setenv_pairs kvs w1 = (r, w')" using Cons.prems 1 a by simp
    then show ?thesis using proc_step_trans [OF p Cons.IH] by simp
  qed (use Cons.prems 1 a p in simp)
qed simp

lemma setReleaseEnv_calls:
  assumes "setReleaseEnv b h cfg rec w = (res, w')"
  shows "\<exists>es. proc_step es w w' \<and> nested [] es \<and> (\<forall>r t ok. QRelease r t ok \<notin> set es \<and> QAcquire r t \<notin> set es)"
proof -
  obtain x w1 where 1: "LoadConfig b (ConfigPath cfg) w = (x, w1)" by fastforce
  show ?thesis
  proof (cases x)
    case (Inl e)
    then have "proc_step [] w w'" using assms 1 Inl lib_call_proc [OF LoadConfig_Inl [OF 1 [unfolded Inl]]]
      by (auto simp: setReleaseEnv_def)
    then show ?thesis by (intro exI [of _ "[]"]) simp
  next
    case (Inr k)
    obtain api c where b: "b = Real api" and k: "k = Some c" and p1: "proc_step [QConfigLoad c] w w1"
      using LoadConfig_Inr [OF 1 [unfolded Inr]] lib_call_proc by blast
    have close: "proc_step [QConfigFree c] v (Config_Close b k v)" for v
      unfolding b k by (rule lib_call_proc [OF Config_Close_call])
    obtain y w2 where 2: "Config_ResourceDef b k (rec_name rec) w1 = (y, w2)" by fastforce
    show ?thesis
    proof (cases y)
      case (Inl e)
      then have "w' = Config_Close b k w2" using assms 1 Inr 2 by (auto simp: setReleaseEnv_def)
      moreover have "proc_step [] w1 w2" using ResourceDef_Inl 2 Inl lib_call_proc by blast
      ultimately have "proc_step ([QConfigLoad c] @ [] @ [QConfigFree c]) w w'"
        using proc_step_trans [OF p1 proc_step_trans [OF _ close]] by blast
      then show ?thesis by (intro exI [of _ "[QConfigLoad c, QConfigFree c]"]) (simp add: nested_def)
    next
      case (Inr l)
      obtain d where l: "l = Some d" and p2: "proc_step [QDefGet d] w1 w2"
        using ResourceDef_Inr [OF 2 [unfolded Inr]] lib_call_proc by blast
      have cl: "proc_step [QDefFree d] v (Def_Close b l v)" for v
        unfolding b l by (rule lib_call_proc [OF Def_Close_call])
      have "\<exists>w3. w' = Config_Close b k (Def_Close b l w3) \<and> proc_step [] w2 w3"
      proof (cases "release_uid h (JobOwner cfg)")
        case (Inl e)
        then show ?thesis using assms 1 \<open>x = Inr k\<close> 2 \<open>y = Inr l\<close>
          by (intro exI [of _ w2]) (simp add: setReleaseEnv_def)
      next
        case (Inr u)
        obtain r w3 where "setenv_pairs (release_pairs u (release_job_id w2) rec (Def_Environments b l w2)) w2 = (r, w3)"
          by fastforce
        with assms 1 \<open>x = Inr k\<close> 2 \<open>y = Inr l\<close> Inr setenv_pairs_proc [OF this] show ?thesis
          by (intro exI [of _ w3]) (simp add: setReleaseEnv_def)
      qed
      then obtain w3 where 3: "w' = Config_Close b k (Def_Close b l w3)" "proc_step [] w2 w3" by blast
      have "proc_step ([QConfigLoad c] @ [QDefGet d] @ [] @ [QDefFree d] @ [QConfigFree c]) w w'"
        unfolding 3(1)
        by (rule proc_step_trans [OF p1 proc_step_trans [OF p2 proc_step_trans [OF 3(2) proc_step_trans [OF cl close]]]])
      then show ?thesis
        by (intro exI [of _ "[QConfigLoad c, QDefGet d, QDefFree d, QConfigFree c]"]) (simp add: nested_def)
    qed
  qed
qed

lemma releaseRecord_calls:
  assumes "releaseRecord b h cfg rec w = (res, w')"
  shows "\<exists>es. proc_step es w w' \<and> brackets [] es \<and>
    (\<forall>r t. QAcquire r t \<notin> set es) \<and>
    (\<forall>r t ok. QRelease r t ok \<in> set es \<longrightarrow> t = c_string (rec_token rec) \<and> ok = (res = None)) \<and>
    (res = None \<longrightarrow> (\<exists>r. QRelease r (c_string (rec_token rec)) True \<in> set es))"
proof -
  obtain x w1 where 1: "setReleaseEnv b h cfg rec w = (x, w1)" by fastforce
  obtain es where es: "proc_step es w w1" "nested [] es" "\<forall>r t ok. QRelease r t ok \<notin> set es \<and> QAcquire r t \<notin> set es"
    using setReleaseEnv_calls [OF 1] by blast
  obtain y w2 where 2: "NewResource b (rec_name rec) (rec_type rec) w1 = (y, w2)" by fastforce
  show ?thesis
  proof (cases "x = None \<and> \<not> isl y")
    case False
    have "proc_step [] w1 w2" if "y = Inl e" for e using NewResource_Inl 2 that lib_call_proc by blast
    then have "proc_step [] w1 w' \<and> res \<noteq> None"
      using assms 1 2 False by (cases x; cases y) (auto simp: releaseRecord_def)
    then have "proc_step es w w' \<and> res \<noteq> None" using proc_step_trans [OF es(1)] by fastforce
    then show ?thesis using es(2,3) nested_brackets by blast
  next
    case True
    then obtain r where r: "y = Inr r" by (cases y) auto
    obtain n where n: "r = Some n"
      and p2: "proc_step [QResourceNew n (c_string (rec_name rec)) (ucast (rec_type rec))] w1 w2"
      using NewResource_Inr [OF 2 [unfolded r]] lib_call_proc by blast
    obtain api where b: "b = Real api" using 2 r by (cases b) (auto simp: NewResource_def)
    obtain z w3 where 3: "Release b (Some n) (rec_token rec) w2 = (z, w3)" by fastforce
    have p3: "proc_step [QRelease n (c_string (rec_token rec)) (z = None)] w2 w3"
      using Release_call 3 b lib_call_proc by blast
    have p4: "proc_step [QResourceFree n] w3 (Resource_Close b (Some n) w3)"
      unfolding b by (rule lib_call_proc [OF Resource_Close_call])
    have w': "w' = Resource_Close b (Some n) w3" "res = None \<longleftrightarrow> z = None"
      using assms 1 2 3 True r n by (auto simp: releaseRecord_def)
    let ?ds = "[QResourceNew n (c_string (rec_name rec)) (ucast (rec_type rec))] @
      [QRelease n (c_string (rec_token rec)) (z = None)] @ [QResourceFree n]"
    have "proc_step (es @ ?ds) w w'" 
      unfolding w'(1) by (rule proc_step_trans [OF es(1) proc_step_trans [OF p2 proc_step_trans [OF p3 p4]]])
    moreover have "nested [] ?ds" by (simp add: nested_def)
    then have "brackets [] (es @ ?ds)" using es(2) nested_append nested_brackets by blast
    ultimately show ?thesis using es(3) w'(2) by (intro exI [of _ "es @ ?ds"]) auto
  qed
qed

subsection \<open>The files of the accounting\<close>

lemma set_best_effort_frame:
  assumes "jenv w = Some je" "set_best_effort h kvs w = w'"
  shows "files_at {jpath je} w w' \<and> (\<forall>k. k \<notin> fst ` set kvs \<longrightarrow> penv w' k = penv w k) \<and>
    (\<exists>je'. jenv w' = Some je' \<and> env_follows je je')"
  using assms
proof (induction kvs arbitrary: w je)
  case (Cons a kvs)
  obtain k v where a: "a = (k, v)" by fastforce
  obtain r w1 where s: "Set h k v w = (r, w1)" by fastforce
  define w2 where "w2 = (case r of None \<Rightarrow> w1
    | Some e \<Rightarrow> log_warn epilog_component (sprintf ''write %s to job env: %v'' [S k, S (error_text e)]) w1)"
  have run: "set_best_effort h kvs w2 = w'" using Cons.prems(2) s a by (simp add: w2_def split: option.splits)
  have w2: "penv w2 = penv w1" "jenv w2 = jenv w1" "files_at P w w2 = files_at P w w1" for P
    by (simp_all add: w2_def log_warn_def log_write_def split: option.split)
  note f = Set_frame [OF s Cons.prems(1)]
  then obtain je1 where j1: "jenv w2 = Some je1" "env_follows je je1" using w2(2) by auto
  note IH = Cons.IH [OF j1(1) run]
  have "files_at {jpath je} w w'" using f IH w2(3) env_follows_path [OF j1(2)]
    by (auto intro: files_at_trans_same)
  moreover have "\<exists>je'. jenv w' = Some je' \<and> env_follows je je'"
    using IH j1(2) env_follows_trans by blast
  moreover have "\<forall>x. x \<notin> fst ` set (a # kvs) \<longrightarrow> penv w' x = penv w x"
    using f IH w2(1) by (auto simp: a)
  ultimately show ?case by blast
qed simp

lemma write_lines_only_at: "write_lines h path kvs w = (r, w') \<Longrightarrow> only_at {path} w w'"
proof (induction kvs arbitrary: w)
  case (Cons a kvs)
  obtain k v where a: "a = (k, v)" by fastforce
  obtain x w1 where 1: "sys_write h path (env_line k v) w = (x, w1)" by fastforce
  have o: "only_at {path} w w1" using sys_only_at(2) [of path w h "env_line k v"] 1 by simp
  show ?case
  proof (cases x)
    case None
    then have "write_lines h path kvs w1 = (r, w')" using Cons.prems 1 a by simp
    then show ?thesis using only_at_trans_same [OF o Cons.IH] by simp
  qed (use Cons.prems 1 a o in simp)
qed simp

lemma appendUsage_only_at: "appendUsage h path kvs w = (r, w') \<Longrightarrow> only_at {path} w w'"
proof -
  assume *: "appendUsage h path kvs w = (r, w')"
  obtain x w1 where 1: "sys_open_append h path 420 w = (x, w1)" by fastforce
  have o1: "only_at {path} w w1" using sys_only_at(1) [of path w h 420] 1 by simp
  obtain y w2 where 2: "write_lines h path kvs w1 = (y, w2)" by fastforce
  have "only_at {path} w2 (snd (sys_close h w2))" using only_at_mono [OF sys_only_at(4)] by blast
  then have "only_at {path} w (snd (sys_close h w2))"
    using only_at_trans_same [OF o1 write_lines_only_at [OF 2]] only_at_trans_same by blast
  then show ?thesis using * 1 2 o1 by (cases x) (auto simp: appendUsage_def)
qed

text \<open>The paths below the directory the variable names, if it is set.\<close>

definition spool_files :: "'q world \<Rightarrow> string set" where
  "spool_files w = (let d = getenv w ''SGE_JOB_SPOOL_DIR'' in
     if d = [] then {} else {path_join [d, ''environment''], path_join [d, ''usage'']})"

lemma publish_usage_files_at: "files_at (spool_files w) w (publish_usage h failed el w)"
  by (auto simp: publish_usage_def ResolveUsagePath_def Let_def spool_files_def
      dest!: appendUsage_only_at intro: files_at_mono [OF only_at_files_at] split: prod.split option.split)

lemma env_metrics_not_spool: "''SGE_JOB_SPOOL_DIR'' \<notin> fst ` set (env_metrics failed el)"
  by (simp add: env_metrics_def release_metrics_def)

lemma publishSummary_files_at: "files_at (spool_files w) w (publishSummary h failed el w)"
proof -
  obtain x w1 where 1: "OpenJobEnv h w = (x, w1)" by fastforce
  show ?thesis
  proof (cases x)
    case None
    note o = OpenJobEnv_ok [OF 1 [unfolded None]]
    then obtain p where p: "ResolveJobEnvPath w = Inr p" "jenv w1 = Some \<lparr>jpath = p, jopen = True, jerr = None\<rparr>"
      "files_at {p} w w1" "penv w1 = penv w" by blast
    let ?w2 = "set_best_effort h (env_metrics failed el) w1"
    note f = set_best_effort_frame [OF p(2) refl, of h "env_metrics failed el"]
    have sf: "spool_files ?w2 = spool_files w" "p \<in> spool_files w"
      using f p(1,4) env_metrics_not_spool by (auto simp: spool_files_def getenv_def ResolveJobEnvPath_def Let_def split: if_splits)
    have "files_at (spool_files w) w ?w2" using f p(3) sf(2)
      by (auto intro: files_at_mono [OF files_at_trans_same, of "{p}"])
    then have "files_at (spool_files w) w (publish_usage h failed el ?w2)"
      using publish_usage_files_at [of ?w2 h failed el] sf(1) files_at_trans_same by metis
    moreover have "files_at (spool_files w) v (snd (Close h v))" for v :: "'a world"
      using Close_frame files_at_mono by blast
    ultimately have "files_at (spool_files w) w (snd (Close h (publish_usage h failed el ?w2)))"
      by (rule files_at_trans_same)
    then show ?thesis using 1 None by (simp add: publishSummary_def)
  next
    case (Some e)
    note o = OpenJobEnv_fails [OF 1 [unfolded Some]]
    then obtain P where P: "\<forall>p \<in> P. ResolveJobEnvPath w = Inr p" "files_at P w w1" by blast
    define w2 where "w2 = log_warn epilog_component (sprintf ''open job env: %v'' [S (error_text e)]) w1"
    have "P \<subseteq> spool_files w" using P(1)
      by (auto simp: spool_files_def ResolveJobEnvPath_def Let_def split: if_splits)
    then have "files_at (spool_files w) w w2" using files_at_mono [OF P(2)] by (simp add: w2_def)
    moreover have sf: "spool_files w2 = spool_files w"
      using o by (simp add: w2_def spool_files_def getenv_def log_warn_def log_write_def)
    ultimately have "files_at (spool_files w) w (publish_usage h failed el w2)"
      using files_at_trans_same publish_usage_files_at [of w2 h failed el, unfolded sf] by blast
    then show ?thesis using 1 Some by (simp add: publishSummary_def w2_def)
  qed
qed

subsection \<open>The metadata through a run\<close>

text \<open>
  \<open>keeps A x w w'\<close>: in every state the file system goes through on the way, and at the end, the
  node \<open>x\<close> is at one of the paths of \<open>A\<close>.
\<close>

definition keeps :: "string set \<Rightarrow> fnode option \<Rightarrow> 'q world \<Rightarrow> 'q world \<Rightarrow> bool" where
  "keeps A x w w' = (\<exists>fs. hist w' = fs @ hist w \<and> (\<forall>f \<in> set (files w' # fs). \<exists>q \<in> A. f q = x))"

lemma keeps_trans: "keeps A x a b \<Longrightarrow> keeps A x b c \<Longrightarrow> keeps A x a c"
proof -
  assume 1: "keeps A x a b" and 2: "keeps A x b c"
  obtain fs where f: "hist b = fs @ hist a" "\<forall>f \<in> set (files b # fs). \<exists>q \<in> A. f q = x"
    using 1 by (auto simp: keeps_def)
  obtain gs where g: "hist c = gs @ hist b" "\<forall>f \<in> set (files c # gs). \<exists>q \<in> A. f q = x"
    using 2 by (auto simp: keeps_def)
  have "hist c = (gs @ fs) @ hist a" using f g by simp
  moreover have "\<forall>f \<in> set (files c # gs @ fs). \<exists>q \<in> A. f q = x" using f g by auto
  ultimately show ?thesis unfolding keeps_def by blast
qed

lemma keeps_end: "keeps A x w w' \<Longrightarrow> \<exists>q \<in> A. files w' q = x"
  by (auto simp: keeps_def)

lemma keeps_effect:
  assumes "effect P es w w'" "A \<inter> P = {}" "\<exists>q \<in> A. files w q = x"
  shows "keeps A x w w'"
proof -
  obtain q fs where "q \<in> A" "files w q = x" "hist w' = fs @ hist w"
    "\<forall>f \<in> set (files w' # fs). \<forall>q. q \<notin> P \<longrightarrow> f q = files w q"
    using assms(1,3) by (auto simp: effect_def)
  moreover have "q \<notin> P" using assms(2) \<open>q \<in> A\<close> by blast
  ultimately show ?thesis unfolding keeps_def by (intro exI [of _ fs]) metis
qed

lemma keeps_log [simp]:
  "keeps A x w (log_info c m w') = keeps A x w w'" "keeps A x w (log_warn c m w') = keeps A x w w'"
  "keeps A x w (log_error c m w') = keeps A x w w'"
  by (simp_all add: keeps_def log_info_def log_warn_def log_error_def log_write_def)

text \<open>The names of a run: the job's spool, its metadata file and the place of a kept copy.\<close>

definition spool_meta :: "string list \<Rightarrow> string \<Rightarrow> string" where
  "spool_meta es job = abs_path (es @ [''active_jobs'', job, MetadataFilename])"

definition job_names :: "string list \<Rightarrow> string \<Rightarrow> bool" where
  "job_names es job = (list_all normal_elem es \<and> normal_elem job)"

lemma kept_ne: "job_names es job \<Longrightarrow> spool_meta es job \<noteq> kept_path es job \<and>
  spool_meta es job \<noteq> abs_path (es @ [FailedReleaseDir]) \<and> abs_path (es @ [FailedReleaseDir]) \<noteq> kept_path es job"
proof -
  assume "job_names es job"
  then have n: "\<forall>x \<in> set (es @ [''active_jobs'', job, MetadataFilename]). normal_elem x"
    "\<forall>x \<in> set (es @ [FailedReleaseDir]). normal_elem x"
    "\<forall>x \<in> set (es @ [FailedReleaseDir, job @ ''.tsv'']). normal_elem x"
    using normal_tsv by (auto simp: job_names_def list_all_iff)
  show ?thesis using abs_path_inject [OF n(1,2)] abs_path_inject [OF n(1,3)] abs_path_inject [OF n(2,3)]
    unfolding spool_meta_def kept_path_def by auto
qed

lemma names_differ: "MetadataFilename \<noteq> ''environment''" "MetadataFilename \<noteq> ''usage''"
  "job @ ''.tsv'' \<noteq> ''environment''" "job @ ''.tsv'' \<noteq> ''usage''"
proof -
  show "MetadataFilename \<noteq> ''environment''" "MetadataFilename \<noteq> ''usage''"
    by (simp_all add: MetadataFilename_def)
  have "last (job @ ''.tsv'') = CHR ''v''" by simp
  then show "job @ ''.tsv'' \<noteq> ''environment''" "job @ ''.tsv'' \<noteq> ''usage''" by auto
qed

lemma spool_files_apart:
  assumes "job_names es job"
  shows "{spool_meta es job, kept_path es job} \<inter> spool_files w = {}"
proof -
  let ?d = "getenv w ''SGE_JOB_SPOOL_DIR''"
  have n: "normal_elem (job @ ''.tsv'')" using assms normal_tsv by (simp add: job_names_def)
  have "path_join [?d, x] \<noteq> abs_path ((es @ [a]) @ [f])"
    if "?d \<noteq> []" "normal_elem x" "normal_elem f" "f \<noteq> x" for x a f
    using path_join_name [of ?d x "es @ [a]" f] that by blast
  moreover have "path_join [?d, x] \<noteq> abs_path ((es @ [a, job]) @ [f])"
    if "?d \<noteq> []" "normal_elem x" "normal_elem f" "f \<noteq> x" for x a f
    using path_join_name [of ?d x "es @ [a, job]" f] that by blast
  ultimately have "path_join [?d, x] \<noteq> spool_meta es job \<and> path_join [?d, x] \<noteq> kept_path es job"
    if "?d \<noteq> []" "normal_elem x" "MetadataFilename \<noteq> x" "job @ ''.tsv'' \<noteq> x" for x
    using that n unfolding spool_meta_def kept_path_def by simp
  from this [OF _ normal_names(2) names_differ(1,3)] this [OF _ normal_names(3) names_differ(2,4)]
  show ?thesis by (auto simp: spool_files_def Let_def)
qed

lemma Preserve_keeps:
  assumes "job_names es job" "PreserveFailedRelease h (spool_meta es job) w = ((k, e), w')"
  shows "keeps {spool_meta es job, kept_path es job} (files w (spool_meta es job)) w w' \<and> same_proc w w'"
proof -
  have n: "\<forall>e \<in> set es. normal_elem e" "normal_elem job" using assms(1) by (simp_all add: job_names_def list_all_iff)
  note p = Preserve_paths [OF n normal_names(4) normal_MetadataFilename, folded spool_meta_def]
  have "path_join [path_dir (path_dir (path_dir (spool_meta es job))), FailedReleaseDir] = abs_path (es @ [FailedReleaseDir])"
    "path_join [abs_path (es @ [FailedReleaseDir]), path_base (path_dir (spool_meta es job)) @ ''.tsv''] = kept_path es job"
    using p by simp_all
  note r = Preserve_run [OF assms(2) this]
  from r kept_ne [OF assms(1)] obtain fs where "hist w' = fs @ hist w" "same_proc w w'"
    "\<forall>f \<in> set (files w' # fs). f (spool_meta es job) = files w (spool_meta es job) \<or>
       f (kept_path es job) = files w (spool_meta es job)" by fast
  then show ?thesis unfolding keeps_def by (intro conjI exI [of _ fs]) auto
qed

lemma settle_kept:
  assumes "job_names es job"
  shows "keeps {spool_meta es job, kept_path es job} (files w (spool_meta es job)) w
    (settle_metadata h (spool_meta es job) True w)"
proof -
  obtain k e w' where p: "PreserveFailedRelease h (spool_meta es job) w = ((k, e), w')" by (metis prod.exhaust)
  show ?thesis using Preserve_keeps [OF assms p] p by (cases e) (simp_all add: settle_metadata_def)
qed

lemma finish_kept:
  assumes "job_names es job"
  shows "keeps {spool_meta es job, kept_path es job} (files w (spool_meta es job)) w
    (finish h (spool_meta es job) True w)"
proof -
  let ?w = "settle_metadata h (spool_meta es job) True w"
  note k = settle_kept [OF assms, of w h]
  have "effect (spool_files ?w) [] ?w (publishSummary h True (spent h) ?w)"
    using publishSummary_files_at by (rule files_at_effect)
  then have "keeps {spool_meta es job, kept_path es job} (files w (spool_meta es job)) ?w
      (publishSummary h True (spent h) ?w)"
    using spool_files_apart [OF assms] keeps_end [OF k] by (rule keeps_effect)
  then show ?thesis using keeps_trans [OF k] by (simp add: finish_def logSummary_def)
qed

subsection \<open>The run\<close>

definition started :: "'q build \<Rightarrow> hookConfig \<Rightarrow> 'q world \<Rightarrow> 'q world" where
  "started b cfg w = SetLogCallback b epilog_component (start_env cfg w)"

lemma started_same:
  "files (started b cfg w) = files w" "hist (started b cfg w) = hist w" "qlog (started b cfg w) = qlog w"
  "jenv (started b cfg w) = jenv w" "nsys (started b cfg w) = nsys w"
  "getenv (started b cfg w) ''SGE_JOB_SPOOL_DIR'' = getenv w ''SGE_JOB_SPOOL_DIR''"
  "getenv (started b cfg w) ''JOB_ID'' = getenv w ''JOB_ID''"
  by (simp_all add: started_def start_env_def SetLogCallback_def setenv_def getenv_def
      split: build.split prod.split)

lemma run_eq:
  assumes "job_names es job" "getenv w ''SGE_JOB_SPOOL_DIR'' = abs_path (es @ [''active_jobs'', job])"
  shows "run b h cfg w =
    (case ReadStrictSingle h (spool_meta es job) (started b cfg w) of
       (Inl e, w) \<Rightarrow>
         if is_not_exist e
         then (0, log_info epilog_component
                (sprintf ''no metadata file found at %s; skipping release'' [S (spool_meta es job)]) w)
         else (ExitHostError, finish h (spool_meta es job) True
                (log_error epilog_component (sprintf ''read metadata %s: %v''
                   [S (spool_meta es job), S (error_text e)]) w))
     | (Inr rec, w) \<Rightarrow>
         (case releaseRecord b h cfg rec w of
            (Some e, w) \<Rightarrow> (0, finish h (spool_meta es job) True (log_error epilog_component (error_text e) w))
          | (None, w) \<Rightarrow> (0, finish h (spool_meta es job) False w)))"
proof -
  have n: "\<forall>x \<in> set (es @ [''active_jobs'', job]). normal_elem x"
    using assms(1) by (auto simp: job_names_def list_all_iff)
  have "path_join [abs_path (es @ [''active_jobs'', job]), MetadataFilename] = spool_meta es job"
    using path_join_abs [OF n normal_MetadataFilename] by (simp add: spool_meta_def)
  then have "ResolveMetadataPath (started b cfg w) = Inr (spool_meta es job)"
    using assms(2) by (simp add: ResolveMetadataPath_def started_same Let_def)
  then show ?thesis by (simp add: run_def started_def [symmetric])
qed

lemma proc_step_effect: "proc_step es w w' \<Longrightarrow> effect {} es w w' \<and> files w' = files w"
  by (simp add: proc_step_def)

lemma finish_qlog:
  assumes "job_names es job"
  shows "qlog (finish h (spool_meta es job) failed w) = qlog w"
proof -
  let ?m = "spool_meta es job"
  obtain e u where 1: "sys_remove h ?m w = (e, u)" by fastforce
  obtain k x v where 2: "PreserveFailedRelease h ?m w = ((k, x), v)" by (metis prod.exhaust)
  have "qlog u = qlog w" using sys_same_proc(7) [of w h ?m] 1 by (simp add: same_proc_def)
  moreover have "qlog v = qlog w" using Preserve_keeps [OF assms 2] by (simp add: same_proc_def)
  ultimately have "qlog (settle_metadata h ?m failed w) = qlog w"
    by (cases e; cases x) (simp_all add: settle_metadata_def 1 2 log_warn_def log_write_def)
  then show ?thesis using files_at_lib [OF publishSummary_files_at [of "settle_metadata h ?m failed w" h failed "spent h"]]
    by (simp add: finish_def logSummary_def log_info_def log_write_def)
qed

text \<open>The record a readable metadata file holds.\<close>

definition meta_record :: "files \<Rightarrow> string \<Rightarrow> acq_record option" where
  "meta_record f p = (case file_data f p of
     None \<Rightarrow> None
   | Some d \<Rightarrow> (case read_scanned parseRecordLine d None of Inl e \<Rightarrow> None | Inr rec \<Rightarrow> Some rec))"

lemma meta_record_read: "ReadStrictSingle h p w = (Inr rec, w') \<Longrightarrow> meta_record (files w) p = Some rec"
proof -
  assume "ReadStrictSingle h p w = (Inr rec, w')"
  then have "fst (ReadStrictSingle h p w) = Inr rec" by simp
  then obtain d where "file_data (files w) p = Some d" "read_scanned parseRecordLine d None = Inr rec"
    by (rule ReadStrictSingle_Inr)
  then show ?thesis by (simp add: meta_record_def)
qed

lemma run_calls:
  assumes "job_names es job" "getenv w ''SGE_JOB_SPOOL_DIR'' = abs_path (es @ [''active_jobs'', job])"
    and "run b h cfg w = (c, w')"
  defines "meta \<equiv> spool_meta es job"
  shows "\<exists>evs. qlog w' = qlog w @ evs \<and> brackets [] evs \<and> (\<forall>r t. QAcquire r t \<notin> set evs) \<and>
    (\<forall>r t ok. QRelease r t ok \<in> set evs \<longrightarrow>
       (\<exists>rec. meta_record (files w) meta = Some rec \<and> t = c_string (rec_token rec))) \<and>
    ((\<exists>r t. QRelease r t True \<in> set evs) \<or> keeps {meta, kept_path es job} (files w meta) w w')"
proof -
  let ?A = "{meta, kept_path es job}"
  define v where "v = started b cfg w"
  have v: "files v = files w" "hist v = hist w" "qlog v = qlog w" by (simp_all add: v_def started_same)
  obtain x w1 where 1: "ReadStrictSingle h meta v = (x, w1)" by fastforce
  have o1: "only_at {} v w1" using ReadStrictSingle_only_at [of v h meta] 1 by simp
  then have e1: "effect {} [] v w1" by (rule files_at_effect [OF only_at_files_at])
  have f1: "files w1 = files w" using only_at_files [OF o1] v(1) by auto
  have k1: "keeps ?A (files w meta) v w1" by (rule keeps_effect [OF e1]) (simp_all add: v)
  have keep: "keeps ?A (files w meta) w u" if "keeps ?A (files w meta) v u" for u
    using that by (simp add: keeps_def v)
  have fin: "keeps ?A (files w meta) u (finish h meta True u)" if "files u = files w" for u
    using finish_kept [OF assms(1), of u h] that by (simp add: meta_def)
  note run = assms(3) [unfolded run_eq [OF assms(1,2)], folded meta_def v_def, unfolded 1]
  show ?thesis
  proof (cases x)
    case (Inl e)
    have "qlog w' = qlog w \<and> keeps ?A (files w meta) w1 w'"
    proof (cases "is_not_exist e")
      case True
      then have "\<exists>m. w' = log_info epilog_component m w1" using run Inl by auto
      then show ?thesis using effect_qlog [OF e1] v(3) keeps_effect [OF effect_refl, of ?A "{}" w1 "files w meta"] f1
        by (auto simp: log_info_def log_write_def keeps_def)
    next
      case False
      define u where "u = log_error epilog_component (sprintf ''read metadata %s: %v'' [S meta, S (error_text e)]) w1"
      have "w' = finish h meta True u" using run Inl False by (simp add: u_def)
      moreover have "files u = files w" "qlog u = qlog w1" "hist u = hist w1"
        using f1 by (simp_all add: u_def log_error_def log_write_def)
      ultimately show ?thesis
        using fin [of u] finish_qlog [OF assms(1), of h True u, folded meta_def] effect_qlog [OF e1] v(3)
        by (simp add: keeps_def)
    qed
    then show ?thesis using keep [OF keeps_trans [OF k1]] by (intro exI [of _ "[]"]) simp
  next
    case (Inr rec)
    obtain r w2 where 2: "releaseRecord b h cfg rec w1 = (r, w2)" by fastforce
    obtain evs where ev: "proc_step evs w1 w2" "brackets [] evs" "\<forall>r t. QAcquire r t \<notin> set evs"
      "\<forall>x t ok. QRelease x t ok \<in> set evs \<longrightarrow> t = c_string (rec_token rec) \<and> ok = (r = None)"
      "r = None \<longrightarrow> (\<exists>x. QRelease x (c_string (rec_token rec)) True \<in> set evs)"
      using releaseRecord_calls [OF 2] by blast
    have m: "meta_record (files w) meta = Some rec" using meta_record_read [OF 1 [unfolded Inr]] v(1) by simp
    note e2 = proc_step_effect [OF ev(1)]
    have k2: "keeps ?A (files w meta) w1 w2" by (rule keeps_effect [of "{}" evs]) (use e2 f1 in auto)
    define u where "u = (case r of None \<Rightarrow> w2 | Some e \<Rightarrow> log_error epilog_component (error_text e) w2)"
    have u: "files u = files w" "qlog u = qlog w @ evs" "hist u = hist w2"
      using e2 f1 effect_qlog [OF e1] effect_qlog [of "{}" evs w1 w2] v(3)
      by (simp_all add: u_def log_error_def log_write_def split: option.split)
    have w': "w' = finish h meta (r \<noteq> None) u" using run Inr 2 by (cases r) (simp_all add: u_def)
    have q: "qlog w' = qlog w @ evs" 
      using finish_qlog [OF assms(1), of h "r \<noteq> None" u, folded meta_def] w' u(2) by simp
    have "r = None \<or> keeps ?A (files w meta) w w'"
    proof (cases r)
      case (Some e)
      have "keeps ?A (files w meta) w2 w'" using fin [OF u(1)] w' Some u(3) by (simp add: keeps_def)
      then show ?thesis using keep [OF keeps_trans [OF keeps_trans [OF k1 k2]]] by blast
    qed simp
    then show ?thesis using q ev m by blast
  qed
qed

subsection \<open>The accounting on a quiet host\<close>

lemma set_best_effort_ok: "set_pairs h kvs w = (None, w') \<Longrightarrow> set_best_effort h kvs w = w'"
proof (induction kvs arbitrary: w)
  case (Cons a kvs)
  obtain k v where a: "a = (k, v)" by fastforce
  obtain x w1 where 1: "Set h k v w = (x, w1)" by fastforce
  have "x = None" using Cons.prems 1 a by (cases x) auto
  then show ?case using Cons 1 a by simp
qed simp

lemma set_pairs_quiet:
  assumes "fault_free h" "jenv w = Some \<lparr>jpath = p, jopen = True, jerr = None\<rparr>"
    and "list_all (\<lambda>kv. setenv_ok (fst kv) (snd kv)) kvs"
  shows "\<exists>w'. set_pairs h kvs w = (None, w')"
  using assms(2,3)
proof (induction kvs arbitrary: w)
  case (Cons a kvs)
  obtain k v where a: "a = (k, v)" by fastforce
  obtain w1 where 1: "Set h k v w = (None, w1)"
    using assms(1) Cons.prems a by (simp add: Set_def setenv_def sys_write_def)
  then have "jenv w1 = Some \<lparr>jpath = p, jopen = True, jerr = None\<rparr>" using Set_ok Cons.prems(1) by fastforce
  with Cons 1 a show ?case by simp
qed simp

lemma write_lines_quiet:
  assumes "fault_free h" "file_data (files w) path = Some old"
  shows "\<exists>w'. write_lines h path kvs w = (None, w') \<and> file_data (files w') path = Some (old @ env_text kvs)"
  using assms(2)
proof (induction kvs arbitrary: w old)
  case (Cons a kvs)
  obtain k v where a: "a = (k, v)" by fastforce
  obtain w1 where 1: "sys_write h path (env_line k v) w = (None, w1)"
    "file_data (files w1) path = Some (old @ env_line k v)"
    using assms(1) append_data_at [OF Cons.prems] by (simp add: sys_write_def)
  with Cons.IH [OF 1(2)] a show ?case by simp
qed simp

text \<open>A file that can be opened for append: its directory is there and it is no directory.\<close>

definition appendable :: "files \<Rightarrow> string \<Rightarrow> bool" where
  "appendable f p = (\<not> is_dir f p \<and> (f p \<noteq> None \<or> is_dir f (path_dir p)))"

definition content :: "files \<Rightarrow> string \<Rightarrow> string" where
  "content f p = (case file_data f p of Some d \<Rightarrow> d | None \<Rightarrow> [])"

lemma open_append_quiet:
  assumes "fault_free h" "appendable (files w) p"
  shows "\<exists>w'. sys_open_append h p m w = (None, w') \<and> file_data (files w') p = Some (content (files w) p)"
  using assms
  by (cases "files w p") (auto simp: sys_open_append_def appendable_def is_dir_def content_def file_data_def
      split: fkind.splits)

lemma appendUsage_quiet:
  assumes "fault_free h" "appendable (files w) path"
  shows "\<exists>w'. appendUsage h path kvs w = (None, w') \<and>
    file_data (files w') path = Some (content (files w) path @ env_text kvs)"
proof -
  obtain w1 where 1: "sys_open_append h path 420 w = (None, w1)" "file_data (files w1) path = Some (content (files w) path)"
    using open_append_quiet [OF assms] by blast
  obtain w2 where "write_lines h path kvs w1 = (None, w2)"
    "file_data (files w2) path = Some (content (files w) path @ env_text kvs)"
    using write_lines_quiet [OF assms(1) 1(2)] by blast
  with 1 show ?thesis by (simp add: appendUsage_def)
qed

lemma OpenJobEnv_quiet:
  assumes "fault_free h" "appendable (files w) p" "ResolveJobEnvPath w = Inr p"
  shows "\<exists>w'. OpenJobEnv h w = (None, w')"
proof -
  obtain w1 where 1: "sys_open_append h p 384 w = (None, w1)" "file_data (files w1) p \<noteq> None"
    using open_append_quiet [OF assms(1,2)] by blast
  then have "\<exists>w2. sys_chmod h p 384 w1 = (None, w2)"
    using assms(1) by (auto simp: sys_chmod_def file_data_def split: option.splits)
  then show ?thesis using 1(1) assms(3) by (auto simp: OpenJobEnv_def)
qed

lemma itoa_NUL: "NUL \<notin> set (itoa u)"
  by (auto dest!: itoa_chars simp: is_digit_def)

lemma env_metrics_ok: "list_all (\<lambda>kv. setenv_ok (fst kv) (snd kv)) (env_metrics failed el)"
  by (simp add: env_metrics_def release_metrics_def setenv_ok_def itoa_NUL)

lemma metrics_text:
  "env_text (env_metrics failed el) =
     ''qrmi_release_total=1'' @ [LF] @
     (if failed then ''qrmi_release_success=0'' @ [LF] @ ''qrmi_release_failed=1'' @ [LF]
      else ''qrmi_release_success=1'' @ [LF] @ ''qrmi_release_failed=0'' @ [LF]) @
     ''qrmi_release_elapsed_seconds='' @ show_int (sint el) @ [LF] @
     (if failed then ''qrmi_epilog_status=error'' else ''qrmi_epilog_status=success'') @ [LF]"
  "env_text (usage_metrics failed el) =
     ''qrmi_acquired_count=1'' @ [LF] @ ''qrmi_release_total=1'' @ [LF] @
     (if failed then ''qrmi_release_success=0'' @ [LF] @ ''qrmi_release_failed=1'' @ [LF]
      else ''qrmi_release_success=1'' @ [LF] @ ''qrmi_release_failed=0'' @ [LF]) @
     ''qrmi_release_elapsed_seconds='' @ show_int (sint el) @ [LF] @
     (if failed then ''qrmi_epilog_status_code=0'' else ''qrmi_epilog_status_code=1'') @ [LF]"
  by (simp_all add: env_metrics_def usage_metrics_def release_metrics_def env_line_def itoa_def)

lemma publishSummary_quiet:
  assumes h: "fault_free h" and d: "is_abs (getenv w ''SGE_JOB_SPOOL_DIR'')"
  defines "pe \<equiv> path_join [getenv w ''SGE_JOB_SPOOL_DIR'', ''environment'']"
    and "pu \<equiv> path_join [getenv w ''SGE_JOB_SPOOL_DIR'', ''usage'']"
  assumes a: "appendable (files w) pe" "appendable (files w) pu"
  shows "file_data (files (publishSummary h failed el w)) pe = Some (content (files w) pe @ env_text (env_metrics failed el)) \<and>
    file_data (files (publishSummary h failed el w)) pu = Some (content (files w) pu @ env_text (usage_metrics failed el)) \<and>
    logs (publishSummary h failed el w) = logs w"
proof -
  have ne: "getenv w ''SGE_JOB_SPOOL_DIR'' \<noteq> []" using d by (auto simp: is_abs_def)
  then have r: "ResolveJobEnvPath w = Inr pe" by (simp add: ResolveJobEnvPath_def Let_def pe_def)
  have "path_base pe = ''environment''" "path_base pu = ''usage''"
    unfolding pe_def pu_def using path_join_absE [OF d] path_base_abs normal_names(2,3) by metis+
  then have apart: "pu \<noteq> pe" by auto
  obtain w1 where 1: "OpenJobEnv h w = (None, w1)" using OpenJobEnv_quiet [OF h a(1) r] by blast
  have o: "jenv w1 = Some \<lparr>jpath = pe, jopen = True, jerr = None\<rparr>" "files_at {pe} w w1" "penv w1 = penv w"
    "logs w1 = logs w" "file_data (files w1) pe = Some (content (files w) pe)"
    using OpenJobEnv_ok [OF 1] r by (auto simp: content_def)
  obtain w2 where 2: "set_pairs h (env_metrics failed el) w1 = (None, w2)"
    using set_pairs_quiet [OF h o(1) env_metrics_ok] by blast
  have s: "file_data (files w2) pe = Some (content (files w) pe @ env_text (env_metrics failed el))"
    using set_pairs_ok [OF 2 o(1)] o(5) by simp
  have f: "files_at {pe} w1 w2" "logs w2 = logs w1" "getenv w2 ''SGE_JOB_SPOOL_DIR'' = getenv w1 ''SGE_JOB_SPOOL_DIR''"
    using set_pairs_frame [OF 2 o(1)] env_metrics_not_spool by (auto simp: getenv_def)
  have u2: "files w2 q = files w q" if "q \<noteq> pe" for q
    using files_at_files [OF o(2)] files_at_files [OF f(1)] that by simp
  have "is_dir (files w2) pe = is_dir (files w) pe"
    using a(1) file_data_not_dir [OF s] by (simp add: appendable_def)
  then have "is_dir (files w2) q = is_dir (files w) q" for q using u2 [of q] by (cases "q = pe") (auto simp: is_dir_def)
  then have "appendable (files w2) pu" "content (files w2) pu = content (files w) pu"
    using a(2) apart u2 by (simp_all add: appendable_def content_def file_data_def)
  then obtain w3 where 3: "appendUsage h pu (usage_metrics failed el) w2 = (None, w3)"
    "file_data (files w3) pu = Some (content (files w) pu @ env_text (usage_metrics failed el))"
    using appendUsage_quiet [OF h] by metis
  have o3: "only_at {pu} w2 w3" using appendUsage_only_at [OF 3(1)] .
  then have e3: "file_data (files w3) pe = file_data (files w2) pe" using apart only_at_file_data by fastforce
  have "ResolveUsagePath w2 = Inr pu"
    using ne f(3) o(3) by (simp add: ResolveUsagePath_def Let_def pu_def getenv_def)
  then have "publish_usage h failed el w2 = w3" using 3(1) by (simp add: publish_usage_def)
  then have p: "publishSummary h failed el w = snd (Close h w3)"
    using 1 set_best_effort_ok [OF 2] by (simp add: publishSummary_def)
  have "files (snd (Close h w3)) = files w3" using Close_frame [of w3 h] by (auto simp: files_at_def fun_eq_iff)
  then show ?thesis unfolding p using 3(2) e3 s Close_frame [of w3 h] only_at_proc [OF o3] f(2) o(4)
    by (simp add: file_data_def same_proc_def)
qed

subsection \<open>The exit code\<close>

lemma parseRecordLine_exists: "parseRecordLine l = Inl e \<Longrightarrow> \<not> is_not_exist e"
  by (auto simp: parseRecordLine_def malformed_def Let_def split: if_splits option.splits)

lemma read_loop_exists: "read_loop parseRecordLine ls got = Inl e \<Longrightarrow> \<not> is_not_exist e"
proof (induction ls arbitrary: got)
  case (Cons l ls)
  then show ?case
    by (auto simp: Let_def dest: parseRecordLine_exists split: if_splits sum.splits)
qed simp

lemma read_scanned_exists:
  "read_scanned parseRecordLine d r = Inl e \<Longrightarrow> r = None \<or> \<not> is_not_exist (the r) \<Longrightarrow> \<not> is_not_exist e"
  by (auto simp: read_scanned_def dest: read_loop_exists split: prod.splits sum.splits if_splits option.splits)

lemma ReadStrictSingle_exists:
  assumes "fault_free h" "ReadStrictSingle h p w = (Inl e, w')"
  shows "is_not_exist e \<longleftrightarrow> files w p = None"
proof (cases "files w p")
  case None
  then show ?thesis using ReadStrictSingle_missing [OF assms(1) None] assms(2) by simp
next
  case (Some n)
  obtain x w1 where 1: "sys_open_read h p w = (Inr x, w1)" using assms(1) Some by (simp add: sys_open_read_def)
  obtain y r w2 where 2: "sys_read h p x w1 = ((y, r), w2)" by (metis prod.exhaust)
  have "r = None \<or> r = Some EISDIR" using 2 assms(1) by (auto simp: sys_read_def split: if_splits)
  moreover have "read_scanned parseRecordLine y (map_option (\<lambda>e. SysErr e (''read '' @ p)) r) = Inl e"
    using assms(2) 1 2 by (simp add: ReadStrictSingle_def)
  ultimately have "\<not> is_not_exist e" using read_scanned_exists by fastforce
  with Some show ?thesis by simp
qed

lemma run_exit:
  assumes "job_names es job" "getenv w ''SGE_JOB_SPOOL_DIR'' = abs_path (es @ [''active_jobs'', job])" "fault_free h"
  shows "fst (run b h cfg w) =
    (if files w (spool_meta es job) = None \<or> meta_record (files w) (spool_meta es job) \<noteq> None then 0 else 1)"
proof -
  let ?m = "spool_meta es job" and ?v = "started b cfg w"
  obtain x w1 where 1: "ReadStrictSingle h ?m ?v = (x, w1)" by fastforce
  have fv: "files ?v = files w" by (simp add: started_same)
  show ?thesis
  proof (cases x)
    case (Inl e)
    have "meta_record (files w) ?m = None"
    proof (cases "file_data (files w) ?m")
      case (Some d)
      then have "read_scanned parseRecordLine d None = Inl e"
        using ReadStrictSingle_quiet [OF assms(3), of ?v ?m d] 1 Inl fv by simp
      with Some show ?thesis by (simp add: meta_record_def)
    qed (simp add: meta_record_def)
    then show ?thesis using ReadStrictSingle_exists [OF assms(3) 1 [unfolded Inl]] fv
      by (simp add: run_eq [OF assms(1,2)] 1 Inl ExitHostError_def)
  next
    case (Inr rec)
    then show ?thesis using meta_record_read [OF 1 [unfolded Inr]] fv
      by (simp add: run_eq [OF assms(1,2)] 1 split: prod.split option.split)
  qed
qed

text \<open>The stub build calls no library.\<close>

lemma run_Stub:
  assumes "job_names es job" "getenv w ''SGE_JOB_SPOOL_DIR'' = abs_path (es @ [''active_jobs'', job])"
  shows "qlog (snd (run Stub h cfg w)) = qlog w"
proof -
  obtain x w1 where 1: "ReadStrictSingle h (spool_meta es job) (started Stub cfg w) = (x, w1)" by fastforce
  have "only_at {} (started Stub cfg w) w1"
    using ReadStrictSingle_only_at [of "started Stub cfg w" h "spool_meta es job"] 1 by simp
  then have "qlog w1 = qlog w" by (auto dest!: only_at_proc simp: same_proc_def started_same)
  then show ?thesis using finish_qlog [OF assms(1)]
    by (cases x) (simp_all add: run_eq [OF assms] 1 releaseRecord_def setReleaseEnv_def LoadConfig_def
        log_info_def log_error_def log_write_def finish_qlog [OF assms(1)])
qed

subsection \<open>Properties\<close>

definition epilog_world :: "unit world" where
  "epilog_world = fresh_world [''JOB_ID'' \<mapsto> ''5'', ''SGE_JOB_SPOOL_DIR'' \<mapsto> ''/n/active_jobs/5.1'']
     [''/n'' \<mapsto> \<lparr>fkind = Dir, fmode = 493\<rparr>, ''/n/active_jobs/5.1'' \<mapsto> \<lparr>fkind = Dir, fmode = 493\<rparr>,
      ''/n/active_jobs/5.1/qrmi_ocs_acquired.tsv'' \<mapsto> \<lparr>fkind = Reg (record_line sample_record), fmode = 384\<rparr>] ()"

lemma epilog_sample:
  "job_names [''n''] ''5.1''" "getenv epilog_world ''SGE_JOB_SPOOL_DIR'' = abs_path ([''n''] @ [''active_jobs'', ''5.1''])"
  "meta_record (files epilog_world) (spool_meta [''n''] ''5.1'') = Some sample_record"
  "files epilog_world (spool_meta [''n''] ''5.1'') \<noteq> None"
  by code_simp+

definition epilog_config :: hookConfig where
  "epilog_config = \<lparr>ConfigPath = ''/c'', LogLevel = [], JobOwner = []\<rparr>"

text \<open>
  C10. The epilog acquires nothing, closes every handle it opens, uses the resource only while it
  is open, and asks for the release of no other token than the one of the metadata record,
  whatever the library and the system calls do.
\<close>

theorem epilog_releases_recorded:
  assumes "job_names es job" "getenv w ''SGE_JOB_SPOOL_DIR'' = abs_path (es @ [''active_jobs'', job])"
    and "run b h cfg w = (c, w')"
  shows "\<exists>evs. qlog w' = qlog w @ evs \<and> brackets [] evs \<and> (\<forall>r t. QAcquire r t \<notin> set evs) \<and>
    (\<forall>r t ok. QRelease r t ok \<in> set evs \<longrightarrow>
       (\<exists>rec. meta_record (files w) (spool_meta es job) = Some rec \<and> t = c_string (rec_token rec)))"
  using run_calls [OF assms] by blast

text \<open>
  C3. The metadata of a token that was not released is never lost: unless the library confirmed a
  release, in every state of the file system during the run and at its end the metadata file is
  unchanged in the job's spool or, unchanged, under \<open>qrmi_failed_releases\<close>, whichever system calls
  fail and whatever the accounting does.
\<close>

theorem epilog_keeps_metadata:
  assumes "job_names es job" "getenv w ''SGE_JOB_SPOOL_DIR'' = abs_path (es @ [''active_jobs'', job])"
    and "run b h cfg w = (c, w')"
    and "\<forall>r t. QRelease r t True \<notin> set (drop (length (qlog w)) (qlog w'))"
  shows "keeps {spool_meta es job, kept_path es job} (files w (spool_meta es job)) w w'"
  using run_calls [OF assms(1-3)] assms(4) by auto

theorem epilog_keeps_metadata_witness:
  "\<exists>q \<in> {spool_meta [''n''] ''5.1'', kept_path [''n''] ''5.1''}.
     files (snd (run Stub quiet_host epilog_config epilog_world)) q = files epilog_world (spool_meta [''n''] ''5.1'')"
proof -
  let ?r = "run Stub quiet_host epilog_config epilog_world"
  have "qlog (snd ?r) = []" using run_Stub [OF epilog_sample(1,2)] by (simp add: epilog_world_def fresh_world_def)
  then have "\<forall>r t. QRelease r t True \<notin> set (drop (length (qlog epilog_world)) (qlog (snd ?r)))" by simp
  from epilog_keeps_metadata [OF epilog_sample(1,2) prod.collapse [symmetric] this] show ?thesis
    by (rule keeps_end)
qed

text \<open>
  C28. The epilog's exit code, on a host without faults: 1 exactly when there is a metadata file
  that does not hold exactly one valid record; 0 when there is none, and also when the release
  fails.
\<close>

theorem epilog_exit:
  assumes "job_names es job" "getenv w ''SGE_JOB_SPOOL_DIR'' = abs_path (es @ [''active_jobs'', job])" "fault_free h"
  shows "fst (run b h cfg w) =
    (if files w (spool_meta es job) = None \<or> meta_record (files w) (spool_meta es job) \<noteq> None then 0 else 1)"
  using assms by (rule run_exit)

theorem epilog_exit_witness: "fst (run Stub quiet_host epilog_config epilog_world) = 0"
  using epilog_exit [OF epilog_sample(1,2) fault_free_quiet] epilog_sample(3) by simp

text \<open>
  C27. The accounting, on a host without faults: whether the release failed or not, the usage file
  gets exactly six lines after what it had, \<open>qrmi_acquired_count=1\<close>, \<open>qrmi_release_total=1\<close>, one
  success and no failure or the reverse, the seconds the epilog took, and the status code 1 for a
  success and 0 for an error; the job environment file gets the same four release lines and the
  status by name; and nothing is logged.
\<close>

theorem publishSummary_accounts:
  assumes "fault_free h" "is_abs d" "getenv w ''SGE_JOB_SPOOL_DIR'' = d"
    and "appendable (files w) (path_join [d, ''environment''])" "appendable (files w) (path_join [d, ''usage''])"
  shows "file_data (files (publishSummary h failed el w)) (path_join [d, ''environment'']) =
      Some (content (files w) (path_join [d, ''environment'']) @
        ''qrmi_release_total=1'' @ [LF] @
        (if failed then ''qrmi_release_success=0'' @ [LF] @ ''qrmi_release_failed=1'' @ [LF]
         else ''qrmi_release_success=1'' @ [LF] @ ''qrmi_release_failed=0'' @ [LF]) @
        ''qrmi_release_elapsed_seconds='' @ show_int (sint el) @ [LF] @
        (if failed then ''qrmi_epilog_status=error'' else ''qrmi_epilog_status=success'') @ [LF]) \<and>
    file_data (files (publishSummary h failed el w)) (path_join [d, ''usage'']) =
      Some (content (files w) (path_join [d, ''usage'']) @
        ''qrmi_acquired_count=1'' @ [LF] @ ''qrmi_release_total=1'' @ [LF] @
        (if failed then ''qrmi_release_success=0'' @ [LF] @ ''qrmi_release_failed=1'' @ [LF]
         else ''qrmi_release_success=1'' @ [LF] @ ''qrmi_release_failed=0'' @ [LF]) @
        ''qrmi_release_elapsed_seconds='' @ show_int (sint el) @ [LF] @
        (if failed then ''qrmi_epilog_status_code=0'' else ''qrmi_epilog_status_code=1'') @ [LF]) \<and>
    logs (publishSummary h failed el w) = logs w"
  using publishSummary_quiet [OF assms(1), of w failed el] assms(2-5) by (simp add: metrics_text)

theorem publishSummary_accounts_witness:
  "file_data (files (publishSummary quiet_host True 2 epilog_world)) ''/n/active_jobs/5.1/usage'' =
     Some (''qrmi_acquired_count=1'' @ [LF] @ ''qrmi_release_total=1'' @ [LF] @ ''qrmi_release_success=0'' @ [LF] @
       ''qrmi_release_failed=1'' @ [LF] @ ''qrmi_release_elapsed_seconds=2'' @ [LF] @ ''qrmi_epilog_status_code=0'' @ [LF])"
proof -
  have p: "is_abs ''/n/active_jobs/5.1''" "getenv epilog_world ''SGE_JOB_SPOOL_DIR'' = ''/n/active_jobs/5.1''"
    "appendable (files epilog_world) (path_join [''/n/active_jobs/5.1'', ''environment''])"
    "appendable (files epilog_world) (path_join [''/n/active_jobs/5.1'', ''usage''])"
    "path_join [''/n/active_jobs/5.1'', ''usage''] = ''/n/active_jobs/5.1/usage''"
    "content (files epilog_world) ''/n/active_jobs/5.1/usage'' = []" "show_int (sint (2 :: i64)) = ''2''" by code_simp+
  from publishSummary_accounts [OF fault_free_quiet p(1-4), of True 2] p(5-7) show ?thesis by simp
qed

end
