(* ===== verification/Job_Life.thy ===== *)
theory Job_Life
  imports Prolog_Run Epilog
begin

text \<open>
  The two hooks of one job together: what the prolog leaves is what the epilog acts on. The hooks
  are two processes, so the epilog has its own library, process environment and faults; they
  share the files of the spool directory.
\<close>

subsection \<open>One job\<close>

lemma meta_record_unique:
  assumes "file_data f p = Some (record_line rec)" "writable_record rec" "meta_record f p = Some rec'"
  shows "rec' = rec"
proof -
  have "read_scanned parseRecordLine (record_line rec) None = Inr rec'"
    using assms(1,3) by (auto simp: meta_record_def split: sum.splits)
  then obtain l where l: "content_lines (record_line rec) = [l]" "parseRecordLine l = Inr rec'"
    by (rule read_scanned_Inr)
  have "content_lines (record_line rec) = [render_record rec]"
    using render_one_line [OF assms(2)] by (simp add: content_lines_def raw_lines_record [OF assms(2)])
  with l parse_render [OF assms(2)] show ?thesis by (auto split: if_splits)
qed

lemma resolved_meta:
  assumes "job_names es job" "getenv w ''SGE_JOB_SPOOL_DIR'' = abs_path (es @ [''active_jobs'', job])"
  shows "ResolveMetadataPath w = Inr (spool_meta es job)"
proof -
  have n: "\<forall>x \<in> set (es @ [''active_jobs'', job]). normal_elem x"
    using assms(1) by (auto simp: job_names_def list_all_iff)
  show ?thesis using path_join_abs [OF n normal_MetadataFilename] assms(2)
    by (simp add: ResolveMetadataPath_def Let_def spool_meta_def)
qed

lemma job_calls:
  assumes pro: "runWithConfig b h jo cfg w = (None, w1)"
      "\<not> isl (fst (readGranted h (ResourceName cfg) (QstatPath cfg) w))"
    and spool: "job_names es job" "getenv w ''SGE_JOB_SPOOL_DIR'' = abs_path (es @ [''active_jobs'', job])"
      "getenv w1 ''SGE_JOB_SPOOL_DIR'' = abs_path (es @ [''active_jobs'', job])"
  shows "\<exists>r rec. unreleased [] (drop (length (qlog w)) (qlog w1)) = [(r, rec_token rec)] \<and>
    writable_record rec \<and> 0 \<le> sint (rec_type rec) \<and> (\<exists>e. came_from b (Some e) (rec_type rec) (rec_token rec)) \<and>
    rec_epoch rec = now h \<and> (\<exists>g. fst (readGranted h (ResourceName cfg) (QstatPath cfg) w) = Inr g \<and>
      ParseGrantedBackend g = Inr (rec_name rec)) \<and>
    file_data (files w1) (spool_meta es job) = Some (record_line rec)"
proof -
  have abs: "is_abs (getenv w ''SGE_JOB_SPOOL_DIR'')" "is_abs (getenv w1 ''SGE_JOB_SPOOL_DIR'')"
    using spool by (simp_all add: is_abs_abs_path)
  from runWithConfig_success [OF pro(1) abs pro(2)] obtain be c e n t ty ty' where
    q: "qlog w1 = qlog w @ [QConfigLoad c, QDefGet e] @ acquire_calls be ty' n t @ [QDefFree e, QConfigFree c]"
    and m: "meta_of w1 \<lparr>rec_name = be, rec_type = ty, rec_token = t, rec_epoch = now h\<rparr>"
      "came_from b (Some e) ty t" "\<exists>g. fst (readGranted h (ResourceName cfg) (QstatPath cfg) w) = Inr g \<and>
      ParseGrantedBackend g = Inr be" by blast
  have "unreleased [] (drop (length (qlog w)) (qlog w1)) = [(n, t)]" by (simp add: q acquire_calls_def)
  then show ?thesis using m resolved_meta [OF spool(1,3)]
    by (intro exI [of _ n] exI [of _ "\<lparr>rec_name = be, rec_type = ty, rec_token = t, rec_epoch = now h\<rparr>"])
      (auto simp: meta_of_def)
qed

text \<open>
  C1. The whole life of a job. When the prolog has acquired a token and succeeded, and the epilog
  starts in the same spool directory with the metadata file as the prolog left it, and that file
  can be read back, then the epilog, on a host without faults, exits with 0, asks for the release
  of no other token than the one the prolog holds, and either the library confirms that
  release or the record of the token stays on the disk, in the spool or among the failed
  releases, in every state the file system goes through.
\<close>

theorem token_of_a_job:
  assumes "runWithConfig b h jo cfg w = (None, w1)" "\<not> isl (fst (readGranted h (ResourceName cfg) (QstatPath cfg) w))"
    and "job_names es job" "getenv w ''SGE_JOB_SPOOL_DIR'' = abs_path (es @ [''active_jobs'', job])"
    and "getenv w1 ''SGE_JOB_SPOOL_DIR'' = abs_path (es @ [''active_jobs'', job])"
    and "getenv w2 ''SGE_JOB_SPOOL_DIR'' = abs_path (es @ [''active_jobs'', job])"
    and "files w2 (spool_meta es job) = files w1 (spool_meta es job)"
    and "meta_record (files w1) (spool_meta es job) \<noteq> None"
    and "Epilog.run b' h' cfg' w2 = (c, w3)" "fault_free h'"
  shows "\<exists>r t evs. unreleased [] (drop (length (qlog w)) (qlog w1)) = [(r, t)] \<and> c = 0 \<and>
    qlog w3 = qlog w2 @ evs \<and> (\<forall>r' t' ok. QRelease r' t' ok \<in> set evs \<longrightarrow> t' = t) \<and>
    ((\<exists>r'. QRelease r' t True \<in> set evs) \<or>
     keeps {spool_meta es job, kept_path es job} (files w1 (spool_meta es job)) w2 w3)"
proof -
  obtain r rec e where p: "unreleased [] (drop (length (qlog w)) (qlog w1)) = [(r, rec_token rec)]"
    "writable_record rec" "came_from b (Some e) (rec_type rec) (rec_token rec)"
    "file_data (files w1) (spool_meta es job) = Some (record_line rec)"
    using job_calls [OF assms(1-5)] by blast
  have ct: "c_string (rec_token rec) = rec_token rec" using p(3) Acquire_Inr unfolding came_from_def by blast
  have d: "file_data (files w2) (spool_meta es job) = file_data (files w1) (spool_meta es job)"
    using assms(7) by (simp add: file_data_def)
  then have m: "meta_record (files w2) (spool_meta es job) \<noteq> None" using assms(8) by (simp add: meta_record_def)
  then have u: "meta_record (files w2) (spool_meta es job) = Some rec"
    using meta_record_unique [of "files w2" "spool_meta es job" rec] p(2,4) d by auto
  have "c = 0" using run_exit [OF assms(3,6,10), of b' cfg'] assms(9) m by simp
  moreover obtain evs where ev: "qlog w3 = qlog w2 @ evs"
    "\<forall>r t ok. QRelease r t ok \<in> set evs \<longrightarrow> t = rec_token rec"
    "(\<exists>r t. QRelease r t True \<in> set evs) \<or>
     keeps {spool_meta es job, kept_path es job} (files w1 (spool_meta es job)) w2 w3"
    using run_calls [OF assms(3,6,9)] u ct assms(7) by auto
  moreover have "(\<exists>r'. QRelease r' (rec_token rec) True \<in> set evs) \<or>
     keeps {spool_meta es job, kept_path es job} (files w1 (spool_meta es job)) w2 w3"
    using ev(2,3) by blast
  ultimately show ?thesis using p(1) by blast
qed

definition next_world :: "'q world \<Rightarrow> unit world" where
  "next_world w = fresh_world [''SGE_JOB_SPOOL_DIR'' \<mapsto> ''/n/active_jobs/5.1''] (files w) ()"

lemma sample_came_from:
  "came_from (Real sample_api) (Some e) ty t \<Longrightarrow> ty = 3 \<and> t = ''tok-1''"
  by (auto simp: came_from_def Def_Type_def Acquire_def sample_api_def c_string_def Let_def)

lemma sge_spool: "getenv sge_world ''SGE_JOB_SPOOL_DIR'' = abs_path ([''n''] @ [''active_jobs'', ''5.1''])"
  "''/n/active_jobs/5.1'' = abs_path ([''n''] @ [''active_jobs'', ''5.1''])"
  by code_simp+

text \<open>The record the sample run of the prolog leaves.\<close>

definition given_record :: acq_record where
  "given_record = \<lparr>rec_name = ''EMU_FREE'', rec_type = 3, rec_token = ''tok-1'', rec_epoch = 1700000000\<rparr>"

lemma sample_given:
  assumes run: "runWithConfig (Real sample_api) sge_host ''alice'' sge_config sge_world = (None, w1)"
    and dir: "getenv w1 ''SGE_JOB_SPOOL_DIR'' = abs_path ([''n''] @ [''active_jobs'', ''5.1''])"
  shows "meta_record (files w1) (spool_meta [''n''] ''5.1'') = Some given_record"
proof -
  have asked: "\<not> isl (fst (readGranted sge_host (ResourceName sge_config) (QstatPath sge_config) sge_world))"
    by (simp add: sge_granted)
  obtain rec e g where p: "came_from (Real sample_api) (Some e) (rec_type rec) (rec_token rec)"
    "rec_epoch rec = now sge_host" "fst (readGranted sge_host (ResourceName sge_config) (QstatPath sge_config) sge_world) = Inr g"
    "ParseGrantedBackend g = Inr (rec_name rec)" "file_data (files w1) (spool_meta [''n''] ''5.1'') = Some (record_line rec)"
    using job_calls [OF run asked epilog_sample(1) sge_spool(1) dir] by blast
  have "ParseGrantedBackend ''EMU_FREE'' = Inr ''EMU_FREE''" by code_simp
  then have "rec = given_record"
    using p(2-4) sample_came_from [OF p(1)] sge_granted
    by (cases rec) (simp add: sge_host_def quiet_host_def given_record_def)
  moreover have "read_scanned parseRecordLine (record_line given_record) None = Inr given_record" by code_simp
  ultimately show ?thesis using p(5) by (simp add: meta_record_def)
qed

theorem token_of_a_job_witness:
  "\<exists>w1. runWithConfig (Real sample_api) sge_host ''alice'' sge_config sge_world = (None, w1) \<and>
     fst (Epilog.run Stub quiet_host epilog_config (next_world w1)) = 0 \<and>
     (\<exists>r. unreleased [] (qlog w1) = [r])"
proof -
  obtain w1 where w1: "runWithConfig (Real sample_api) sge_host ''alice'' sge_config sge_world = (None, w1)"
    "getenv w1 ''SGE_JOB_SPOOL_DIR'' = ''/n/active_jobs/5.1''" using sge_live by blast
  have asked: "\<not> isl (fst (readGranted sge_host (ResourceName sge_config) (QstatPath sge_config) sge_world))"
    by (simp add: sge_granted)
  note s1 = w1(2) [unfolded sge_spool(2)]
  have m: "meta_record (files w1) (spool_meta [''n''] ''5.1'') \<noteq> None" using sample_given [OF w1(1) s1] by simp
  have n: "getenv (next_world w1) ''SGE_JOB_SPOOL_DIR'' = abs_path ([''n''] @ [''active_jobs'', ''5.1''])"
    "files (next_world w1) (spool_meta [''n''] ''5.1'') = files w1 (spool_meta [''n''] ''5.1'')"
    by (simp_all add: next_world_def fresh_world_def getenv_def sge_spool(2))
  from token_of_a_job [OF w1(1) asked epilog_sample(1) sge_spool(1) s1 n m
      prod.collapse [symmetric, of "Epilog.run Stub quiet_host epilog_config (next_world w1)"] fault_free_quiet]
  show ?thesis using w1(1) sge_world_start(1) by auto
qed

end
