(* ===== verification/Epilog_Run.thy ===== *)
theory Epilog_Run
  imports Job_Life
begin

text \<open>
  The epilog on a host without faults, with a library that opens its handles and confirms the
  release: the token goes back, the metadata is removed, nothing is kept for the administrator.
  And the whole life of a job whose two hooks both find such a host.
\<close>

subsection \<open>The environment of the release\<close>

lemma setenv_live:
  "setenv_ok k v \<Longrightarrow> nul_free (penv w) \<Longrightarrow> \<exists>w'. setenv k v w = (None, w') \<and> nul_free (penv w')"
  by (auto simp: setenv_def setenv_ok_def nul_free_def)

lemma setenv_pairs_live:
  "list_all (\<lambda>p. setenv_ok (fst p) (snd p)) kvs \<Longrightarrow> nul_free (penv w) \<Longrightarrow>
   \<exists>w'. setenv_pairs kvs w = (None, w') \<and> nul_free (penv w')"
proof (induction kvs arbitrary: w)
  case (Cons a kvs)
  obtain k v where a: "a = (k, v)" by fastforce
  obtain w1 where 1: "setenv k v w = (None, w1)" "nul_free (penv w1)"
    using setenv_live [OF _ Cons.prems(2), of k v] Cons.prems(1) a by auto
  with Cons.IH [OF _ 1(2)] Cons.prems(1) show ?case by (simp add: a)
qed simp

text \<open>The keys the library names for a backend can be the ends of variable names.\<close>

definition plain_keys :: "EnvVar list \<Rightarrow> bool" where
  "plain_keys vs = list_all (\<lambda>e. CHR ''='' \<notin> set (Key e)) vs"

lemma Def_Environments_no_NUL:
  "e \<in> set (Def_Environments b d w) \<Longrightarrow> NUL \<notin> set (Key e) \<and> NUL \<notin> set (Value e)"
  by (auto simp: Def_Environments_def split: build.splits option.splits)

lemma release_job_id_no_NUL: "nul_free (penv w) \<Longrightarrow> NUL \<notin> set (release_job_id w)"
  using getenv_no_NUL [of w] by (simp add: release_job_id_def Let_def)

lemma release_pairs_ok:
  assumes "nul_free (penv w)" "good_backend (rec_name rec)" "NUL \<notin> set (rec_token rec)"
    and "plain_keys (Def_Environments b d v)"
  shows "list_all (\<lambda>p. setenv_ok (fst p) (snd p)) (release_pairs u (release_job_id w) rec (Def_Environments b d v))"
  using assms Def_Environments_no_NUL [of _ b d v] release_job_id_no_NUL [of w]
  by (auto simp: release_pairs_def setenv_ok_def good_backend_def plain_keys_def list_all_iff)

subsection \<open>The release\<close>

text \<open>A library that knows the backend of a record and takes its token back.\<close>

definition takes_back :: "'q capi \<Rightarrow> acq_record \<Rightarrow> bool" where
  "takes_back api rec =
     ((\<forall>e p q. fst (c_config_load api e p q) \<noteq> None) \<and>
      (\<forall>c q. fst (c_def_get api c (c_string (rec_name rec)) q) \<noteq> None) \<and>
      (\<forall>e k q. fst (c_resource_new api e (c_string (rec_name rec)) k q) \<noteq> None) \<and>
      (\<forall>e r q. fst (c_release api e r (c_string (rec_token rec)) q)) \<and>
      (\<forall>d w. plain_keys (Def_Environments (Real api) (Some d) w)))"

lemma takes_back_calls:
  assumes "takes_back api rec"
  shows "\<exists>c w'. LoadConfig (Real api) p w = (Inr (Some c), w')"
    "\<exists>d w'. Config_ResourceDef (Real api) (Some c) (rec_name rec) w = (Inr (Some d), w')"
    "\<exists>r w'. NewResource (Real api) (rec_name rec) k w = (Inr (Some r), w')"
    "\<exists>w'. Release (Real api) (Some r) (rec_token rec) w = (None, w')"
proof -
  have g: "\<And>e p q. \<exists>n q'. c_config_load api e p q = (Some n, q')"
    "\<And>c q. \<exists>n q'. c_def_get api c (c_string (rec_name rec)) q = (Some n, q')"
    "\<And>e k q. \<exists>n q'. c_resource_new api e (c_string (rec_name rec)) k q = (Some n, q')"
    using assms unfolding takes_back_def by (metis not_None_eq prod.collapse)+
  have r: "\<And>e r q. \<exists>q'. c_release api e r (c_string (rec_token rec)) q = (True, q')"
    using assms unfolding takes_back_def by (metis prod.collapse)
  show "\<exists>c w'. LoadConfig (Real api) p w = (Inr (Some c), w')"
    using g(1) [of "penv w" "c_string p" "lib w"] by (auto simp: LoadConfig_def Let_def)
  show "\<exists>d w'. Config_ResourceDef (Real api) (Some c) (rec_name rec) w = (Inr (Some d), w')"
    using g(2) [of c "lib w"] by (auto simp: Config_ResourceDef_def Let_def)
  show "\<exists>r w'. NewResource (Real api) (rec_name rec) k w = (Inr (Some r), w')"
    using g(3) [of "penv w" "ucast k" "lib w"] by (auto simp: NewResource_def Let_def)
  show "\<exists>w'. Release (Real api) (Some r) (rec_token rec) w = (None, w')"
    using r [of "penv w" r "lib w"] by (auto simp: Release_def Let_def)
qed

text \<open>The calls of a release that succeeds, in their order.\<close>

definition release_calls :: "acq_record \<Rightarrow> nat \<Rightarrow> nat \<Rightarrow> nat \<Rightarrow> qevent list" where
  "release_calls rec c d r =
     [QConfigLoad c, QDefGet d, QDefFree d, QConfigFree c,
      QResourceNew r (c_string (rec_name rec)) (ucast (rec_type rec)),
      QRelease r (c_string (rec_token rec)) True, QResourceFree r]"

lemma setReleaseEnv_live:
  assumes rec: "takes_back api rec" "good_backend (rec_name rec)" "NUL \<notin> set (rec_token rec)"
    and host: "release_uid h (JobOwner cfg) = Inr u" "nul_free (penv w)"
  shows "\<exists>c d w'. setReleaseEnv (Real api) h cfg rec w = (None, w') \<and>
    proc_step [QConfigLoad c, QDefGet d, QDefFree d, QConfigFree c] w w'"
proof -
  let ?b = "Real api"
  obtain c w1 where 1: "LoadConfig ?b (ConfigPath cfg) w = (Inr (Some c), w1)" using takes_back_calls(1) [OF rec(1)] by blast
  have l1: "lib_call [QConfigLoad c] w w1" using LoadConfig_Inr [OF 1] by blast
  obtain d w2 where 2: "Config_ResourceDef ?b (Some c) (rec_name rec) w1 = (Inr (Some d), w2)"
    using takes_back_calls(2) [OF rec(1)] by blast
  have l2: "lib_call [QDefGet d] w1 w2" using ResourceDef_Inr [OF 2] by blast
  let ?env = "Def_Environments ?b (Some d) w2"
  have "nul_free (penv w2)" using host(2) lib_call_penv [OF l1] lib_call_penv [OF l2] by simp
  moreover have "plain_keys ?env" using rec(1) unfolding takes_back_def by blast
  ultimately obtain w3 where 3: "setenv_pairs (release_pairs u (release_job_id w2) rec ?env) w2 = (None, w3)"
    using setenv_pairs_live [OF release_pairs_ok [OF _ rec(2,3)]] by blast
  let ?w' = "Config_Close ?b (Some c) (Def_Close ?b (Some d) w3)"
  have "setReleaseEnv ?b h cfg rec w = (None, ?w')" using 1 2 3 host(1) by (simp add: setReleaseEnv_def)
  moreover have "proc_step ([QConfigLoad c] @ [QDefGet d] @ [] @ [QDefFree d] @ [QConfigFree c]) w ?w'"
    by (rule proc_step_trans [OF lib_call_proc [OF l1] proc_step_trans [OF lib_call_proc [OF l2] proc_step_trans
          [OF setenv_pairs_proc [OF 3] proc_step_trans [OF lib_call_proc [OF Def_Close_call] lib_call_proc [OF Config_Close_call]]]]])
  ultimately show ?thesis by auto
qed

lemma releaseRecord_live:
  assumes rec: "takes_back api rec" "good_backend (rec_name rec)" "NUL \<notin> set (rec_token rec)"
    and host: "release_uid h (JobOwner cfg) = Inr u" "nul_free (penv w)"
  shows "\<exists>c d r w'. releaseRecord (Real api) h cfg rec w = (None, w') \<and> proc_step (release_calls rec c d r) w w'"
proof -
  let ?b = "Real api"
  obtain c d w1 where 1: "setReleaseEnv ?b h cfg rec w = (None, w1)"
    "proc_step [QConfigLoad c, QDefGet d, QDefFree d, QConfigFree c] w w1"
    using setReleaseEnv_live [OF assms] by blast
  obtain r w2 where 2: "NewResource ?b (rec_name rec) (rec_type rec) w1 = (Inr (Some r), w2)"
    using takes_back_calls(3) [OF rec(1)] by blast
  then have l2: "lib_call [QResourceNew r (c_string (rec_name rec)) (ucast (rec_type rec))] w1 w2"
    using NewResource_Inr [OF 2] by blast
  obtain w3 where 3: "Release ?b (Some r) (rec_token rec) w2 = (None, w3)" using takes_back_calls(4) [OF rec(1)] by blast
  then have l3: "lib_call [QRelease r (c_string (rec_token rec)) True] w2 w3" using Release_call [OF 3] by simp
  let ?w' = "Resource_Close ?b (Some r) w3"
  have "releaseRecord ?b h cfg rec w = (None, ?w')" using 1(1) 2 3 by (simp add: releaseRecord_def)
  moreover have "proc_step (release_calls rec c d r) w ?w'"
    using proc_step_trans [OF 1(2) proc_step_trans [OF lib_call_proc [OF l2] proc_step_trans [OF lib_call_proc [OF l3]
      lib_call_proc [OF Resource_Close_call]]]] by (simp add: release_calls_def)
  ultimately show ?thesis by blast
qed

subsection \<open>The metadata after the release\<close>

lemma finish_removes:
  assumes "job_names es job" "fault_free h" "file_data (files w) (spool_meta es job) \<noteq> None"
  shows "files (finish h (spool_meta es job) False w) (spool_meta es job) = None \<and>
    files (finish h (spool_meta es job) False w) (kept_path es job) = files w (kept_path es job)"
proof -
  let ?m = "spool_meta es job"
  let ?v = "settle_metadata h ?m False w"
  have "files w ?m \<noteq> None" "\<not> is_dir (files w) ?m"
    using assms(3) file_data_not_dir by (auto simp: file_data_def split: option.splits)
  then have v: "files ?v = (files w)(?m := None)"
    using assms(2) by (auto simp: settle_metadata_def sys_remove_def)
  have "files (publishSummary h False (spent h) ?v) q = files ?v q" if "q \<in> {?m, kept_path es job}" for q
    using files_at_files [OF publishSummary_files_at] spool_files_apart [OF assms(1), of ?v] that by blast
  then show ?thesis using v kept_ne [OF assms(1)]
    by (auto simp: finish_def logSummary_def log_info_def log_write_def)
qed

lemma nul_free_started: "nul_free (penv w) \<Longrightarrow> nul_free (penv (started b cfg w))"
  by (auto simp: started_def start_env_def SetLogCallback_def setenv_def setenv_ok_def nul_free_def
      split: build.split prod.split)

lemma run_gives_back:
  assumes spool: "job_names es job" "getenv w ''SGE_JOB_SPOOL_DIR'' = abs_path (es @ [''active_jobs'', job])"
    and host: "fault_free h" "release_uid h (JobOwner cfg) = Inr u" "nul_free (penv w)"
    and rec: "meta_record (files w) (spool_meta es job) = Some rec" "takes_back api rec"
      "good_backend (rec_name rec)" "NUL \<notin> set (rec_token rec)"
  shows "\<exists>w' c d r. run (Real api) h cfg w = (0, w') \<and> qlog w' = qlog w @ release_calls rec c d r \<and>
    files w' (spool_meta es job) = None \<and> files w' (kept_path es job) = files w (kept_path es job)"
proof -
  let ?m = "spool_meta es job" and ?v = "started (Real api) cfg w"
  obtain x w1 where 1: "ReadStrictSingle h ?m ?v = (x, w1)" by fastforce
  obtain dt where dt: "file_data (files w) ?m = Some dt" "read_scanned parseRecordLine dt None = Inr rec"
    using rec(1) by (auto simp: meta_record_def split: option.splits sum.splits)
  then have x: "x = Inr rec" using ReadStrictSingle_quiet [OF host(1), of ?v ?m dt] 1 by (simp add: started_same)
  have o: "only_at {} ?v w1" using ReadStrictSingle_only_at [of ?v h ?m] 1 by simp
  have f1: "files w1 = files w" using only_at_files [OF o] by (auto simp: started_same)
  have "penv w1 = penv ?v" "qlog w1 = qlog w" using only_at_proc [OF o] by (simp_all add: same_proc_def started_same)
  then have n1: "nul_free (penv w1)" "qlog w1 = qlog w" using nul_free_started [OF host(3)] by simp_all
  obtain c d r w2 where 2: "releaseRecord (Real api) h cfg rec w1 = (None, w2)" "proc_step (release_calls rec c d r) w1 w2"
    using releaseRecord_live [OF rec(2-4) host(2) n1(1)] by blast
  have f2: "files w2 = files w" "qlog w2 = qlog w @ release_calls rec c d r"
    using proc_step_effect [OF 2(2)] effect_qlog f1 n1(2) by fastforce+
  have "run (Real api) h cfg w = (0, finish h ?m False w2)"
    using 1 x 2(1) by (simp add: run_eq [OF spool])
  moreover have "qlog (finish h ?m False w2) = qlog w @ release_calls rec c d r"
    by (simp add: finish_qlog [OF spool(1)] f2(2))
  ultimately show ?thesis using finish_removes [OF spool(1) host(1), of w2] f2(1) dt(1) by auto
qed

subsection \<open>Properties\<close>

text \<open>
  C9. The epilog gives the token back: on a host without faults, when the metadata file holds a
  record, the job's owner is known and the library opens its handles and confirms the release,
  the epilog exits with 0; its calls into the library are the seven of a release, in one fixed
  order, with the recorded token; the metadata file is gone from the spool and no copy is kept.
\<close>

theorem epilog_gives_back:
  assumes "job_names es job" "getenv w ''SGE_JOB_SPOOL_DIR'' = abs_path (es @ [''active_jobs'', job])"
    and "fault_free h" "release_uid h (JobOwner cfg) = Inr u" "nul_free (penv w)"
    and "meta_record (files w) (spool_meta es job) = Some rec" "takes_back api rec"
    and "good_backend (rec_name rec)" "NUL \<notin> set (rec_token rec)"
    and "run (Real api) h cfg w = (c, w')"
  shows "c = 0 \<and> (\<exists>k d r. qlog w' = qlog w @ release_calls rec k d r) \<and>
    files w' (spool_meta es job) = None \<and> files w' (kept_path es job) = files w (kept_path es job)"
  using run_gives_back [OF assms(1-9)] assms(10) by auto

lemma sample_takes_back: "takes_back sample_api rec \<longleftrightarrow> c_string (rec_name rec) = ''EMU_FREE''"
  by (auto simp: takes_back_def sample_api_def plain_keys_def Def_Environments_def goStringOrEmpty_def c_string_def)

definition given_world :: "int world" where
  "given_world = fresh_world [''JOB_ID'' \<mapsto> ''5'', ''SGE_JOB_SPOOL_DIR'' \<mapsto> ''/n/active_jobs/5.1'']
     [''/n/active_jobs/5.1'' \<mapsto> \<lparr>fkind = Dir, fmode = 493\<rparr>,
      ''/n/active_jobs/5.1/qrmi_ocs_acquired.tsv'' \<mapsto> \<lparr>fkind = Reg (record_line given_record), fmode = 384\<rparr>] 1"

lemma given_sample:
  "getenv given_world ''SGE_JOB_SPOOL_DIR'' = abs_path ([''n''] @ [''active_jobs'', ''5.1''])"
  "release_uid quiet_host (JobOwner epilog_config) = Inr 1000"
  "nul_free (penv given_world)"
  "meta_record (files given_world) (spool_meta [''n''] ''5.1'') = Some given_record"
  "takes_back sample_api given_record" "good_backend (rec_name given_record)" "NUL \<notin> set (rec_token given_record)"
proof -
  show "nul_free (penv given_world)" by (simp add: nul_free_def given_world_def fresh_world_def)
  have "c_string (rec_name given_record) = ''EMU_FREE''" by code_simp
  then show "takes_back sample_api given_record" by (simp add: sample_takes_back)
qed code_simp+

theorem epilog_gives_back_witness:
  "fst (run (Real sample_api) quiet_host epilog_config given_world) = 0 \<and>
   files (snd (run (Real sample_api) quiet_host epilog_config given_world)) (spool_meta [''n''] ''5.1'') = None"
  using epilog_gives_back [OF epilog_sample(1) given_sample(1) fault_free_quiet given_sample(2-7) prod.collapse [symmetric]]
  by blast

text \<open>A run in which the epilog does ask for a release.\<close>

theorem epilog_releases_recorded_witness:
  "\<exists>r rec. QRelease r ''tok-1'' True \<in> set (qlog (snd (run (Real sample_api) quiet_host epilog_config given_world))) \<and>
     brackets [] (qlog (snd (run (Real sample_api) quiet_host epilog_config given_world))) \<and>
     meta_record (files given_world) (spool_meta [''n''] ''5.1'') = Some rec \<and> c_string (rec_token rec) = ''tok-1''"
proof -
  let ?r = "run (Real sample_api) quiet_host epilog_config given_world"
  have q: "qlog given_world = []" by (simp add: given_world_def fresh_world_def)
  have "c_string (rec_token given_record) = ''tok-1''" by code_simp
  then obtain r where r: "QRelease r ''tok-1'' True \<in> set (qlog (snd ?r))"
    using run_gives_back [OF epilog_sample(1) given_sample(1) fault_free_quiet given_sample(2-7)] q
    by (auto simp: release_calls_def)
  from epilog_releases_recorded [OF epilog_sample(1) given_sample(1) prod.collapse [symmetric, of ?r]]
  obtain evs where evs: "qlog (snd ?r) = evs" "brackets [] evs"
    "\<forall>r t ok. QRelease r t ok \<in> set evs \<longrightarrow>
      (\<exists>rec. meta_record (files given_world) (spool_meta [''n''] ''5.1'') = Some rec \<and> t = c_string (rec_token rec))"
    unfolding q by auto
  then show ?thesis using r by metis
qed

text \<open>
  C8. The good end of a job: when the prolog has acquired a token and succeeded, and the epilog
  starts on a host without faults with the metadata file as the prolog left it, and that file
  can be read back, the owner is known and the library takes the token back, then the token that
  the prolog holds is the one that the epilog gives back, by the seven calls of a release and no
  other; the epilog exits with 0, the metadata file is gone, and nothing is kept for the
  administrator.
\<close>

theorem job_gives_back:
  assumes "runWithConfig b h jo cfg w = (None, w1)" "\<not> isl (fst (readGranted h (ResourceName cfg) (QstatPath cfg) w))"
    and "job_names es job" "getenv w ''SGE_JOB_SPOOL_DIR'' = abs_path (es @ [''active_jobs'', job])"
    and "getenv w1 ''SGE_JOB_SPOOL_DIR'' = abs_path (es @ [''active_jobs'', job])"
    and "getenv w2 ''SGE_JOB_SPOOL_DIR'' = abs_path (es @ [''active_jobs'', job])"
    and "files w2 (spool_meta es job) = files w1 (spool_meta es job)"
    and "meta_record (files w1) (spool_meta es job) = Some rec"
    and "fault_free h'" "release_uid h' (JobOwner cfg') = Inr u" "nul_free (penv w2)"
    and "takes_back api rec" "good_backend (rec_name rec)"
    and "Epilog.run (Real api) h' cfg' w2 = (c, w3)"
  shows "\<exists>r k d r'. unreleased [] (drop (length (qlog w)) (qlog w1)) = [(r, rec_token rec)] \<and> c = 0 \<and>
    qlog w3 = qlog w2 @ release_calls rec k d r' \<and> c_string (rec_token rec) = rec_token rec \<and>
    files w3 (spool_meta es job) = None \<and> files w3 (kept_path es job) = files w2 (kept_path es job)"
proof -
  obtain r rec' e where p: "unreleased [] (drop (length (qlog w)) (qlog w1)) = [(r, rec_token rec')]"
    "writable_record rec'" "came_from b (Some e) (rec_type rec') (rec_token rec')"
    "file_data (files w1) (spool_meta es job) = Some (record_line rec')"
    using job_calls [OF assms(1-5)] by blast
  have rec: "rec' = rec" using meta_record_unique [OF p(4,2) assms(8)] by simp
  have ct: "c_string (rec_token rec) = rec_token rec"
    using p(3) Acquire_Inr unfolding came_from_def rec by blast
  then have "NUL \<notin> set (rec_token rec)" using c_string_no_NUL [of "rec_token rec"] by simp
  moreover have "meta_record (files w2) (spool_meta es job) = Some rec"
    using assms(7,8) by (simp add: meta_record_def file_data_def)
  ultimately show ?thesis
    using run_gives_back [OF assms(3,6,9-11) _ assms(12,13)] assms(14) p(1) ct rec by auto
qed

definition next_given :: "'q world \<Rightarrow> int world" where
  "next_given w = fresh_world [''JOB_ID'' \<mapsto> ''5'', ''SGE_JOB_SPOOL_DIR'' \<mapsto> ''/n/active_jobs/5.1''] (files w) 1"

theorem job_gives_back_witness:
  "\<exists>w1 r. runWithConfig (Real sample_api) sge_host ''alice'' sge_config sge_world = (None, w1) \<and>
     unreleased [] (qlog w1) = [(r, ''tok-1'')] \<and>
     fst (Epilog.run (Real sample_api) quiet_host epilog_config (next_given w1)) = 0 \<and>
     files (snd (Epilog.run (Real sample_api) quiet_host epilog_config (next_given w1))) (spool_meta [''n''] ''5.1'') = None"
proof -
  obtain w1 where w1: "runWithConfig (Real sample_api) sge_host ''alice'' sge_config sge_world = (None, w1)"
    "getenv w1 ''SGE_JOB_SPOOL_DIR'' = ''/n/active_jobs/5.1''" using sge_live by blast
  note s1 = w1(2) [unfolded sge_spool(2)]
  have asked: "\<not> isl (fst (readGranted sge_host (ResourceName sge_config) (QstatPath sge_config) sge_world))"
    by (simp add: sge_granted)
  have n: "getenv (next_given w1) ''SGE_JOB_SPOOL_DIR'' = abs_path ([''n''] @ [''active_jobs'', ''5.1''])"
    "files (next_given w1) (spool_meta [''n''] ''5.1'') = files w1 (spool_meta [''n''] ''5.1'')"
    by (simp_all add: next_given_def fresh_world_def getenv_def sge_spool(2))
  have nf: "nul_free (penv (next_given w1))" by (simp add: next_given_def fresh_world_def nul_free_def)
  have tok: "rec_token given_record = ''tok-1''" by (simp add: given_record_def)
  from job_gives_back [OF w1(1) asked epilog_sample(1) sge_spool(1) s1 n(1,2) sample_given [OF w1(1) s1]
      fault_free_quiet given_sample(2) nf given_sample(5,6) prod.collapse [symmetric]]
  show ?thesis using w1(1) sge_world_start(1) tok by auto
qed

end
