(* ===== verification/Env_Typed.thy ===== *)
theory Env_Typed
  imports Job_Life
begin

text \<open>
  What a process of the hooks is at any time: its environment is one that an \<open>environ\<close> block can
  hold (no name is empty or holds \<open>=\<close>, no name or value holds a zero byte), and outside a run no
  job environment file is open. Every operation keeps the first, every run both, whichever system
  calls and library calls fail; and the library is called only between opening and closing the file.
\<close>

definition typed_env :: "(string \<rightharpoonup> string) \<Rightarrow> bool" where
  "typed_env m = (\<forall>k v. m k = Some v \<longrightarrow> setenv_ok k v)"

definition proc_ok :: "'q world \<Rightarrow> bool" where
  "proc_ok w = (typed_env (penv w) \<and> (\<forall>je. jenv w = Some je \<longrightarrow> \<not> jopen je))"

lemma typed_empty [simp]: "typed_env Map.empty"
  by (simp add: typed_env_def)

lemma typed_upd: "typed_env m \<Longrightarrow> setenv_ok k v \<Longrightarrow> typed_env (m(k \<mapsto> v))"
  by (simp add: typed_env_def)

subsection \<open>The environment through every operation\<close>

text \<open>The steps that leave the environment alone.\<close>

lemma penv_log [simp]:
  "penv (log_info c m w) = penv w" "penv (log_warn c m w) = penv w" "penv (log_error c m w) = penv w"
  "jenv (log_info c m w) = jenv w" "jenv (log_warn c m w) = jenv w" "jenv (log_error c m w) = jenv w"
  by (simp_all add: log_info_def log_warn_def log_error_def log_write_def)

lemma penv_lib:
  "penv (in_lib api q w) = penv w" "penv (event e w) = penv w" "penv (SetLogCallback b c w) = penv w"
  "jenv (in_lib api q w) = jenv w" "jenv (event e w) = jenv w" "jenv (SetLogCallback b c w) = jenv w"
  using lib_call_penv [OF in_lib_call [of w api q]] lib_call_penv [OF SetLogCallback_call [of w b c]]
  by (simp_all add: event_def)

lemma penv_calls [simp]:
  "penv (snd (LoadConfig b p w)) = penv w" "penv (Config_Close b x w) = penv w"
  "penv (snd (Config_ResourceDef b x n w)) = penv w" "penv (Def_Close b x w) = penv w"
  "penv (snd (NewResource b n t w)) = penv w" "penv (Resource_Close b x w) = penv w"
  "penv (snd (IsAccessible b x w)) = penv w" "penv (snd (Acquire b x w)) = penv w"
  "penv (snd (Release b x token w)) = penv w"
  by (simp_all add: LoadConfig_def Config_Close_def Config_ResourceDef_def Def_Close_def NewResource_def
      Resource_Close_def IsAccessible_def Acquire_def Release_def penv_lib Let_def
      split: build.split option.split prod.split)

lemma penv_run:
  "LoadConfig b p w = (r1, v) \<Longrightarrow> penv v = penv w" "Config_ResourceDef b x n w = (r1, v) \<Longrightarrow> penv v = penv w"
  "NewResource b n t w = (r1, v) \<Longrightarrow> penv v = penv w" "IsAccessible b x w = (r2, v) \<Longrightarrow> penv v = penv w"
  "Acquire b x w = (r3, v) \<Longrightarrow> penv v = penv w" "Release b x token w = (r4, v) \<Longrightarrow> penv v = penv w"
  using penv_calls(1) [of b p w] penv_calls(3) [of b x n w] penv_calls(5) [of b n t w]
    penv_calls(7) [of b x w] penv_calls(8) [of b x w] penv_calls(9) [of b x token w] by simp_all

lemma penv_run_jenv:
  "LoadConfig b p w = (r1, v) \<Longrightarrow> jenv v = jenv w" "Config_ResourceDef b x n w = (r1, v) \<Longrightarrow> jenv v = jenv w"
  "NewResource b n t w = (r1, v) \<Longrightarrow> jenv v = jenv w" "IsAccessible b x w = (r2, v) \<Longrightarrow> jenv v = jenv w"
  "Acquire b x w = (r3, v) \<Longrightarrow> jenv v = jenv w" "Release b x token w = (r4, v) \<Longrightarrow> jenv v = jenv w"
  "jenv (Config_Close b x w) = jenv w" "jenv (Def_Close b x w) = jenv w" "jenv (Resource_Close b x w) = jenv w"
  by (auto simp: LoadConfig_def Config_Close_def Config_ResourceDef_def Def_Close_def NewResource_def
      Resource_Close_def IsAccessible_def Acquire_def Release_def penv_lib Let_def
      split: build.splits option.splits prod.splits if_splits)

lemma OpenJobEnv_penv: "OpenJobEnv h w = (r, v) \<Longrightarrow> penv v = penv w"
  using OpenJobEnv_ok [of h w v] OpenJobEnv_fails [of h w _ v] by (cases r) auto

text \<open>The steps that set variables.\<close>

lemma setenv_typed: "setenv k v w = (r, w') \<Longrightarrow> typed_env (penv w) \<Longrightarrow> typed_env (penv w')"
  by (auto simp: setenv_def typed_upd split: if_splits)

lemma Set_typed:
  assumes "Set h k v w = (r, w')" "typed_env (penv w)"
  shows "typed_env (penv w')"
proof -
  obtain e w1 where 1: "setenv k v w = (e, w1)" by fastforce
  have "penv w' = penv w1" using assms(1) 1
    by (auto simp: Set_def Let_def sys_write_def put_files_def count_sys_def split: option.splits if_splits)
  with setenv_typed [OF 1 assms(2)] show ?thesis by simp
qed

lemma set_pairs_typed: "set_pairs h kvs w = (r, w') \<Longrightarrow> typed_env (penv w) \<Longrightarrow> typed_env (penv w')"
  by (induction h kvs w rule: set_pairs.induct) (auto dest: Set_typed split: prod.splits option.splits)

lemma set_all_typed: "set_all env w = (r, w') \<Longrightarrow> typed_env (penv w) \<Longrightarrow> typed_env (penv w')"
  by (induction env w rule: set_all.induct) (auto dest: setenv_typed split: prod.splits option.splits)

lemma ResetProcessEnv_typed: "ResetProcessEnv h environ w = (r, w') \<Longrightarrow> typed_env (penv w) \<Longrightarrow> typed_env (penv w')"
  by (auto simp: ResetProcessEnv_def clearenv_def dest!: set_all_typed split: option.splits sum.splits)

lemma Preserve_same:
  assumes "PreserveFailedRelease h p w = (r, v)"
  shows "same_proc w v"
proof -
  have "same_proc u u'" if "sys_mkdir h q m u = (e, u')" for q m u e and u' :: "'a world"
    using sys_same_proc(10) [of u h q m] that by simp
  moreover have "same_proc u u'" if "sys_link h q q' u = (e, u')" for q q' u e and u' :: "'a world"
    using sys_same_proc(9) [of u h q q'] that by simp
  moreover have "same_proc u u'" if "sys_remove h q u = (e, u')" for q u e and u' :: "'a world"
    using sys_same_proc(7) [of u h q] that by simp
  ultimately show ?thesis using assms unfolding PreserveFailedRelease_def Let_def
    by (auto split: prod.splits option.splits if_splits; meson same_proc_trans)
qed

subsection \<open>The prolog\<close>

text \<open>\<open>hook_env p w\<close>: between opening the job environment file \<open>p\<close> and closing it.\<close>

definition hook_env :: "string \<Rightarrow> 'q world \<Rightarrow> bool" where
  "hook_env p w = (typed_env (penv w) \<and> (\<exists>je. jenv w = Some je \<and> jpath je = p))"

lemma hook_env_simps [simp]:
  "hook_env p (SetLogCallback b s w) = hook_env p w" "hook_env p (log_info c m w) = hook_env p w"
  "hook_env p (log_warn c m w) = hook_env p w" "hook_env p (log_error c m w) = hook_env p w"
  by (simp_all add: hook_env_def penv_lib)

text \<open>The calls of the library keep it.\<close>

lemma calls_hook:
  "LoadConfig b q w = (r1, v) \<Longrightarrow> hook_env p w \<Longrightarrow> hook_env p v"
  "Config_ResourceDef b x n w = (r2, v) \<Longrightarrow> hook_env p w \<Longrightarrow> hook_env p v"
  "NewResource b n t w = (r3, v) \<Longrightarrow> hook_env p w \<Longrightarrow> hook_env p v"
  "IsAccessible b x w = (r4, v) \<Longrightarrow> hook_env p w \<Longrightarrow> hook_env p v"
  "Acquire b x w = (r5, v) \<Longrightarrow> hook_env p w \<Longrightarrow> hook_env p v"
  "Release b x token w = (r6, v) \<Longrightarrow> hook_env p w \<Longrightarrow> hook_env p v"
  "hook_env p (Config_Close b x w) = hook_env p w" "hook_env p (Def_Close b x w) = hook_env p w"
  "hook_env p (Resource_Close b x w) = hook_env p w"
  by (auto simp: hook_env_def penv_run penv_run_jenv)

text \<open>The steps that set variables keep it.\<close>

lemma Set_hook: "Set h k v w = (r, w') \<Longrightarrow> hook_env p w \<Longrightarrow> hook_env p w'"
  using Set_frame [of h k v w r w'] Set_typed [of h k v w r w']
  by (auto simp: hook_env_def env_follows_def)

lemma set_pairs_hook: "set_pairs h kvs w = (r, w') \<Longrightarrow> hook_env p w \<Longrightarrow> hook_env p w'"
  using set_pairs_frame [of h kvs w r w'] set_pairs_typed [of h kvs w r w']
  by (auto simp: hook_env_def env_follows_def)

lemma SetPluginError_hook: "SetPluginError h m w = (r, w') \<Longrightarrow> hook_env p w \<Longrightarrow> hook_env p w'"
  by (auto simp: SetPluginError_def Let_def dest!: Set_hook split: prod.splits if_splits)

lemma reportError_hook: "reportError h e w = (r, w') \<Longrightarrow> hook_env p w \<Longrightarrow> hook_env p w'"
  by (auto simp: reportError_def dest!: SetPluginError_hook split: prod.splits option.splits)

lemma ApplyRustLog_hook: "ApplyRustLog h l w = (r, w') \<Longrightarrow> hook_env p w \<Longrightarrow> hook_env p w'"
  by (auto simp: ApplyRustLog_def dest: Set_hook split: prod.splits if_splits)

lemma hook_ran: "only_ran w v \<Longrightarrow> hook_env p w \<Longrightarrow> hook_env p v"
  by (simp add: hook_env_def only_ran_fields)

lemma exportSchedulerJobEnv_hook:
  assumes "exportSchedulerJobEnv h cfg jo w = (r, w')" "hook_env p w"
  shows "hook_env p w'"
proof -
  have "(only_ran w w' \<and> r \<noteq> None) \<or> (\<exists>kvs v. only_ran w v \<and> set_pairs h kvs v = (r, w'))"
    using exportSchedulerJobEnv_run [OF assms(1)] by blast
  then show ?thesis using assms(2) hook_ran set_pairs_hook by metis
qed

lemma after_acquire_hook:
  assumes "after_acquire b h be def r t w = (res, w')" "hook_env p w"
  shows "hook_env p w'"
proof -
  have rel: "hook_env p v'" if "release_and_report b h r t e v = (x, v')" "hook_env p v" for e v x v'
    using that(1) reportError_hook calls_hook(6) [OF prod.collapse [symmetric] that(2)]
    unfolding release_and_report_def by metis
  have wr: "hook_env p v'" if "WriteAtomic h q rs v = (x, v')" "hook_env p v" for q rs v x v'
    using WriteAtomic_proc [OF that(1)] that(2) by (simp add: hook_env_def same_proc_def)
  show ?thesis using assms unfolding after_acquire_def exportRuntimeEnv_def
    by (auto split: prod.splits option.splits sum.splits; meson rel wr set_pairs_hook Set_hook)
qed

lemma with_resource_hook:
  "with_resource b h be def r w = (res, w') \<Longrightarrow> hook_env p w \<Longrightarrow> hook_env p w'"
  by (auto simp: with_resource_def split: prod.splits sum.splits bool.splits;
      meson calls_hook(4,5) reportError_hook after_acquire_hook)

lemma with_def_hook:
  assumes "with_def b h cfg jo be def w = (res, w')" "hook_env p w"
  shows "hook_env p w'"
proof -
  have new: "hook_env p v'" if "NewResource b n k v = (x, v')" "hook_env p v" for n k v x v'
    using that by (rule calls_hook(3))
  show ?thesis using assms unfolding with_def_def exportBackendEnv_def
    by (auto simp: calls_hook(7-9) split: prod.splits option.splits sum.splits;
        meson new set_pairs_hook exportSchedulerJobEnv_hook reportError_hook with_resource_hook)
qed

lemma with_config_hook:
  assumes "with_config b h cfg jo be c w = (res, w')" "hook_env p w"
  shows "hook_env p w'"
proof -
  have def: "hook_env p v'" if "Config_ResourceDef b c n v = (x, v')" "hook_env p v" for n v x v'
    using that by (rule calls_hook(2))
  show ?thesis using assms unfolding with_config_def
    by (auto simp: calls_hook(7-9) split: prod.splits sum.splits; meson def reportError_hook with_def_hook)
qed

lemma with_job_env_hook:
  assumes "with_job_env b h cfg jo be w = (res, w')" "hook_env p w"
  shows "hook_env p w'"
proof -
  have load: "hook_env p v'" if "LoadConfig b q (SetLogCallback b s v) = (x, v')" "hook_env p v" for q s v x v'
    using calls_hook(1) [OF that(1)] that(2) by simp
  show ?thesis using assms unfolding with_job_env_def
    by (auto simp: calls_hook(7-9) split: prod.splits option.splits sum.splits;
        meson load ApplyRustLog_hook reportError_hook with_config_hook)
qed

lemma Close_closed: "jenv (snd (Close h w)) = Some je \<Longrightarrow> \<not> jopen je"
  by (auto simp: Close_def split: option.splits prod.splits if_splits)

text \<open>
  \<open>file_closed w w'\<close>: from \<open>w\<close> on, the library was called only while a job environment file was
  open, and it is closed in \<open>w'\<close>.
\<close>

definition file_closed :: "'q world \<Rightarrow> 'q world \<Rightarrow> bool" where
  "file_closed w w' = (qlog w' \<noteq> qlog w \<longrightarrow> (\<exists>d je. jenv w' = Some je \<and> \<not> jopen je \<and>
     jpath je = path_join [d, ''environment'']))"

lemma Close_hook:
  assumes "hook_env p w"
  shows "typed_env (penv (snd (Close h w)))" "\<exists>je. jenv (snd (Close h w)) = Some je \<and> \<not> jopen je \<and> jpath je = p"
proof -
  show "typed_env (penv (snd (Close h w)))" using assms Close_same [of h w] by (simp add: hook_env_def)
  obtain je where je: "jenv w = Some je" "jpath je = p" using assms by (auto simp: hook_env_def)
  show "\<exists>je. jenv (snd (Close h w)) = Some je \<and> \<not> jopen je \<and> jpath je = p"
    using je by (cases "sys_close h w") (auto simp: Close_def)
qed

lemma runWithConfig_proc_ok:
  assumes "runWithConfig b h jo cfg w = (res, w')" "proc_ok w"
  shows "proc_ok w' \<and> file_closed w w'"
proof -
  have same: "proc_ok v \<and> qlog v = qlog w" if "only_ran w v" for v
    using assms(2) only_ran_fields [OF that] by (simp add: proc_ok_def)
  obtain x w1 where 1: "readGranted h (ResourceName cfg) (QstatPath cfg) w = (x, w1)" by fastforce
  note r1 = readGranted_ran [OF 1]
  show ?thesis
  proof (cases "\<exists>g be. x = Inr g \<and> ParseGrantedBackend g = Inr be")
    case False
    then have "w' = w1 \<or> (\<exists>m. w' = log_info prolog_component m w1)"
      using assms(1) 1 by (auto simp: runWithConfig_def split: sum.splits if_splits)
    then show ?thesis using same [OF r1] by (auto simp: proc_ok_def file_closed_def)
  next
    case True
    then obtain g be where g: "x = Inr g" "ParseGrantedBackend g = Inr be" by blast
    obtain y w2 where 2: "checkHostOffers h cfg be w1 = (y, w2)" by fastforce
    have p2: "proc_ok w2" "qlog w2 = qlog w" using same [OF only_ran_trans [OF r1 checkHostOffers_ran [OF 2]]] by simp_all
    obtain z w3 where 3: "OpenJobEnv h w2 = (z, w3)" by fastforce
    obtain u w4 where 4: "with_job_env b h cfg jo be w3 = (u, w4)" by fastforce
    consider "w' = w2" | e where "z = Some e" "w' = w3" | "z = None" "w' = snd (Close h w4)"
      using assms(1) 1 g 2 3 4 by (cases y; cases z) (auto simp: runWithConfig_def)
    then show ?thesis
    proof cases
      case 2
      have "qlog w3 = qlog w2" using OpenJobEnv_fails [OF 3 [unfolded 2(1)]] files_at_lib by blast
      then show ?thesis using OpenJobEnv_fails [of h w2 e w3] 3 2 p2 by (simp add: proc_ok_def file_closed_def)
    next
      case closed: 3
      have "hook_env (path_join [getenv w2 ''SGE_JOB_SPOOL_DIR'', ''environment'']) w3"
        using OpenJobEnv_ok [OF 3 [unfolded closed(1)]] p2(1)
        by (auto simp: hook_env_def proc_ok_def ResolveJobEnvPath_def Let_def split: if_splits)
      note c = Close_hook [OF with_job_env_hook [OF 4 this], of h, folded closed(2)]
      from c(2) obtain je where je: "jenv w' = Some je" "\<not> jopen je"
        "jpath je = path_join [getenv w2 ''SGE_JOB_SPOOL_DIR'', ''environment'']" by blast
      then show ?thesis using c(1) by (auto simp: proc_ok_def file_closed_def)
    qed (use p2 in \<open>simp add: file_closed_def\<close>)
  qed
qed

subsection \<open>The epilog\<close>

lemma setenv_pairs_typed: "setenv_pairs kvs w = (r, w') \<Longrightarrow> typed_env (penv w) \<Longrightarrow> typed_env (penv w')"
  by (induction kvs w rule: setenv_pairs.induct) (auto dest: setenv_typed split: prod.splits option.splits)

lemma setReleaseEnv_typed:
  assumes "setReleaseEnv b h cfg rec w = (res, w')" "typed_env (penv w)"
  shows "typed_env (penv w')"
proof -
  have load: "typed_env (penv v')" if "LoadConfig b p v = (x, v')" "typed_env (penv v)" for p v x v'
    using penv_run(1) [OF that(1)] that(2) by simp
  have def: "typed_env (penv v')" if "Config_ResourceDef b c n v = (x, v')" "typed_env (penv v)" for c n v x v'
    using penv_run(2) [OF that(1)] that(2) by simp
  show ?thesis using assms unfolding setReleaseEnv_def
    by (auto split: prod.splits option.splits sum.splits; meson load def setenv_pairs_typed)
qed

lemma releaseRecord_typed:
  assumes "releaseRecord b h cfg rec w = (res, w')" "typed_env (penv w)"
  shows "typed_env (penv w')"
proof -
  have new: "typed_env (penv v')" if "NewResource b n k v = (x, v')" "typed_env (penv v)" for n k v x v'
    using penv_run(3) [OF that(1)] that(2) by simp
  have rel: "typed_env (penv v')" if "Release b r t v = (x, v')" "typed_env (penv v)" for r t v x v'
    using penv_run(6) [OF that(1)] that(2) by simp
  show ?thesis using assms unfolding releaseRecord_def
    by (auto split: prod.splits option.splits sum.splits; meson setReleaseEnv_typed new rel)
qed

lemma set_best_effort_typed: "typed_env (penv w) \<Longrightarrow> typed_env (penv (set_best_effort h kvs w))"
proof (induction kvs arbitrary: w)
  case (Cons a kvs)
  obtain k v where a: "a = (k, v)" by fastforce
  obtain r w1 where 1: "Set h k v w = (r, w1)" by fastforce
  have "typed_env (penv w1)" using Set_typed [OF 1 Cons.prems] .
  then show ?case using Cons.IH by (simp add: a 1 split: option.split)
qed simp

lemma publish_usage_proc: "penv (publish_usage h failed el w) = penv w \<and> jenv (publish_usage h failed el w) = jenv w"
proof (cases "ResolveUsagePath w")
  case (Inr p)
  obtain r v where 1: "appendUsage h p (usage_metrics failed el) w = (r, v)" by fastforce
  then show ?thesis using only_at_proc [OF appendUsage_only_at [OF 1]]
    by (simp add: publish_usage_def Inr same_proc_def split: option.split)
qed (simp add: publish_usage_def)

lemma publishSummary_proc_ok:
  assumes "proc_ok w"
  shows "proc_ok (publishSummary h failed el w)"
proof -
  obtain r w1 where 1: "OpenJobEnv h w = (r, w1)" by fastforce
  have t: "typed_env (penv w1)" using OpenJobEnv_penv [OF 1] assms by (simp add: proc_ok_def)
  show ?thesis
  proof (cases r)
    case None
    let ?v = "publish_usage h failed el (set_best_effort h (env_metrics failed el) w1)"
    have "typed_env (penv ?v)" using set_best_effort_typed [OF t] publish_usage_proc by metis
    then show ?thesis using 1 None Close_same [of h ?v] Close_closed [of h ?v]
      by (auto simp: publishSummary_def proc_ok_def)
  next
    case (Some e)
    have "jenv w1 = jenv w" using OpenJobEnv_fails [OF 1 [unfolded Some]] by simp
    then show ?thesis using 1 Some t assms
      by (simp add: publishSummary_def proc_ok_def publish_usage_proc)
  qed
qed

lemma settle_proc: "penv (settle_metadata h p failed w) = penv w \<and> jenv (settle_metadata h p failed w) = jenv w"
proof -
  obtain e u where 1: "sys_remove h p w = (e, u)" by fastforce
  obtain k x v where 2: "PreserveFailedRelease h p w = ((k, x), v)" by (metis prod.exhaust)
  have "same_proc w u" using sys_same_proc(7) [of w h p] 1 by simp
  moreover have "penv v = penv w" "jenv v = jenv w" using Preserve_same [OF 2] by (simp_all add: same_proc_def)
  ultimately show ?thesis
    by (simp add: settle_metadata_def 1 2 same_proc_def split: option.split)
qed

lemma finish_proc_ok: "proc_ok w \<Longrightarrow> proc_ok (finish h p failed w)"
proof -
  assume "proc_ok w"
  then have "proc_ok (settle_metadata h p failed w)" using settle_proc [of h p failed w] by (simp add: proc_ok_def)
  then have "proc_ok (publishSummary h failed (spent h) (settle_metadata h p failed w))" by (rule publishSummary_proc_ok)
  then show ?thesis by (simp add: finish_def logSummary_def proc_ok_def)
qed

lemma start_env_proc_ok: "proc_ok w \<Longrightarrow> proc_ok (SetLogCallback b c (start_env cfg w))"
  by (auto simp: start_env_def proc_ok_def penv_lib setenv_def typed_upd split: prod.split)

lemma releaseRecord_jenv: "releaseRecord b h cfg rec w = (res, w') \<Longrightarrow> jenv w' = jenv w"
  using releaseRecord_calls by (fastforce simp: proc_step_def)

lemma epilog_run_proc_ok:
  assumes "proc_ok w"
  shows "proc_ok (snd (Epilog.run b h cfg w))"
proof -
  let ?v = "SetLogCallback b epilog_component (start_env cfg w)"
  have v: "proc_ok ?v" using assms by (rule start_env_proc_ok)
  show ?thesis
  proof (cases "ResolveMetadataPath ?v")
    case (Inl e)
    then show ?thesis using v by (simp add: run_def proc_ok_def)
  next
    case (Inr p)
    obtain x w1 where 1: "ReadStrictSingle h p ?v = (x, w1)" by fastforce
    have p1: "proc_ok w1" using only_at_proc [OF ReadStrictSingle_only_at [of ?v h p]] 1 v
      by (simp add: same_proc_def proc_ok_def)
    have l: "proc_ok (log_error c m u) = proc_ok u" "proc_ok (log_info c m u) = proc_ok u" for c m and u :: "'a world"
      by (simp_all add: proc_ok_def)
    show ?thesis
    proof (cases x)
      case (Inl e)
      then show ?thesis using Inr 1 p1 finish_proc_ok [of "log_error epilog_component _ w1"]
        by (auto simp: run_def l)
    next
      case rec: (Inr rec)
      obtain r w2 where 2: "releaseRecord b h cfg rec w1 = (r, w2)" by fastforce
      have "proc_ok w2" using releaseRecord_typed [OF 2] releaseRecord_jenv [OF 2] p1 by (simp add: proc_ok_def)
      then show ?thesis using Inr 1 rec 2 finish_proc_ok [of w2] finish_proc_ok [of "log_error epilog_component _ w2"]
        by (simp add: run_def l split: option.split)
    qed
  qed
qed

subsection \<open>Both programs\<close>

lemma ResetProcessEnv_proc_ok:
  assumes "ResetProcessEnv h environ w = (r, w')" "proc_ok w"
  shows "proc_ok w'"
proof -
  have "jenv w' = jenv v" if "set_all env v = (r, w')" for env and v :: "'a world"
    using that by (induction env v rule: set_all.induct) (auto simp: setenv_def split: prod.splits if_splits)
  then have "jenv w' = jenv w" using assms(1)
    by (fastforce simp: ResetProcessEnv_def clearenv_def split: option.splits sum.splits)
  then show ?thesis using ResetProcessEnv_typed [OF assms(1)] assms(2) by (simp add: proc_ok_def)
qed

lemma ResetProcessEnv_qlog: "ResetProcessEnv h environ w = (r, w') \<Longrightarrow> qlog w' = qlog w"
proof -
  have "qlog w' = qlog v" if "set_all env v = (r, w')" for env and v :: "'a world"
    using that by (induction env v rule: set_all.induct) (auto simp: setenv_def split: prod.splits if_splits)
  then show "ResetProcessEnv h environ w = (r, w') \<Longrightarrow> qlog w' = qlog w"
    by (fastforce simp: ResetProcessEnv_def clearenv_def split: option.splits sum.splits)
qed

lemma prolog_main_proc_ok:
  assumes "proc_ok w"
  shows "proc_ok (snd (prolog_main b h environ args w)) \<and> file_closed w (snd (prolog_main b h environ args w))"
proof -
  obtain r w1 where 1: "ResetProcessEnv h environ w = (r, w1)" by fastforce
  have p1: "proc_ok w1 \<and> file_closed w w1"
    using ResetProcessEnv_proc_ok [OF 1 assms] ResetProcessEnv_qlog [OF 1] by (simp add: file_closed_def)
  have p2: "proc_ok w2 \<and> file_closed w w2" if "runWithConfig b h jo cfg w1 = (x, w2)" for jo cfg x w2
    using runWithConfig_proc_ok [OF that] p1 ResetProcessEnv_qlog [OF 1] by (simp add: file_closed_def)
  have l: "proc_ok (log_error c m u) = proc_ok u" "file_closed w (log_error c m u) = file_closed w u"
    for c m and u :: "'a world"
    by (simp_all add: proc_ok_def file_closed_def)
  show ?thesis using p1 p2 1 by (auto simp: prolog_main_def l split: option.split sum.split prod.split)
qed

lemma epilog_main_proc_ok:
  assumes "proc_ok w"
  shows "proc_ok (snd (epilog_main b h environ args w))"
proof -
  obtain r w1 where 1: "ResetProcessEnv h environ w = (r, w1)" by fastforce
  have p1: "proc_ok w1" using ResetProcessEnv_proc_ok [OF 1 assms] .
  have l: "proc_ok (log_error c m u) = proc_ok u" for c m and u :: "'a world"
    by (simp add: proc_ok_def)
  show ?thesis using p1 1 epilog_run_proc_ok [OF p1]
    by (auto simp: epilog_main_def l split: option.split sum.split)
qed

subsection \<open>Property\<close>

text \<open>
  C31. The processes are well formed: whatever arguments, environment and files a hook is started
  with, and whichever system calls and library calls fail, a prolog or an epilog that starts with
  an environment that an \<open>environ\<close> block can hold ends with one, and never with an open job
  environment file. A prolog that called the library at all did open a job environment file, the
  file \<open>environment\<close> of a directory, and has closed it.
\<close>

theorem hooks_end_well_formed:
  assumes "proc_ok w"
  shows "proc_ok (snd (prolog_main b h environ args w)) \<and> proc_ok (snd (epilog_main b h environ args w)) \<and>
    (qlog (snd (prolog_main b h environ args w)) \<noteq> qlog w \<longrightarrow>
      (\<exists>d je. jenv (snd (prolog_main b h environ args w)) = Some je \<and> \<not> jopen je \<and>
         jpath je = path_join [d, ''environment'']))"
  using prolog_main_proc_ok [OF assms] epilog_main_proc_ok [OF assms] unfolding file_closed_def by blast

text \<open>A started prolog that is granted a token.\<close>

definition sge_environ :: "string list" where
  "sge_environ = [''JOB_ID=5'', ''SGE_TASK_ID=1'', ''SGE_JOB_SPOOL_DIR=/n/active_jobs/5.1'']"

definition sge_started :: "int world" where
  "sge_started = snd (ResetProcessEnv sge_host sge_environ sge_world)"

lemma sge_started_live: "\<exists>w'. runWithConfig (Real sample_api) sge_host ''alice'' sge_config sge_started = (None, w') \<and>
  getenv w' ''SGE_JOB_SPOOL_DIR'' = ''/n/active_jobs/5.1''"
proof (rule runWithConfig_live)
  show "fault_free sge_host" by (simp add: sge_host_def quiet_host_def fault_free_def)
  show "is_abs ''/n/active_jobs/5.1''" "getenv sge_started ''SGE_JOB_SPOOL_DIR'' = ''/n/active_jobs/5.1''"
    "spool_ready sge_host ''/n/active_jobs/5.1'' (files sge_started)"
    "\<not> is_dir (files sge_started) (path_join [''/n/active_jobs/5.1'', ''environment''])"
    "ParseGrantedBackend ''EMU_FREE'' = Inr ''EMU_FREE''" "good_backend ''EMU_FREE''"
    "\<not> contains_any ''EMU_FREE'' [TAB, LF]" "\<not> contains_any (c_string ''tok-1'') [TAB, LF]"
    "schedulerJobUID sge_host ''alice'' = Inr 1001"
    by code_simp+
  have "typed_env (penv sge_started)"
    unfolding sge_started_def
    by (rule ResetProcessEnv_typed [OF surjective_pairing]) (simp add: typed_env_def sge_world_def fresh_world_def setenv_ok_def)
  then show "nul_free (penv sge_started)" by (simp add: nul_free_def typed_env_def setenv_ok_def)
  let ?r = "readGranted sge_host (ResourceName sge_config) (QstatPath sge_config) sge_started"
  have "fst ?r = Inr ''EMU_FREE''" by code_simp
  then show "?r = (Inr ''EMU_FREE'', snd ?r)" by (metis prod.collapse)
  let ?c = "checkHostOffers sge_host sge_config ''EMU_FREE'' (snd ?r)"
  have "fst ?c = None" by code_simp
  then show "?c = (None, snd ?c)" by (metis prod.collapse)
  show "grants sample_api ''EMU_FREE'' ''tok-1''" by (rule sample_grants)
  have "getenv sge_started ''JOB_ID'' = ''5''" by code_simp
  then show "SlotsResourceName sge_config = [] \<or> (\<forall>v :: int world. getenv v ''JOB_ID'' = getenv sge_started ''JOB_ID'' \<longrightarrow>
      \<not> isl (fst (readGrantedSlots sge_host (SlotsResourceName sge_config) (QstatPath sge_config) v)))"
    by (simp add: sge_config_def defaultHookConfig_def sge_slots_known)
qed

theorem hooks_end_well_formed_witness:
  "\<exists>d je. jenv (snd (prolog_main (Real sample_api) sge_host sge_environ [''--qstat=/opt/sge/qstat'', ''alice''] sge_world)) =
     Some je \<and> \<not> jopen je \<and> jpath je = path_join [d, ''environment'']"
proof -
  let ?m = "prolog_main (Real sample_api) sge_host sge_environ [''--qstat=/opt/sge/qstat'', ''alice''] sge_world"
  obtain w' where run: "runWithConfig (Real sample_api) sge_host ''alice'' sge_config sge_started = (None, w')"
    "getenv w' ''SGE_JOB_SPOOL_DIR'' = ''/n/active_jobs/5.1''" using sge_started_live by blast
  have reset: "ResetProcessEnv sge_host sge_environ sge_world = (None, sge_started)"
    unfolding sge_started_def by (rule prod_eqI) (code_simp, simp)
  have args: "Prolog.parseHookArgs [''--qstat=/opt/sge/qstat'', ''alice''] = Inr (sge_config, ''alice'')" by code_simp
  have main: "snd ?m = w'" by (simp add: prolog_main_def reset args run)
  have abs: "is_abs (getenv sge_started ''SGE_JOB_SPOOL_DIR'')" "is_abs (getenv w' ''SGE_JOB_SPOOL_DIR'')"
    unfolding run(2) by code_simp+
  have "fst (readGranted sge_host (ResourceName sge_config) (QstatPath sge_config) sge_started) = Inr ''EMU_FREE''" by code_simp
  then have "qlog (snd ?m) \<noteq> qlog sge_world"
    using runWithConfig_success [OF run(1) abs] ResetProcessEnv_qlog [OF reset] sge_world_start(1) by (auto simp: main)
  moreover have "proc_ok sge_world" by (simp add: proc_ok_def typed_env_def sge_world_def fresh_world_def setenv_ok_def)
  ultimately show ?thesis using hooks_end_well_formed by blast
qed

end
