(* ===== verification/Cgo_Memory.thy ===== *)
theory Cgo_Memory
  imports Qrmi
begin

text \<open>
  The C memory under the binding of \<open>qrmi_real.go\<close>. Go makes C strings with \<open>C.CString\<close> and must
  give them back with \<open>C.free\<close>; libqrmi makes C strings of its own, which must go back with
  \<open>qrmi_string_free\<close>, or lends a string that stays its own. A block knows who allocated it; reading
  or freeing what is not allocated, and freeing a block with the other allocator, sets \<open>faulted\<close>.
\<close>

datatype owner = CMalloc | QrmiAlloc

record cblock =
  cbytes :: string
  cowner :: owner

record cmem =
  heap :: "nat \<rightharpoonup> cblock"
  brk :: nat
  faulted :: bool

datatype cptr = NULL | At nat | Lent string

definition fault_mem :: "cmem \<Rightarrow> cmem" where
  "fault_mem m = m\<lparr>faulted := True\<rparr>"

definition alloc :: "owner \<Rightarrow> string \<Rightarrow> cmem \<Rightarrow> cptr \<times> cmem" where
  "alloc ow s m =
     (At (brk m), m\<lparr>heap := (heap m)(brk m \<mapsto> \<lparr>cbytes = s @ [NUL], cowner = ow\<rparr>), brk := Suc (brk m)\<rparr>)"

definition dealloc :: "owner \<Rightarrow> cptr \<Rightarrow> cmem \<Rightarrow> cmem" where
  "dealloc ow p m =
     (case p of
        NULL \<Rightarrow> m
      | Lent s \<Rightarrow> fault_mem m
      | At a \<Rightarrow>
          (case heap m a of
             None \<Rightarrow> fault_mem m
           | Some b \<Rightarrow> if cowner b = ow then m\<lparr>heap := (heap m)(a := None)\<rparr> else fault_mem m))"

definition CString :: "string \<Rightarrow> cmem \<Rightarrow> cptr \<times> cmem" where
  "CString s m = alloc CMalloc s m"

definition C_free :: "cptr \<Rightarrow> cmem \<Rightarrow> cmem" where
  "C_free p m = dealloc CMalloc p m"

definition qrmi_string_free :: "cptr \<Rightarrow> cmem \<Rightarrow> cmem" where
  "qrmi_string_free p m = dealloc QrmiAlloc p m"

text \<open>A C function that reads a string, up to its first zero byte.\<close>

definition read_string :: "cptr \<Rightarrow> cmem \<Rightarrow> string \<times> cmem" where
  "read_string p m =
     (case p of
        NULL \<Rightarrow> ([], fault_mem m)
      | Lent s \<Rightarrow> (c_string s, m)
      | At a \<Rightarrow>
          (case heap m a of
             None \<Rightarrow> ([], fault_mem m)
           | Some b \<Rightarrow> (c_string (cbytes b), m)))"

text \<open>\<open>C.GoString\<close> gives an empty string for NULL.\<close>

definition GoString :: "cptr \<Rightarrow> cmem \<Rightarrow> string \<times> cmem" where
  "GoString p m = (if p = NULL then ([], m) else read_string p m)"

definition mem_ok :: "cmem \<Rightarrow> bool" where
  "mem_ok m = (\<not> faulted m \<and> (\<forall>a. brk m \<le> a \<longrightarrow> heap m a = None))"

text \<open>The same blocks with the same bytes; addresses are not used twice.\<close>

definition same_mem :: "cmem \<Rightarrow> cmem \<Rightarrow> bool" where
  "same_mem m m' = (heap m' = heap m \<and> brk m \<le> brk m' \<and> mem_ok m')"

lemma same_mem_refl: "mem_ok m \<Longrightarrow> same_mem m m"
  by (simp add: same_mem_def)

lemma same_mem_trans: "same_mem a b \<Longrightarrow> same_mem b c \<Longrightarrow> same_mem a c"
  by (simp add: same_mem_def)

lemma same_mem_ok: "same_mem m m' \<Longrightarrow> mem_ok m'"
  by (simp add: same_mem_def)

lemma c_string_end [simp]: "c_string (s @ [NUL]) = c_string s"
  by (induction s) (simp_all add: c_string_def)

lemma GoString_Lent [simp]: "GoString (Lent s) m = (c_string s, m)"
  by (simp add: GoString_def read_string_def)

lemma GoString_NULL [simp]: "GoString NULL m = ([], m)"
  by (simp add: GoString_def)

subsection \<open>A string that is given back\<close>

text \<open>
  The contract both allocators keep: a new string reads as it was made and leaves the memory
  sound, and giving it back restores the memory, whatever was allocated and given back since.
\<close>

locale string_owner =
  fixes new :: "string \<Rightarrow> cmem \<Rightarrow> cptr \<times> cmem"
    and give_back :: "cptr \<Rightarrow> cmem \<Rightarrow> cmem"
  assumes new_ok: "mem_ok m \<Longrightarrow> new s m = (p, m1) \<Longrightarrow> mem_ok m1 \<and> p \<noteq> NULL"
    and new_reads: "mem_ok m \<Longrightarrow> new s m = (p, m1) \<Longrightarrow> same_mem m1 m2 \<Longrightarrow> read_string p m2 = (c_string s, m2)"
    and restores: "mem_ok m \<Longrightarrow> new s m = (p, m1) \<Longrightarrow> same_mem m1 m2 \<Longrightarrow> same_mem m (give_back p m2)"
begin

text \<open>A string that is lent to a C function, and one that is copied out of one.\<close>

lemma borrowed:
  assumes "mem_ok m"
  obtains p m1 where "new s m = (p, m1)" "read_string p m1 = (c_string s, m1)" "same_mem m (give_back p m1)"
proof -
  obtain p m1 where 1: "new s m = (p, m1)" by fastforce
  have "same_mem m1 m1" using new_ok [OF assms 1] same_mem_refl by blast
  with 1 that new_reads [OF assms 1] restores [OF assms 1] show ?thesis by blast
qed

lemma copied_out:
  assumes "mem_ok m" "new s m = (p, m1)"
  shows "GoString p m1 = (c_string s, m1) \<and> same_mem m (give_back p m1)"
proof -
  have ok: "mem_ok m1" "p \<noteq> NULL" using new_ok [OF assms] by simp_all
  then show ?thesis using new_reads [OF assms same_mem_refl] restores [OF assms same_mem_refl]
    by (simp add: GoString_def)
qed

end

lemma alloc_owner:
  assumes "mem_ok m" "alloc ow s m = (p, m1)"
  shows "mem_ok m1 \<and> p \<noteq> NULL"
    and "same_mem m1 m2 \<Longrightarrow> read_string p m2 = (c_string s, m2)"
    and "same_mem m1 m2 \<Longrightarrow> same_mem m (dealloc ow p m2)"
  using assms
  by (auto simp: alloc_def mem_ok_def same_mem_def read_string_def dealloc_def fun_eq_iff)

interpretation go_string: string_owner CString C_free
  by unfold_locales (use alloc_owner in \<open>auto simp: CString_def C_free_def\<close>)

interpretation lib_string: string_owner "alloc QrmiAlloc" qrmi_string_free
  by unfold_locales (use alloc_owner in \<open>auto simp: qrmi_string_free_def\<close>)

end
