(* ===== verification/Cgo_Binding.thy ===== *)
theory Cgo_Binding
  imports Cgo_Memory
begin

text \<open>
  The functions of \<open>qrmi_real.go\<close> again, now with the C strings they make, read and free. A
  function of libqrmi gets pointers, reads its argument from the memory and may allocate its
  result; what it does is still the parameter \<open>capi\<close>. The lemmas: every function has the result
  and the effect of its counterpart in \<open>Qrmi\<close>, and leaves the memory as it was.
\<close>

type_synonym 'q cstate = "'q world \<times> cmem"

subsection \<open>The functions of libqrmi\<close>

definition qrmi_get_last_error :: "'q capi \<Rightarrow> 'q cstate \<Rightarrow> cptr" where
  "qrmi_get_last_error api st = (case c_last_error api (lib (fst st)) of None \<Rightarrow> NULL | Some s \<Rightarrow> Lent s)"

definition qrmi_config_load :: "'q capi \<Rightarrow> cptr \<Rightarrow> 'q cstate \<Rightarrow> nat option \<times> 'q cstate" where
  "qrmi_config_load api cpath st =
     (case st of (w, m) \<Rightarrow> case read_string cpath m of (s, m) \<Rightarrow>
        case c_config_load api (penv w) s (lib w) of (cfg, q) \<Rightarrow> (cfg, in_lib api q w, m))"

definition qrmi_config_resource_def_get ::
  "'q capi \<Rightarrow> nat \<Rightarrow> cptr \<Rightarrow> 'q cstate \<Rightarrow> nat option \<times> 'q cstate" where
  "qrmi_config_resource_def_get api c cname st =
     (case st of (w, m) \<Rightarrow> case read_string cname m of (s, m) \<Rightarrow>
        case c_def_get api c s (lib w) of (d, q) \<Rightarrow> (d, in_lib api q w, m))"

definition qrmi_config_resource_type_to_str :: "'q capi \<Rightarrow> u32 \<Rightarrow> 'q cstate \<Rightarrow> cptr \<times> 'q cstate" where
  "qrmi_config_resource_type_to_str api t st =
     (case st of (w, m) \<Rightarrow>
        (case c_type_to_str api t (lib w) of
           None \<Rightarrow> (NULL, w, m)
         | Some s \<Rightarrow> (case alloc QrmiAlloc s m of (p, m) \<Rightarrow> (p, w, m))))"

definition qrmi_resource_new :: "'q capi \<Rightarrow> cptr \<Rightarrow> u32 \<Rightarrow> 'q cstate \<Rightarrow> nat option \<times> 'q cstate" where
  "qrmi_resource_new api cname t st =
     (case st of (w, m) \<Rightarrow> case read_string cname m of (s, m) \<Rightarrow>
        case c_resource_new api (penv w) s t (lib w) of (r, q) \<Rightarrow> (r, in_lib api q w, m))"

definition qrmi_resource_acquire :: "'q capi \<Rightarrow> nat \<Rightarrow> 'q cstate \<Rightarrow> (bool \<times> cptr) \<times> 'q cstate" where
  "qrmi_resource_acquire api r st =
     (case st of (w, m) \<Rightarrow>
        case c_acquire api (penv w) r (lib w) of ((success, token), q) \<Rightarrow>
          (case token of
             None \<Rightarrow> ((success, NULL), in_lib api q w, m)
           | Some t \<Rightarrow> (case alloc QrmiAlloc t m of (p, m) \<Rightarrow> ((success, p), in_lib api q w, m))))"

definition qrmi_resource_release :: "'q capi \<Rightarrow> nat \<Rightarrow> cptr \<Rightarrow> 'q cstate \<Rightarrow> bool \<times> 'q cstate" where
  "qrmi_resource_release api r ctok st =
     (case st of (w, m) \<Rightarrow> case read_string ctok m of (s, m) \<Rightarrow>
        case c_release api (penv w) r s (lib w) of (success, q) \<Rightarrow>
          (success, event (QRelease r s success) (in_lib api q w), m))"

text \<open>The key and value pointers of a definition: the strings stay with the definition.\<close>

definition lent :: "string option \<Rightarrow> cptr" where
  "lent s = (case s of None \<Rightarrow> NULL | Some s \<Rightarrow> Lent s)"

subsection \<open>The functions of the binding\<close>

definition cgo_goStringOrEmpty :: "cptr \<Rightarrow> cmem \<Rightarrow> string \<times> cmem" where
  "cgo_goStringOrEmpty c m = (if c = NULL then ([], m) else GoString c m)"

definition cgo_lastError :: "'q capi \<Rightarrow> 'q cstate \<Rightarrow> string \<times> 'q cstate" where
  "cgo_lastError api st =
     (case st of (w, m) \<Rightarrow>
        let cstr = qrmi_get_last_error api st in
        if cstr = NULL then (''(no error message)'', w, m)
        else case GoString cstr m of (s, m) \<Rightarrow> (s, w, m))"

definition cgo_LoadConfig :: "'q capi \<Rightarrow> string \<Rightarrow> 'q cstate \<Rightarrow> (gerr + nat option) \<times> 'q cstate" where
  "cgo_LoadConfig api path st =
     (case st of (w, m) \<Rightarrow> case CString path m of (cpath, m) \<Rightarrow>
        case qrmi_config_load api cpath (w, m) of (cfg, st) \<Rightarrow>
          (case cfg of
             None \<Rightarrow>
               (case cgo_lastError api st of (msg, w, m) \<Rightarrow>
                  (Inl (Errorf ''qrmi_config_load(%s): %s'' [S path, S msg]), w, C_free cpath m))
           | Some c \<Rightarrow> (case st of (w, m) \<Rightarrow> (Inr (Some c), event (QConfigLoad c) w, C_free cpath m))))"

definition cgo_ResourceDef ::
  "'q capi \<Rightarrow> nat option \<Rightarrow> string \<Rightarrow> 'q cstate \<Rightarrow> (gerr + nat option) \<times> 'q cstate" where
  "cgo_ResourceDef api c name st =
     (case c of
        None \<Rightarrow> (Inl (Errorf ''qrmi: config is closed'' []), st)
      | Some c \<Rightarrow>
          (case st of (w, m) \<Rightarrow> case CString name m of (cname, m) \<Rightarrow>
             case qrmi_config_resource_def_get api c cname (w, m) of (def, st) \<Rightarrow>
               (case def of
                  None \<Rightarrow>
                    (case cgo_lastError api st of (msg, w, m) \<Rightarrow>
                       (Inl (Errorf ''qrmi_config_resource_def_get(%s): %s'' [S name, S msg]), w, C_free cname m))
                | Some d \<Rightarrow> (case st of (w, m) \<Rightarrow> (Inr (Some d), event (QDefGet d) w, C_free cname m)))))"

definition cgo_TypeString :: "'q capi \<Rightarrow> nat option \<Rightarrow> 'q cstate \<Rightarrow> string \<times> 'q cstate" where
  "cgo_TypeString api d st =
     (case d of
        None \<Rightarrow> ([], st)
      | Some d \<Rightarrow>
          (case qrmi_config_resource_type_to_str api (c_def_type api d (lib (fst st))) st of (cstr, w, m) \<Rightarrow>
             if cstr = NULL then ([], w, m)
             else case GoString cstr m of (out, m) \<Rightarrow> (out, w, qrmi_string_free cstr m)))"

text \<open>
  The loop over the flat array: \<open>n\<close> entries from index \<open>i\<close> on. Reading past the end of the array
  is a fault of the memory.
\<close>

fun env_loop :: "(cptr \<times> cptr) list \<Rightarrow> nat \<Rightarrow> nat \<Rightarrow> cmem \<Rightarrow> EnvVar list \<times> cmem" where
  "env_loop vs i 0 m = ([], m)"
| "env_loop vs i (Suc n) m =
     (if length vs \<le> i then ([], fault_mem m)
      else case vs ! i of (k, v) \<Rightarrow>
        case cgo_goStringOrEmpty k m of (key, m) \<Rightarrow>
        case cgo_goStringOrEmpty v m of (val, m) \<Rightarrow>
        case env_loop vs (Suc i) n m of (out, m) \<Rightarrow>
          (if key = [] then out else \<lparr>Key = key, Value = val\<rparr> # out, m))"

definition cgo_Environments :: "'q capi \<Rightarrow> nat option \<Rightarrow> 'q cstate \<Rightarrow> EnvVar list \<times> 'q cstate" where
  "cgo_Environments api d st =
     (case d of
        None \<Rightarrow> ([], st)
      | Some d \<Rightarrow>
          (case st of (w, m) \<Rightarrow>
             (case c_def_envs api d (lib w) of
                None \<Rightarrow> ([], w, m)
              | Some kvs \<Rightarrow>
                  (case env_loop (map (\<lambda>(k, v). (lent k, lent v)) kvs) 0 (length kvs) m of (out, m) \<Rightarrow> (out, w, m)))))"

definition cgo_NewResource ::
  "'q capi \<Rightarrow> string \<Rightarrow> i64 \<Rightarrow> 'q cstate \<Rightarrow> (gerr + nat option) \<times> 'q cstate" where
  "cgo_NewResource api name typ st =
     (case st of (w, m) \<Rightarrow> case CString name m of (cname, m) \<Rightarrow>
        case qrmi_resource_new api cname (ucast typ) (w, m) of (r, st) \<Rightarrow>
          (case r of
             None \<Rightarrow>
               (case cgo_lastError api st of (msg, w, m) \<Rightarrow>
                  (Inl (Errorf ''qrmi_resource_new(%s): %s'' [S name, S msg]), w, C_free cname m))
           | Some r \<Rightarrow>
               (case st of (w, m) \<Rightarrow>
                  (Inr (Some r), event (QResourceNew r (c_string name) (ucast typ)) w, C_free cname m))))"

definition cgo_IsAccessible :: "'q capi \<Rightarrow> nat option \<Rightarrow> 'q cstate \<Rightarrow> (gerr + bool) \<times> 'q cstate" where
  "cgo_IsAccessible api r st =
     (case r of
        None \<Rightarrow> (Inl resource_closed, st)
      | Some r \<Rightarrow>
          (case st of (w, m) \<Rightarrow> case c_is_accessible api (penv w) r (lib w) of ((success, out), q) \<Rightarrow>
             let st = (in_lib api q w, m) in
             if \<not> success
             then (case cgo_lastError api st of (msg, st) \<Rightarrow>
                     (Inl (Errorf ''qrmi_resource_is_accessible: %s'' [S msg]), st))
             else (Inr out, event (QAccessible r out) (fst st), snd st)))"

definition cgo_Acquire :: "'q capi \<Rightarrow> nat option \<Rightarrow> 'q cstate \<Rightarrow> (gerr + string) \<times> 'q cstate" where
  "cgo_Acquire api r st =
     (case r of
        None \<Rightarrow> (Inl resource_closed, st)
      | Some r \<Rightarrow>
          (case qrmi_resource_acquire api r st of ((success, token), st) \<Rightarrow>
             if \<not> success \<or> token = NULL
             then (case cgo_lastError api st of (msg, st) \<Rightarrow>
                     (Inl (Errorf ''qrmi_resource_acquire: %s'' [S msg]), st))
             else (case st of (w, m) \<Rightarrow> case GoString token m of (out, m) \<Rightarrow>
                     (Inr out, event (QAcquire r out) w, qrmi_string_free token m))))"

definition cgo_Release :: "'q capi \<Rightarrow> nat option \<Rightarrow> string \<Rightarrow> 'q cstate \<Rightarrow> gerr option \<times> 'q cstate" where
  "cgo_Release api r token st =
     (case r of
        None \<Rightarrow> (Some resource_closed, st)
      | Some r \<Rightarrow>
          (case st of (w, m) \<Rightarrow> case CString token m of (ctok, m) \<Rightarrow>
             case qrmi_resource_release api r ctok (w, m) of (success, st) \<Rightarrow>
               if \<not> success
               then (case cgo_lastError api st of (msg, w, m) \<Rightarrow>
                       (Some (Errorf ''qrmi_resource_release: %s'' [S msg]), w, C_free ctok m))
               else (case st of (w, m) \<Rightarrow> (None, w, C_free ctok m))))"

subsection \<open>Each function against its counterpart\<close>

lemma cgo_lastError_eq: "cgo_lastError api (w, m) = (lastError api w, w, m)"
  by (simp add: cgo_lastError_def lastError_def qrmi_get_last_error_def Let_def split: option.split)

lemma cgo_goStringOrEmpty_lent: "cgo_goStringOrEmpty (lent s) m = (goStringOrEmpty s, m)"
  by (simp add: cgo_goStringOrEmpty_def lent_def goStringOrEmpty_def split: option.split)

text \<open>\<open>(x, w', m')\<close> is the outcome \<open>(x, w')\<close> of the counterpart with the memory restored.\<close>

definition restored :: "cmem \<Rightarrow> 'x \<times> 'q world \<Rightarrow> 'x \<times> 'q cstate \<Rightarrow> bool" where
  "restored m r r' = (case r' of (x, w', m') \<Rightarrow> r = (x, w') \<and> same_mem m m')"

lemma cgo_LoadConfig_restored:
  assumes "mem_ok m"
  shows "restored m (LoadConfig (Real api) path w) (cgo_LoadConfig api path (w, m))"
proof -
  obtain p m1 where 1: "CString path m = (p, m1)" and "read_string p m1 = (c_string path, m1)"
    "same_mem m (C_free p m1)" by (rule go_string.borrowed [OF assms])
  then show ?thesis
    by (simp add: cgo_LoadConfig_def LoadConfig_def qrmi_config_load_def restored_def 1 cgo_lastError_eq Let_def
        split: prod.split option.split)
qed

lemma cgo_ResourceDef_restored:
  assumes "mem_ok m"
  shows "restored m (Config_ResourceDef (Real api) c name w) (cgo_ResourceDef api c name (w, m))"
proof -
  obtain p m1 where 1: "CString name m = (p, m1)" and "read_string p m1 = (c_string name, m1)"
    "same_mem m (C_free p m1)" by (rule go_string.borrowed [OF assms])
  then show ?thesis using same_mem_refl [OF assms]
    by (simp add: cgo_ResourceDef_def Config_ResourceDef_def qrmi_config_resource_def_get_def restored_def 1
        cgo_lastError_eq Let_def split: prod.split option.split)
qed

lemma cgo_TypeString_restored:
  assumes "mem_ok m"
  shows "restored m (Def_TypeString (Real api) d w, w) (cgo_TypeString api d (w, m))"
proof (cases d)
  case (Some n)
  show ?thesis
  proof (cases "c_type_to_str api (c_def_type api n (lib w)) (lib w)")
    case str: (Some s)
    obtain p m1 where 1: "alloc QrmiAlloc s m = (p, m1)" by fastforce
    have "GoString p m1 = (c_string s, m1)" "same_mem m (qrmi_string_free p m1)" "p \<noteq> NULL"
      using lib_string.copied_out [OF assms 1] lib_string.new_ok [OF assms 1] by simp_all
    then show ?thesis
      by (simp add: cgo_TypeString_def Def_TypeString_def qrmi_config_resource_type_to_str_def restored_def
          Some str 1 goStringOrEmpty_def)
  qed (simp add: cgo_TypeString_def Def_TypeString_def qrmi_config_resource_type_to_str_def restored_def
      Some goStringOrEmpty_def same_mem_refl [OF assms])
qed (simp add: cgo_TypeString_def Def_TypeString_def restored_def same_mem_refl [OF assms])

lemma env_loop_eq:
  "env_loop (map (\<lambda>(k, v). (lent k, lent v)) kvs) i n m =
     (filter (\<lambda>e. Key e \<noteq> []) (map (\<lambda>(k, v). \<lparr>Key = goStringOrEmpty k, Value = goStringOrEmpty v\<rparr>) (take n (drop i kvs))), m)"
  if "i + n \<le> length kvs"
  using that
proof (induction n arbitrary: i)
  case (Suc n)
  then have "drop i kvs = kvs ! i # drop (Suc i) kvs" by (simp add: Cons_nth_drop_Suc)
  with Suc show ?case
    by (cases "kvs ! i") (simp add: cgo_goStringOrEmpty_lent)
qed simp

lemma cgo_Environments_restored:
  assumes "mem_ok m"
  shows "restored m (Def_Environments (Real api) d w, w) (cgo_Environments api d (w, m))"
  using env_loop_eq [of 0 "length kvs" kvs for kvs] same_mem_refl [OF assms]
  by (simp add: cgo_Environments_def Def_Environments_def restored_def split: option.split)

lemma cgo_NewResource_restored:
  assumes "mem_ok m"
  shows "restored m (NewResource (Real api) name t w) (cgo_NewResource api name t (w, m))"
proof -
  obtain p m1 where 1: "CString name m = (p, m1)" and "read_string p m1 = (c_string name, m1)"
    "same_mem m (C_free p m1)" by (rule go_string.borrowed [OF assms])
  then show ?thesis
    by (simp add: cgo_NewResource_def NewResource_def qrmi_resource_new_def restored_def 1 cgo_lastError_eq Let_def
        split: prod.split option.split)
qed

lemma cgo_Release_restored:
  assumes "mem_ok m"
  shows "restored m (Release (Real api) r token w) (cgo_Release api r token (w, m))"
proof -
  obtain p m1 where 1: "CString token m = (p, m1)" and "read_string p m1 = (c_string token, m1)"
    "same_mem m (C_free p m1)" by (rule go_string.borrowed [OF assms])
  then show ?thesis using same_mem_refl [OF assms]
    by (auto simp: cgo_Release_def Release_def qrmi_resource_release_def restored_def 1 cgo_lastError_eq Let_def
        split: prod.split option.split)
qed

lemma cgo_IsAccessible_restored:
  assumes "mem_ok m"
  shows "restored m (IsAccessible (Real api) r w) (cgo_IsAccessible api r (w, m))"
  using same_mem_refl [OF assms]
  by (simp add: cgo_IsAccessible_def IsAccessible_def restored_def cgo_lastError_eq Let_def
      split: option.split prod.split)

text \<open>A library that hands out a token only when it reports success.\<close>

definition token_on_success :: "'q capi \<Rightarrow> bool" where
  "token_on_success api = (\<forall>e r q. \<not> fst (fst (c_acquire api e r q)) \<longrightarrow> snd (fst (c_acquire api e r q)) = None)"

lemma cgo_Acquire_outcome:
  assumes "mem_ok m"
  shows "\<exists>x w' m'. cgo_Acquire api r (w, m) = (x, w', m') \<and> Acquire (Real api) r w = (x, w') \<and> mem_ok m' \<and>
    (same_mem m m' \<or> (\<exists>n t q. r = Some n \<and> c_acquire api (penv w) n (lib w) = ((False, Some t), q) \<and>
       heap m' = (heap m)(brk m \<mapsto> \<lparr>cbytes = t @ [NUL], cowner = QrmiAlloc\<rparr>)))"
proof (cases r)
  case (Some n)
  obtain ok tok q where c: "c_acquire api (penv w) n (lib w) = ((ok, tok), q)" by (metis prod.exhaust)
  show ?thesis
  proof (cases tok)
    case None
    then show ?thesis using assms same_mem_refl [OF assms]
      by (simp add: cgo_Acquire_def Acquire_def qrmi_resource_acquire_def Some c cgo_lastError_eq Let_def)
  next
    case tok: (Some t)
    obtain p m1 where 1: "alloc QrmiAlloc t m = (p, m1)" by fastforce
    have p: "GoString p m1 = (c_string t, m1)" "same_mem m (qrmi_string_free p m1)" "p \<noteq> NULL" "mem_ok m1"
      using lib_string.copied_out [OF assms 1] lib_string.new_ok [OF assms 1] by simp_all
    have h: "heap m1 = (heap m)(brk m \<mapsto> \<lparr>cbytes = t @ [NUL], cowner = QrmiAlloc\<rparr>)"
      using 1 by (auto simp: alloc_def)
    show ?thesis using p h same_mem_ok [OF p(2)]
      by (cases ok) (simp_all add: cgo_Acquire_def Acquire_def qrmi_resource_acquire_def Some c tok 1
          cgo_lastError_eq Let_def)
  qed
qed (simp add: cgo_Acquire_def Acquire_def assms same_mem_refl)

lemma cgo_Acquire_restored:
  assumes "mem_ok m" "token_on_success api"
  shows "restored m (Acquire (Real api) r w) (cgo_Acquire api r (w, m))"
proof -
  obtain x w' m' where a: "cgo_Acquire api r (w, m) = (x, w', m')" "Acquire (Real api) r w = (x, w')"
    "same_mem m m' \<or> (\<exists>n t q. r = Some n \<and> c_acquire api (penv w) n (lib w) = ((False, Some t), q))"
    using cgo_Acquire_outcome [OF assms(1)] by blast
  have "\<not> (\<exists>n t q. c_acquire api (penv w) n (lib w) = ((False, Some t), q))"
    using assms(2) unfolding token_on_success_def by (metis fst_conv snd_conv option.discI)
  then show ?thesis using a by (auto simp: restored_def)
qed

end
