(* ===== verification/Cgo_Client.thy ===== *)
theory Cgo_Client
  imports Cgo_Binding "HOL-Library.Multiset"
begin

text \<open>
  Any program that uses the package \<open>internal/qrmi\<close>. The package hands out pointers to its objects
  and keeps the C handle in a private field, so a program is a sequence of calls on objects it
  was given, in any order, on closed objects too. The lemmas: what holds of one call of the binding
  with the C memory and of its counterpart in \<open>Qrmi\<close> holds of every program; no program
  makes the binding use or free a C handle that is not open.
\<close>

subsection \<open>The objects and the calls\<close>

text \<open>The private field \<open>c\<close> of each object, in the order the objects were made; \<open>None\<close> is nil.\<close>

record objects =
  configs :: "nat option list"
  defs :: "nat option list"
  resources :: "nat option list"

definition no_objects :: objects where
  "no_objects = \<lparr>configs = [], defs = [], resources = []\<rparr>"

text \<open>An object that was never made is the nil receiver, on which every method acts as on a closed one.\<close>

definition field :: "nat option list \<Rightarrow> nat \<Rightarrow> nat option" where
  "field l i = (if i < length l then l ! i else None)"

datatype bcall =
    CallLoadConfig string | CallResourceDef nat string | CallNewResource string i64
  | CallType nat | CallTypeString nat | CallEnvironments nat
  | CallIsAccessible nat | CallAcquire nat | CallRelease nat string
  | CallCloseConfig nat | CallCloseDef nat | CallCloseResource nat

datatype bresult =
    GotError gerr | GotObject nat | GotInt i64 | GotString string | GotVars "EnvVar list" | GotBool bool | Done

text \<open>The functions of the package, on a state of any type.\<close>

record 's binding =
  b_LoadConfig :: "string \<Rightarrow> 's \<Rightarrow> (gerr + nat option) \<times> 's"
  b_ResourceDef :: "nat option \<Rightarrow> string \<Rightarrow> 's \<Rightarrow> (gerr + nat option) \<times> 's"
  b_NewResource :: "string \<Rightarrow> i64 \<Rightarrow> 's \<Rightarrow> (gerr + nat option) \<times> 's"
  b_Type :: "nat option \<Rightarrow> 's \<Rightarrow> i64 \<times> 's"
  b_TypeString :: "nat option \<Rightarrow> 's \<Rightarrow> string \<times> 's"
  b_Environments :: "nat option \<Rightarrow> 's \<Rightarrow> EnvVar list \<times> 's"
  b_IsAccessible :: "nat option \<Rightarrow> 's \<Rightarrow> (gerr + bool) \<times> 's"
  b_Acquire :: "nat option \<Rightarrow> 's \<Rightarrow> (gerr + string) \<times> 's"
  b_Release :: "nat option \<Rightarrow> string \<Rightarrow> 's \<Rightarrow> gerr option \<times> 's"
  b_CloseConfig :: "nat option \<Rightarrow> 's \<Rightarrow> unit \<times> 's"
  b_CloseDef :: "nat option \<Rightarrow> 's \<Rightarrow> unit \<times> 's"
  b_CloseResource :: "nat option \<Rightarrow> 's \<Rightarrow> unit \<times> 's"

definition go_binding :: "'q build \<Rightarrow> 'q world binding" where
  "go_binding b =
     \<lparr>b_LoadConfig = LoadConfig b, b_ResourceDef = Config_ResourceDef b, b_NewResource = NewResource b,
      b_Type = (\<lambda>d w. (Def_Type b d w, w)), b_TypeString = (\<lambda>d w. (Def_TypeString b d w, w)),
      b_Environments = (\<lambda>d w. (Def_Environments b d w, w)),
      b_IsAccessible = IsAccessible b, b_Acquire = Acquire b, b_Release = Release b,
      b_CloseConfig = (\<lambda>c w. ((), Config_Close b c w)), b_CloseDef = (\<lambda>d w. ((), Def_Close b d w)),
      b_CloseResource = (\<lambda>r w. ((), Resource_Close b r w))\<rparr>"

text \<open>The methods that handle no C string are those of \<open>Qrmi\<close>.\<close>

definition cgo_binding :: "'q capi \<Rightarrow> 'q cstate binding" where
  "cgo_binding api =
     \<lparr>b_LoadConfig = cgo_LoadConfig api, b_ResourceDef = cgo_ResourceDef api, b_NewResource = cgo_NewResource api,
      b_Type = (\<lambda>d (w, m). (Def_Type (Real api) d w, w, m)), b_TypeString = cgo_TypeString api,
      b_Environments = cgo_Environments api,
      b_IsAccessible = cgo_IsAccessible api, b_Acquire = cgo_Acquire api, b_Release = cgo_Release api,
      b_CloseConfig = (\<lambda>c (w, m). ((), Config_Close (Real api) c w, m)),
      b_CloseDef = (\<lambda>d (w, m). ((), Def_Close (Real api) d w, m)),
      b_CloseResource = (\<lambda>r (w, m). ((), Resource_Close (Real api) r w, m))\<rparr>"

fun call :: "'s binding \<Rightarrow> bcall \<Rightarrow> objects \<times> 's \<Rightarrow> bresult \<times> objects \<times> 's" where
  "call bd (CallLoadConfig path) (ob, s) =
     (case b_LoadConfig bd path s of
        (Inl e, s) \<Rightarrow> (GotError e, ob, s)
      | (Inr c, s) \<Rightarrow> (GotObject (length (configs ob)), ob\<lparr>configs := configs ob @ [c]\<rparr>, s))"
| "call bd (CallResourceDef i name) (ob, s) =
     (case b_ResourceDef bd (field (configs ob) i) name s of
        (Inl e, s) \<Rightarrow> (GotError e, ob, s)
      | (Inr d, s) \<Rightarrow> (GotObject (length (defs ob)), ob\<lparr>defs := defs ob @ [d]\<rparr>, s))"
| "call bd (CallNewResource name t) (ob, s) =
     (case b_NewResource bd name t s of
        (Inl e, s) \<Rightarrow> (GotError e, ob, s)
      | (Inr r, s) \<Rightarrow> (GotObject (length (resources ob)), ob\<lparr>resources := resources ob @ [r]\<rparr>, s))"
| "call bd (CallType i) (ob, s) = (case b_Type bd (field (defs ob) i) s of (n, s) \<Rightarrow> (GotInt n, ob, s))"
| "call bd (CallTypeString i) (ob, s) =
     (case b_TypeString bd (field (defs ob) i) s of (t, s) \<Rightarrow> (GotString t, ob, s))"
| "call bd (CallEnvironments i) (ob, s) =
     (case b_Environments bd (field (defs ob) i) s of (vs, s) \<Rightarrow> (GotVars vs, ob, s))"
| "call bd (CallIsAccessible i) (ob, s) =
     (case b_IsAccessible bd (field (resources ob) i) s of (x, s) \<Rightarrow> (case_sum GotError GotBool x, ob, s))"
| "call bd (CallAcquire i) (ob, s) =
     (case b_Acquire bd (field (resources ob) i) s of (x, s) \<Rightarrow> (case_sum GotError GotString x, ob, s))"
| "call bd (CallRelease i token) (ob, s) =
     (case b_Release bd (field (resources ob) i) token s of
        (x, s) \<Rightarrow> (case_option Done GotError x, ob, s))"
| "call bd (CallCloseConfig i) (ob, s) =
     (case b_CloseConfig bd (field (configs ob) i) s of
        (u, s) \<Rightarrow> (Done, ob\<lparr>configs := (configs ob)[i := None]\<rparr>, s))"
| "call bd (CallCloseDef i) (ob, s) =
     (case b_CloseDef bd (field (defs ob) i) s of
        (u, s) \<Rightarrow> (Done, ob\<lparr>defs := (defs ob)[i := None]\<rparr>, s))"
| "call bd (CallCloseResource i) (ob, s) =
     (case b_CloseResource bd (field (resources ob) i) s of
        (u, s) \<Rightarrow> (Done, ob\<lparr>resources := (resources ob)[i := None]\<rparr>, s))"

fun calls :: "'s binding \<Rightarrow> bcall list \<Rightarrow> objects \<times> 's \<Rightarrow> bresult list \<times> objects \<times> 's" where
  "calls bd [] st = ([], st)"
| "calls bd (c # cs) st =
     (case call bd c st of (r, st) \<Rightarrow> case calls bd cs st of (rs, st) \<Rightarrow> (r # rs, st))"

subsection \<open>Simulation of bindings\<close>

text \<open>The same result, and states that are related again.\<close>

definition agree :: "('s \<Rightarrow> 't \<Rightarrow> bool) \<Rightarrow> 'x \<times> 's \<Rightarrow> 'x \<times> 't \<Rightarrow> bool" where
  "agree R r r' = (fst r = fst r' \<and> R (snd r) (snd r'))"

lemma agree_pass:
  "agree R r r' \<Longrightarrow> agree (rel_prod (=) R) (case r of (x, s) \<Rightarrow> (f x, ob, s)) (case r' of (x, s) \<Rightarrow> (f x, ob, s))"
  by (cases r; cases r') (simp add: agree_def)

lemma agree_made:
  "agree R r r' \<Longrightarrow> agree (rel_prod (=) R)
     (case r of (Inl e, s) \<Rightarrow> (GotError e, ob, s) | (Inr h, s) \<Rightarrow> (GotObject n, f h, s))
     (case r' of (Inl e, s) \<Rightarrow> (GotError e, ob, s) | (Inr h, s) \<Rightarrow> (GotObject n, f h, s))"
  by (cases r; cases r'; cases "fst r") (simp_all add: agree_def)

locale simulation =
  fixes hi :: "'s binding" and lo :: "'t binding" and R :: "'s \<Rightarrow> 't \<Rightarrow> bool"
  assumes LoadConfig_sim: "R s t \<Longrightarrow> agree R (b_LoadConfig hi p s) (b_LoadConfig lo p t)"
    and ResourceDef_sim: "R s t \<Longrightarrow> agree R (b_ResourceDef hi h p s) (b_ResourceDef lo h p t)"
    and NewResource_sim: "R s t \<Longrightarrow> agree R (b_NewResource hi p n s) (b_NewResource lo p n t)"
    and Type_sim: "R s t \<Longrightarrow> agree R (b_Type hi h s) (b_Type lo h t)"
    and TypeString_sim: "R s t \<Longrightarrow> agree R (b_TypeString hi h s) (b_TypeString lo h t)"
    and Environments_sim: "R s t \<Longrightarrow> agree R (b_Environments hi h s) (b_Environments lo h t)"
    and IsAccessible_sim: "R s t \<Longrightarrow> agree R (b_IsAccessible hi h s) (b_IsAccessible lo h t)"
    and Acquire_sim: "R s t \<Longrightarrow> agree R (b_Acquire hi h s) (b_Acquire lo h t)"
    and Release_sim: "R s t \<Longrightarrow> agree R (b_Release hi h p s) (b_Release lo h p t)"
    and CloseConfig_sim: "R s t \<Longrightarrow> agree R (b_CloseConfig hi h s) (b_CloseConfig lo h t)"
    and CloseDef_sim: "R s t \<Longrightarrow> agree R (b_CloseDef hi h s) (b_CloseDef lo h t)"
    and CloseResource_sim: "R s t \<Longrightarrow> agree R (b_CloseResource hi h s) (b_CloseResource lo h t)"
begin

lemma call_sim: "R s t \<Longrightarrow> agree (rel_prod (=) R) (call hi c (ob, s)) (call lo c (ob, t))"
proof -
  assume R: "R s t"
  note sims = LoadConfig_sim ResourceDef_sim NewResource_sim Type_sim TypeString_sim Environments_sim
    IsAccessible_sim Acquire_sim Release_sim CloseConfig_sim CloseDef_sim CloseResource_sim
  show ?thesis by (cases c) (simp_all add: agree_pass agree_made sims [OF R])
qed

lemma calls_sim: "R s t \<Longrightarrow> agree (rel_prod (=) R) (calls hi cs (ob, s)) (calls lo cs (ob, t))"
proof (induction cs arbitrary: ob s t)
  case (Cons c cs)
  obtain r ob1 s1 r' ob2 t1 where 1: "call hi c (ob, s) = (r, ob1, s1)" "call lo c (ob, t) = (r', ob2, t1)"
    by (metis prod.exhaust)
  have "r = r'" "ob1 = ob2" "R s1 t1" using call_sim [OF Cons.prems, of c ob] 1 by (simp_all add: agree_def)
  with Cons.IH [of s1 t1 ob1] 1 show ?case by (auto simp: agree_def split: prod.splits)
qed (simp add: agree_def)

end

text \<open>
  The world is the same; the memory is sound and has what it had at the start, and nothing more
  if the library hands out tokens only when it reports success.
\<close>

definition mirrored :: "'q capi \<Rightarrow> cmem \<Rightarrow> 'q world \<Rightarrow> 'q cstate \<Rightarrow> bool" where
  "mirrored api m0 w st = (fst st = w \<and> mem_ok (snd st) \<and> heap m0 \<subseteq>\<^sub>m heap (snd st) \<and>
     (token_on_success api \<longrightarrow> heap (snd st) = heap m0))"

lemma restored_agree:
  assumes "mirrored api m0 w st" "\<And>m. mem_ok m \<Longrightarrow> restored m r (f (w, m))"
  shows "agree (mirrored api m0) r (f st)"
  using assms(1) assms(2) [of "snd st"]
  by (cases st) (auto simp: restored_def agree_def mirrored_def same_mem_def)

lemma Acquire_agree:
  assumes "mirrored api m0 w st"
  shows "agree (mirrored api m0) (Acquire (Real api) r w) (cgo_Acquire api r st)"
proof -
  obtain m where st: "st = (w, m)" and m: "mem_ok m" "heap m0 \<subseteq>\<^sub>m heap m" using assms by (cases st) (simp add: mirrored_def)
  obtain x w' m' where a: "cgo_Acquire api r (w, m) = (x, w', m')" "Acquire (Real api) r w = (x, w')" "mem_ok m'"
    "same_mem m m' \<or> (\<exists>n t q. r = Some n \<and> c_acquire api (penv w) n (lib w) = ((False, Some t), q) \<and>
       heap m' = (heap m)(brk m \<mapsto> \<lparr>cbytes = t @ [NUL], cowner = QrmiAlloc\<rparr>))"
    using cgo_Acquire_outcome [OF m(1)] by blast
  have "heap m (brk m) = None" using m(1) by (simp add: mem_ok_def)
  then have "heap m0 \<subseteq>\<^sub>m (heap m)(brk m \<mapsto> b)" for b
    using m(2) by (force simp: map_le_def)
  moreover have "token_on_success api \<Longrightarrow> same_mem m m'"
    using cgo_Acquire_restored [OF m(1), of api r w] a(1) by (simp add: restored_def)
  ultimately show ?thesis using assms a m(2) by (auto simp: st agree_def mirrored_def same_mem_def)
qed

lemma agree_same:
  "mirrored api m0 w st \<Longrightarrow> agree (mirrored api m0) (f w, g w) (case st of (w, m) \<Rightarrow> (f w, g w, m))"
  by (cases st) (simp add: agree_def mirrored_def)

interpretation cgo: simulation "go_binding (Real api)" "cgo_binding api" "mirrored api m0" for api m0
proof unfold_locales
  note eqs = go_binding_def cgo_binding_def binding.simps
  fix w :: "'a world" and st n p t assume m: "mirrored api m0 w st"
  note restored = restored_agree [OF m]
  show "agree (mirrored api m0) (b_LoadConfig (go_binding (Real api)) p w) (b_LoadConfig (cgo_binding api) p st)"
    unfolding eqs by (rule restored) (rule cgo_LoadConfig_restored)
  show "agree (mirrored api m0) (b_ResourceDef (go_binding (Real api)) n p w) (b_ResourceDef (cgo_binding api) n p st)"
    unfolding eqs by (rule restored) (rule cgo_ResourceDef_restored)
  show "agree (mirrored api m0) (b_NewResource (go_binding (Real api)) p t w) (b_NewResource (cgo_binding api) p t st)"
    unfolding eqs by (rule restored) (rule cgo_NewResource_restored)
  show "agree (mirrored api m0) (b_TypeString (go_binding (Real api)) n w) (b_TypeString (cgo_binding api) n st)"
    unfolding eqs by (rule restored) (rule cgo_TypeString_restored)
  show "agree (mirrored api m0) (b_Environments (go_binding (Real api)) n w) (b_Environments (cgo_binding api) n st)"
    unfolding eqs by (rule restored) (rule cgo_Environments_restored)
  show "agree (mirrored api m0) (b_IsAccessible (go_binding (Real api)) n w) (b_IsAccessible (cgo_binding api) n st)"
    unfolding eqs by (rule restored) (rule cgo_IsAccessible_restored)
  show "agree (mirrored api m0) (b_Acquire (go_binding (Real api)) n w) (b_Acquire (cgo_binding api) n st)"
    unfolding eqs using m by (rule Acquire_agree)
  show "agree (mirrored api m0) (b_Release (go_binding (Real api)) n p w) (b_Release (cgo_binding api) n p st)"
    unfolding eqs by (rule restored) (rule cgo_Release_restored)
qed (simp_all add: go_binding_def cgo_binding_def agree_same agree_same [of _ _ _ _ "\<lambda>w. ()"] agree_same [of _ _ _ _ _ "\<lambda>w. w"])

end
