(* ===== verification/Handle_Safety.thy ===== *)
theory Handle_Safety
  imports Cgo_Client
begin

text \<open>
  What a program can do to the handles of libqrmi: in the calls it causes, in whatever order it
  uses, closes and closes again its objects, every handle that is used, read or freed is open,
  and the handles open at the end are those of the objects that were not closed.
\<close>

subsection \<open>The open handles of a trace\<close>

text \<open>\<open>open_after hs es\<close>: the handles open after the trace, from \<open>hs\<close> on; \<open>None\<close> if it used or freed one that was not open.\<close>

definition freed :: "handle \<Rightarrow> handle multiset \<Rightarrow> handle multiset option" where
  "freed x hs = (if x \<in># hs then Some (hs - {#x#}) else None)"

definition used :: "handle \<Rightarrow> handle multiset \<Rightarrow> handle multiset option" where
  "used x hs = (if x \<in># hs then Some hs else None)"

definition open_step :: "qevent \<Rightarrow> handle multiset \<Rightarrow> handle multiset option" where
  "open_step e hs =
     (case e of
        QConfigLoad n \<Rightarrow> Some (add_mset (HConfig n) hs)
      | QDefGet n \<Rightarrow> Some (add_mset (HDef n) hs)
      | QResourceNew n _ _ \<Rightarrow> Some (add_mset (HResource n) hs)
      | QConfigFree n \<Rightarrow> freed (HConfig n) hs
      | QDefFree n \<Rightarrow> freed (HDef n) hs
      | QResourceFree n \<Rightarrow> freed (HResource n) hs
      | QAccessible n _ \<Rightarrow> used (HResource n) hs
      | QAcquire n _ \<Rightarrow> used (HResource n) hs
      | QRelease n _ _ \<Rightarrow> used (HResource n) hs)"

fun open_after :: "handle multiset \<Rightarrow> qevent list \<Rightarrow> handle multiset option" where
  "open_after hs [] = Some hs"
| "open_after hs (e # es) = (case open_step e hs of None \<Rightarrow> None | Some hs \<Rightarrow> open_after hs es)"

lemma open_after_append:
  "open_after hs es = Some hs' \<Longrightarrow> open_after hs (es @ ds) = open_after hs' ds"
  by (induction es arbitrary: hs) (auto split: option.splits)

text \<open>The handles in the fields of a list of objects.\<close>

definition held :: "nat option list \<Rightarrow> nat multiset" where
  "held l = image_mset the (filter_mset (\<lambda>c. c \<noteq> None) (mset l))"

definition open_handles :: "objects \<Rightarrow> handle multiset" where
  "open_handles ob = image_mset HConfig (held (configs ob)) + image_mset HDef (held (defs ob)) +
     image_mset HResource (held (resources ob))"

lemma held_snoc: "held (l @ [Some n]) = add_mset n (held l)" "held (l @ [None]) = held l"
  by (simp_all add: held_def)

lemma field_held: "field l i = Some n \<Longrightarrow> n \<in># held l"
  by (force simp: field_def held_def split: if_splits intro: nth_mem)

lemma held_close: "held (l[i := None]) = (case field l i of None \<Rightarrow> held l | Some n \<Rightarrow> held l - {#n#})"
proof (cases "i < length l")
  case True
  then have u: "mset (l[i := None]) = add_mset None (mset l - {#l ! i#})" by (rule mset_update)
  have "mset l = add_mset (l ! i) (mset l - {#l ! i#})" using True by simp
  then have "held l = image_mset the (filter_mset (\<lambda>c. c \<noteq> None) (add_mset (l ! i) (mset l - {#l ! i#})))"
    by (simp add: held_def)
  then show ?thesis using True u by (cases "l ! i") (simp_all add: held_def field_def)
qed (simp add: field_def list_update_beyond)

subsection \<open>One call\<close>

definition keeps_open :: "objects \<times> 'q world \<Rightarrow> objects \<times> 'q world \<Rightarrow> bool" where
  "keeps_open st st' = (\<exists>es. qlog (snd st') = qlog (snd st) @ es \<and>
     open_after (open_handles (fst st)) es = Some (open_handles (fst st')))"

lemma keeps_open_trans: "keeps_open a b \<Longrightarrow> keeps_open b c \<Longrightarrow> keeps_open a c"
  unfolding keeps_open_def by (metis append_assoc open_after_append)

lemma keeps_open_same: "qlog w' = qlog w \<Longrightarrow> keeps_open (ob, w) (ob, w')"
  by (simp add: keeps_open_def)

lemma keeps_open_event:
  "lib_call [e] w w' \<Longrightarrow> open_step e (open_handles ob) = Some (open_handles ob') \<Longrightarrow> keeps_open (ob, w) (ob', w')"
  by (auto simp: keeps_open_def dest: lib_call_qlog)

lemma lib_call_none: "lib_call [] w w' \<Longrightarrow> keeps_open (ob, w) (ob, w')"
  using lib_call_qlog by (fastforce intro: keeps_open_same)

lemma used_resource: "field (resources ob) i = Some n \<Longrightarrow> used (HResource n) (open_handles ob) = Some (open_handles ob)"
  by (auto simp: used_def open_handles_def dest: field_held)

lemma freed_handles:
  "field (configs ob) i = Some n \<Longrightarrow>
     freed (HConfig n) (open_handles ob) = Some (open_handles (ob\<lparr>configs := (configs ob)[i := None]\<rparr>))"
  "field (defs ob) i = Some n \<Longrightarrow>
     freed (HDef n) (open_handles ob) = Some (open_handles (ob\<lparr>defs := (defs ob)[i := None]\<rparr>))"
  "field (resources ob) i = Some n \<Longrightarrow>
     freed (HResource n) (open_handles ob) = Some (open_handles (ob\<lparr>resources := (resources ob)[i := None]\<rparr>))"
  by (auto simp: freed_def open_handles_def held_close image_mset_Diff dest: field_held)

lemma closed_configs: "keeps_open (ob, w) (ob\<lparr>configs := (configs ob)[i := None]\<rparr>, Config_Close (Real api) (field (configs ob) i) w)"
proof (cases "field (configs ob) i")
  case None
  then show ?thesis by (simp add: Config_Close_def keeps_open_def open_handles_def held_close)
next
  case (Some n)
  then show ?thesis using Config_Close_call freed_handles(1) [OF Some]
    by (auto simp: open_step_def intro!: keeps_open_event)
qed

lemma closed_defs: "keeps_open (ob, w) (ob\<lparr>defs := (defs ob)[i := None]\<rparr>, Def_Close (Real api) (field (defs ob) i) w)"
proof (cases "field (defs ob) i")
  case None
  then show ?thesis by (simp add: Def_Close_def keeps_open_def open_handles_def held_close)
next
  case (Some n)
  then show ?thesis using Def_Close_call freed_handles(2) [OF Some]
    by (auto simp: open_step_def intro!: keeps_open_event)
qed

lemma closed_resources:
  "keeps_open (ob, w) (ob\<lparr>resources := (resources ob)[i := None]\<rparr>, Resource_Close (Real api) (field (resources ob) i) w)"
proof (cases "field (resources ob) i")
  case None
  then show ?thesis by (simp add: Resource_Close_def keeps_open_def open_handles_def held_close)
next
  case (Some n)
  then show ?thesis using Resource_Close_call freed_handles(3) [OF Some]
    by (auto simp: open_step_def intro!: keeps_open_event)
qed

lemma call_keeps_open:
  assumes "call (go_binding (Real api)) c (ob, w) = (r, ob', w')"
  shows "keeps_open (ob, w) (ob', w')"
proof (cases c)
  case (CallLoadConfig p)
  obtain x w1 where 1: "LoadConfig (Real api) p w = (x, w1)" by fastforce
  show ?thesis
  proof (cases x)
    case (Inl e)
    then show ?thesis using assms 1 Inl lib_call_none [OF LoadConfig_Inl [OF 1 [unfolded Inl]], of ob] by (auto simp: CallLoadConfig go_binding_def)
  next
    case (Inr k)
    then obtain n where "k = Some n" "lib_call [QConfigLoad n] w w1" using LoadConfig_Inr 1 by blast
    then show ?thesis using assms 1 Inr
      by (auto simp: CallLoadConfig go_binding_def open_step_def open_handles_def held_snoc intro!: keeps_open_event)
  qed
next
  case (CallResourceDef i p)
  obtain x w1 where 1: "Config_ResourceDef (Real api) (field (configs ob) i) p w = (x, w1)" by fastforce
  show ?thesis
  proof (cases x)
    case (Inl e)
    then show ?thesis using assms 1 Inl lib_call_none [OF ResourceDef_Inl [OF 1 [unfolded Inl]], of ob] by (auto simp: CallResourceDef go_binding_def)
  next
    case (Inr k)
    then obtain n where "k = Some n" "lib_call [QDefGet n] w w1" using ResourceDef_Inr 1 by blast
    then show ?thesis using assms 1 Inr
      by (auto simp: CallResourceDef go_binding_def open_step_def open_handles_def held_snoc intro!: keeps_open_event)
  qed
next
  case (CallNewResource p t)
  obtain x w1 where 1: "NewResource (Real api) p t w = (x, w1)" by fastforce
  show ?thesis
  proof (cases x)
    case (Inl e)
    then show ?thesis using assms 1 Inl lib_call_none [OF NewResource_Inl [OF 1 [unfolded Inl]], of ob] by (auto simp: CallNewResource go_binding_def)
  next
    case (Inr k)
    then obtain n where "k = Some n" "lib_call [QResourceNew n (c_string p) (ucast t)] w w1" using NewResource_Inr 1 by blast
    then show ?thesis using assms 1 Inr
      by (auto simp: CallNewResource go_binding_def open_step_def open_handles_def held_snoc intro!: keeps_open_event)
  qed
next
  case (CallIsAccessible i)
  obtain x w1 where 1: "IsAccessible (Real api) (field (resources ob) i) w = (x, w1)" by fastforce
  have "keeps_open (ob, w) (ob, w1)"
  proof (cases "field (resources ob) i")
    case None
    then show ?thesis using 1 by (auto simp: IsAccessible_def keeps_open_same split: build.splits)
  next
    case (Some n)
    then show ?thesis using IsAccessible_call [OF 1 [unfolded Some]] used_resource [OF Some]
      by (auto simp: open_step_def intro: lib_call_none keeps_open_event split: sum.splits)
  qed
  then show ?thesis using assms 1 by (simp add: CallIsAccessible go_binding_def)
next
  case (CallAcquire i)
  obtain x w1 where 1: "Acquire (Real api) (field (resources ob) i) w = (x, w1)" by fastforce
  have "keeps_open (ob, w) (ob, w1)"
  proof (cases x)
    case (Inl e)
    then show ?thesis using Acquire_Inl 1 lib_call_none by blast
  next
    case (Inr t)
    then obtain n where n: "field (resources ob) i = Some n"
      using 1 by (auto simp: Acquire_def split: build.splits option.splits)
    have "lib_call [QAcquire n t] w w1" using Acquire_Inr [OF 1 [unfolded n Inr]] by simp
    then show ?thesis using used_resource [OF n]
      by (auto simp: open_step_def intro!: keeps_open_event)
  qed
  then show ?thesis using assms 1 by (simp add: CallAcquire go_binding_def)
next
  case (CallRelease i t)
  obtain x w1 where 1: "Release (Real api) (field (resources ob) i) t w = (x, w1)" by fastforce
  have "keeps_open (ob, w) (ob, w1)"
  proof (cases "field (resources ob) i")
    case None
    then show ?thesis using 1 by (simp add: Release_def keeps_open_same)
  next
    case (Some n)
    then show ?thesis using Release_call [OF 1 [unfolded Some]] used_resource [OF Some]
      by (auto simp: open_step_def intro!: keeps_open_event)
  qed
  then show ?thesis using assms 1 by (simp add: CallRelease go_binding_def)
next
  case (CallCloseConfig i)
  then show ?thesis using assms closed_configs [of ob w i api] by (simp add: go_binding_def)
next
  case (CallCloseDef i)
  then show ?thesis using assms closed_defs [of ob w i api] by (simp add: go_binding_def)
next
  case (CallCloseResource i)
  then show ?thesis using assms closed_resources [of ob w i api] by (simp add: go_binding_def)
qed (use assms in \<open>auto simp: go_binding_def keeps_open_same\<close>)

lemma calls_keep_open: "calls (go_binding (Real api)) cs (ob, w) = (rs, ob', w') \<Longrightarrow> keeps_open (ob, w) (ob', w')"
proof (induction cs arbitrary: ob w rs)
  case (Cons c cs)
  obtain r ob1 w1 where 1: "call (go_binding (Real api)) c (ob, w) = (r, ob1, w1)" by (metis prod.exhaust)
  obtain rs' where "calls (go_binding (Real api)) cs (ob1, w1) = (rs', ob', w')"
    using Cons.prems 1 by (auto split: prod.splits)
  then show ?case using Cons.IH call_keeps_open [OF 1] keeps_open_trans by blast
qed (simp add: keeps_open_same)

subsection \<open>A library that must not be given other handles\<close>

text \<open>
  The trace does not show the handles a call only reads, so the library itself is watched: \<open>guard
  api bad\<close> keeps the handles that are open beside the state, and is \<open>api\<close> on those and the
  arbitrary library \<open>bad\<close> on all others. A program that behaves the same on it never uses a
  handle that is not open, neither in a call nor when it reads a resource definition.
\<close>

definition pick :: "'q capi \<Rightarrow> 'q capi \<Rightarrow> handle \<Rightarrow> handle multiset \<Rightarrow> 'q capi" where
  "pick api bad x hs = (if x \<in># hs then api else bad)"

definition opened :: "(nat \<Rightarrow> handle) \<Rightarrow> nat option \<Rightarrow> handle multiset \<Rightarrow> handle multiset" where
  "opened mk r hs = (case r of None \<Rightarrow> hs | Some n \<Rightarrow> add_mset (mk n) hs)"

definition guard :: "'q capi \<Rightarrow> 'q capi \<Rightarrow> ('q \<times> handle multiset) capi" where
  "guard api bad =
     \<lparr>c_config_load = (\<lambda>e p (q, hs). case c_config_load api e p q of (r, q) \<Rightarrow> (r, q, opened HConfig r hs)),
      c_config_free = (\<lambda>c (q, hs). (c_config_free (pick api bad (HConfig c) hs) c q, hs - {#HConfig c#})),
      c_def_get = (\<lambda>c nm (q, hs). case c_def_get (pick api bad (HConfig c) hs) c nm q of (r, q) \<Rightarrow>
        (r, q, opened HDef r hs)),
      c_def_free = (\<lambda>d (q, hs). (c_def_free (pick api bad (HDef d) hs) d q, hs - {#HDef d#})),
      c_def_type = (\<lambda>d (q, hs). c_def_type (pick api bad (HDef d) hs) d q),
      c_def_envs = (\<lambda>d (q, hs). c_def_envs (pick api bad (HDef d) hs) d q),
      c_type_to_str = (\<lambda>t (q, hs). c_type_to_str api t q),
      c_resource_new = (\<lambda>e nm t (q, hs). case c_resource_new api e nm t q of (r, q) \<Rightarrow> (r, q, opened HResource r hs)),
      c_resource_free = (\<lambda>r (q, hs). (c_resource_free (pick api bad (HResource r) hs) r q, hs - {#HResource r#})),
      c_is_accessible = (\<lambda>e r (q, hs). case c_is_accessible (pick api bad (HResource r) hs) e r q of (x, q) \<Rightarrow> (x, q, hs)),
      c_acquire = (\<lambda>e r (q, hs). case c_acquire (pick api bad (HResource r) hs) e r q of (x, q) \<Rightarrow> (x, q, hs)),
      c_release = (\<lambda>e r t (q, hs). case c_release (pick api bad (HResource r) hs) e r t q of (x, q) \<Rightarrow> (x, q, hs)),
      c_last_error = (\<lambda>(q, hs). c_last_error api q),
      c_logged = (\<lambda>(q, hs) (q', hs'). c_logged api q q')\<rparr>"

text \<open>The same world, with the open handles beside the state of the library.\<close>

definition watched :: "handle multiset \<Rightarrow> 'q world \<Rightarrow> ('q \<times> handle multiset) world" where
  "watched hs w = \<lparr>files = files w, hist = hist w, penv = penv w, nsys = nsys w, logs = logs w, jenv = jenv w,
     logcb = logcb w, lib = (lib w, hs), qlog = qlog w\<rparr>"

lemma watched_fields [simp]:
  "penv (watched hs w) = penv w" "lib (watched hs w) = (lib w, hs)" "logcb (watched hs w) = logcb w"
  by (simp_all add: watched_def)

lemma watched_event [simp]: "event e (watched hs w) = watched hs (event e w)"
  by (simp add: watched_def event_def)

lemma watched_callback: "qrmiGoLogCallback r (watched hs w) = watched hs (qrmiGoLogCallback r w)"
  by (simp add: qrmiGoLogCallback_def QRMILog_def Let_def log_info_def log_warn_def log_error_def log_write_def
      watched_def split: option.split prod.split)

lemma watched_in_lib [simp]:
  "in_lib (guard api bad) (q, hs') (watched hs w) = watched hs' (in_lib api q w)"
proof -
  have "foldl (\<lambda>w r. qrmiGoLogCallback r w) (watched hs' v) rs = watched hs' (foldl (\<lambda>w r. qrmiGoLogCallback r w) v rs)" for v rs
    by (induction rs arbitrary: v) (simp_all add: watched_callback)
  moreover have "(watched hs w)\<lparr>lib := (q, hs')\<rparr> = watched hs' (w\<lparr>lib := q\<rparr>)" by (simp add: watched_def)
  ultimately show ?thesis by (simp add: in_lib_def Let_def guard_def)
qed

lemma watched_lastError [simp]: "lastError (guard api bad) (watched hs w) = lastError api w"
  by (simp add: lastError_def guard_def)

definition after_make :: "(nat \<Rightarrow> handle) \<Rightarrow> gerr + nat option \<Rightarrow> handle multiset \<Rightarrow> handle multiset" where
  "after_make mk r hs = (case r of Inl e \<Rightarrow> hs | Inr x \<Rightarrow> opened mk x hs)"

text \<open>The handle a method was given is open; \<open>None\<close> is a closed object.\<close>

definition is_open :: "(nat \<Rightarrow> handle) \<Rightarrow> nat option \<Rightarrow> handle multiset \<Rightarrow> bool" where
  "is_open mk x hs = (case x of None \<Rightarrow> True | Some n \<Rightarrow> mk n \<in># hs)"

definition after_close :: "(nat \<Rightarrow> handle) \<Rightarrow> nat option \<Rightarrow> handle multiset \<Rightarrow> handle multiset" where
  "after_close mk x hs = (case x of None \<Rightarrow> hs | Some n \<Rightarrow> hs - {#mk n#})"

lemma guard_open:
  "c_config_load (guard api bad) e p (q, hs) = (case c_config_load api e p q of (r, q) \<Rightarrow> (r, q, opened HConfig r hs))"
  "c_resource_new (guard api bad) e p t (q, hs) = (case c_resource_new api e p t q of (r, q) \<Rightarrow> (r, q, opened HResource r hs))"
  "c_type_to_str (guard api bad) t (q, hs) = c_type_to_str api t q"
  "HConfig n \<in># hs \<Longrightarrow> c_def_get (guard api bad) n p (q, hs) = (case c_def_get api n p q of (r, q) \<Rightarrow> (r, q, opened HDef r hs))"
  "HConfig n \<in># hs \<Longrightarrow> c_config_free (guard api bad) n (q, hs) = (c_config_free api n q, hs - {#HConfig n#})"
  "HDef n \<in># hs \<Longrightarrow> c_def_free (guard api bad) n (q, hs) = (c_def_free api n q, hs - {#HDef n#})"
  "HDef n \<in># hs \<Longrightarrow> c_def_type (guard api bad) n (q, hs) = c_def_type api n q"
  "HDef n \<in># hs \<Longrightarrow> c_def_envs (guard api bad) n (q, hs) = c_def_envs api n q"
  "HResource n \<in># hs \<Longrightarrow> c_resource_free (guard api bad) n (q, hs) = (c_resource_free api n q, hs - {#HResource n#})"
  "HResource n \<in># hs \<Longrightarrow> c_is_accessible (guard api bad) e n (q, hs) = (case c_is_accessible api e n q of (x, q) \<Rightarrow> (x, q, hs))"
  "HResource n \<in># hs \<Longrightarrow> c_acquire (guard api bad) e n (q, hs) = (case c_acquire api e n q of (y, q) \<Rightarrow> (y, q, hs))"
  "HResource n \<in># hs \<Longrightarrow> c_release (guard api bad) e n tok (q, hs) = (case c_release api e n tok q of (z, q) \<Rightarrow> (z, q, hs))"
  by (simp_all add: guard_def pick_def)

lemma guarded_makes:
  "LoadConfig (Real (guard api bad)) p (watched hs w) =
     (case LoadConfig (Real api) p w of (r, w) \<Rightarrow> (r, watched (after_make HConfig r hs) w))"
  "is_open HConfig c hs \<Longrightarrow> Config_ResourceDef (Real (guard api bad)) c p (watched hs w) =
     (case Config_ResourceDef (Real api) c p w of (r, w) \<Rightarrow> (r, watched (after_make HDef r hs) w))"
  "NewResource (Real (guard api bad)) p t (watched hs w) =
     (case NewResource (Real api) p t w of (r, w) \<Rightarrow> (r, watched (after_make HResource r hs) w))"
  by (cases c; simp add: LoadConfig_def Config_ResourceDef_def NewResource_def is_open_def after_make_def opened_def
      guard_open Let_def split: option.split prod.split; fail)+

lemma guarded_reads:
  "is_open HDef d hs \<Longrightarrow> Def_Type (Real (guard api bad)) d (watched hs w) = Def_Type (Real api) d w"
  "is_open HDef d hs \<Longrightarrow> Def_TypeString (Real (guard api bad)) d (watched hs w) = Def_TypeString (Real api) d w"
  "is_open HDef d hs \<Longrightarrow> Def_Environments (Real (guard api bad)) d (watched hs w) = Def_Environments (Real api) d w"
  by (cases d; simp add: Def_Type_def Def_TypeString_def Def_Environments_def is_open_def guard_open; fail)+

lemma guarded_uses:
  "is_open HResource r hs \<Longrightarrow> IsAccessible (Real (guard api bad)) r (watched hs w) =
     (case IsAccessible (Real api) r w of (x, w) \<Rightarrow> (x, watched hs w))"
  "is_open HResource r hs \<Longrightarrow> Acquire (Real (guard api bad)) r (watched hs w) =
     (case Acquire (Real api) r w of (y, w) \<Rightarrow> (y, watched hs w))"
  "is_open HResource r hs \<Longrightarrow> Release (Real (guard api bad)) r tok (watched hs w) =
     (case Release (Real api) r tok w of (z, w) \<Rightarrow> (z, watched hs w))"
  by (cases r; simp add: IsAccessible_def Acquire_def Release_def is_open_def guard_open Let_def
      split: option.split prod.split; fail)+

lemma guarded_closes:
  "is_open HConfig x hs \<Longrightarrow> Config_Close (Real (guard api bad)) x (watched hs w) =
     watched (after_close HConfig x hs) (Config_Close (Real api) x w)"
  "is_open HDef x hs \<Longrightarrow> Def_Close (Real (guard api bad)) x (watched hs w) =
     watched (after_close HDef x hs) (Def_Close (Real api) x w)"
  "is_open HResource x hs \<Longrightarrow> Resource_Close (Real (guard api bad)) x (watched hs w) =
     watched (after_close HResource x hs) (Resource_Close (Real api) x w)"
  by (cases x; simp add: Config_Close_def Def_Close_def Resource_Close_def is_open_def after_close_def guard_open; fail)+

subsection \<open>Programs on the watched library\<close>

lemma field_open:
  "is_open HConfig (field (configs ob) i) (open_handles ob)" "is_open HDef (field (defs ob) i) (open_handles ob)"
  "is_open HResource (field (resources ob) i) (open_handles ob)"
  by (auto simp: is_open_def open_handles_def dest: field_held split: option.split)

lemma made_open:
  "after_make HConfig (Inr c) (open_handles ob) = open_handles (ob\<lparr>configs := configs ob @ [c]\<rparr>)"
  "after_make HDef (Inr c) (open_handles ob) = open_handles (ob\<lparr>defs := defs ob @ [c]\<rparr>)"
  "after_make HResource (Inr c) (open_handles ob) = open_handles (ob\<lparr>resources := resources ob @ [c]\<rparr>)"
  "after_make mk (Inl e) hs = hs"
  by (simp_all add: after_make_def opened_def open_handles_def held_snoc split: option.split)

lemma closed_open:
  "after_close HConfig (field (configs ob) i) (open_handles ob) = open_handles (ob\<lparr>configs := (configs ob)[i := None]\<rparr>)"
  "after_close HDef (field (defs ob) i) (open_handles ob) = open_handles (ob\<lparr>defs := (defs ob)[i := None]\<rparr>)"
  "after_close HResource (field (resources ob) i) (open_handles ob) =
     open_handles (ob\<lparr>resources := (resources ob)[i := None]\<rparr>)"
  by (auto simp: after_close_def open_handles_def held_close image_mset_Diff dest: field_held split: option.split)

lemma call_guarded:
  "call (go_binding (Real (guard api bad))) c (ob, watched (open_handles ob) w) =
     (case call (go_binding (Real api)) c (ob, w) of (r, ob, w) \<Rightarrow> (r, ob, watched (open_handles ob) w))"
  by (cases c)
    (simp_all add: go_binding_def guarded_makes guarded_reads guarded_uses guarded_closes field_open made_open
      closed_open split: prod.split sum.split)

lemma calls_guarded:
  "calls (go_binding (Real (guard api bad))) cs (ob, watched (open_handles ob) w) =
     (case calls (go_binding (Real api)) cs (ob, w) of (rs, ob, w) \<Rightarrow> (rs, ob, watched (open_handles ob) w))"
  by (induction cs arbitrary: ob w) (simp_all add: call_guarded split: prod.split)

subsection \<open>Properties\<close>

text \<open>The objects, the world and the memory a program starts with.\<close>

definition fresh_mem :: cmem where
  "fresh_mem = \<lparr>heap = Map.empty, brk = 1, faulted = False\<rparr>"

text \<open>
  A library whose handles are the numbers from one on, that refuses an empty path, and that gives
  a token for handle 3 only.
\<close>

definition counting_api :: "nat capi" where
  "counting_api = \<lparr>c_config_load = (\<lambda>e p q. (if p = [] then None else Some q, Suc q)), c_config_free = (\<lambda>c q. q),
     c_def_get = (\<lambda>c nm q. (Some q, Suc q)), c_def_free = (\<lambda>d q. q),
     c_def_type = (\<lambda>d q. 3), c_def_envs = (\<lambda>d q. Some [(Some ''K'', Some ''v''), (None, Some ''x'')]),
     c_type_to_str = (\<lambda>t q. Some ''pasqal-cloud''), c_resource_new = (\<lambda>e nm t q. (Some q, Suc q)),
     c_resource_free = (\<lambda>r q. q), c_is_accessible = (\<lambda>e r q. ((True, True), q)),
     c_acquire = (\<lambda>e r q. if r = 3 then ((True, Some ''tok''), q) else ((False, None), q)), c_release = (\<lambda>e r t q. (True, q)),
     c_last_error = (\<lambda>q. Some ''no such file''), c_logged = (\<lambda>q q'. [])\<rparr>"

definition sample_calls :: "bcall list" where
  "sample_calls = [CallLoadConfig [], CallLoadConfig ''/c'', CallResourceDef 0 ''EMU'', CallTypeString 0, CallEnvironments 0,
     CallNewResource ''EMU'' 3, CallCloseDef 0, CallAcquire 0, CallRelease 0 ''tok'', CallCloseResource 0,
     CallCloseResource 0, CallAcquire 0, CallCloseConfig 0, CallResourceDef 0 ''EMU'',
     CallType 0, CallTypeString 0, CallEnvironments 0]"

text \<open>
  C22. The binding's use of C memory. Every program on the package, in any order of calls and with
  objects it has closed, gets the same results and has the same effect on the library and the process
  as without the C strings; no call reads or frees a string that is not allocated, or frees one with
  the other allocator; no string that was there is lost; and when the library hands out a token
  only when it reports success, every string that was made is freed.
\<close>

theorem cgo_memory_safe:
  assumes "calls (cgo_binding api) cs (ob, w, m) = (rs, ob', w', m')" "mem_ok m"
  shows "calls (go_binding (Real api)) cs (ob, w) = (rs, ob', w') \<and> \<not> faulted m' \<and> heap m \<subseteq>\<^sub>m heap m' \<and>
    (token_on_success api \<longrightarrow> heap m' = heap m)"
proof -
  have "mirrored api m w (w, m)" using assms(2) by (simp add: mirrored_def)
  from cgo.calls_sim [OF this, of cs ob] assms(1) show ?thesis
    by (cases "calls (go_binding (Real api)) cs (ob, w)") (auto simp: agree_def mirrored_def mem_ok_def)
qed

theorem cgo_memory_safe_witness:
  "heap (snd (snd (snd (calls (cgo_binding counting_api) sample_calls
     (no_objects, fresh_world Map.empty Map.empty 1, fresh_mem))))) = Map.empty"
proof -
  have "mem_ok fresh_mem" "token_on_success counting_api"
    by (simp_all add: mem_ok_def fresh_mem_def token_on_success_def counting_api_def)
  moreover obtain rs ob' w' m' where
    "calls (cgo_binding counting_api) sample_calls (no_objects, fresh_world Map.empty Map.empty 1, fresh_mem) = (rs, ob', w', m')"
    by (metis prod.exhaust)
  ultimately show ?thesis using cgo_memory_safe by (fastforce simp: fresh_mem_def)
qed

text \<open>
  C21. No program on the package, in whatever order it makes, uses, closes and closes again its
  objects, makes the library use, read or free a handle that is not open: with a library that may
  behave in any way at all on such a handle, the program has the same results and the same effect as
  with the real one. The handles open at its end are those of the objects it did not close, so a
  program that closes all its objects leaves none; and in the trace of its calls every handle that is
  used or freed is open.
\<close>

theorem handles_safe:
  assumes "calls (go_binding (Real api)) cs (no_objects, w) = (rs, ob, w')"
  shows "calls (go_binding (Real (guard api bad))) cs (no_objects, watched {#} w) = (rs, ob, watched (open_handles ob) w') \<and>
    (\<exists>es. qlog w' = qlog w @ es \<and> open_after {#} es = Some (open_handles ob)) \<and>
    (set (configs ob) \<union> set (defs ob) \<union> set (resources ob) \<subseteq> {None} \<longrightarrow> open_handles ob = {#})"
proof -
  have none: "open_handles no_objects = {#}" by (simp add: open_handles_def no_objects_def held_def)
  moreover have "\<exists>es. qlog w' = qlog w @ es \<and> open_after {#} es = Some (open_handles ob)"
    using calls_keep_open [OF assms] none by (simp add: keeps_open_def)
  moreover have "open_handles ob = {#}" if "set (configs ob) \<union> set (defs ob) \<union> set (resources ob) \<subseteq> {None}"
    using that by (auto simp: open_handles_def held_def filter_mset_eq_conv subset_iff)
  ultimately show ?thesis using calls_guarded [of api bad cs no_objects w] assms by simp
qed

text \<open>A library that gives other answers and loses its state whenever it is asked.\<close>

definition wild_api :: "nat capi" where
  "wild_api = counting_api\<lparr>c_config_free := (\<lambda>c q. 0), c_def_get := (\<lambda>c nm q. (None, 0)), c_def_free := (\<lambda>d q. 0),
     c_def_type := (\<lambda>d q. 9), c_def_envs := (\<lambda>d q. None), c_resource_free := (\<lambda>r q. 0),
     c_is_accessible := (\<lambda>e r q. ((False, False), 0)), c_acquire := (\<lambda>e r q. ((False, None), 0)),
     c_release := (\<lambda>e r t q. (False, 0))\<rparr>"

theorem handles_safe_witness:
  "snd (lib (snd (snd (calls (go_binding (Real (guard counting_api wild_api))) sample_calls
     (no_objects, watched {#} (fresh_world Map.empty Map.empty 1)))))) = {#}"
proof -
  let ?w = "fresh_world Map.empty Map.empty 1 :: nat world"
  obtain rs ob w' where r: "calls (go_binding (Real counting_api)) sample_calls (no_objects, ?w) = (rs, ob, w')"
    by (metis prod.exhaust)
  have "(case calls (go_binding (Real counting_api)) sample_calls (no_objects, ?w) of (rs, ob, w') \<Rightarrow>
      list_all (\<lambda>c. c = None) (configs ob @ defs ob @ resources ob))" by code_simp
  then have "set (configs ob) \<union> set (defs ob) \<union> set (resources ob) \<subseteq> {None}" unfolding r by (auto simp: list_all_iff)
  then show ?thesis using handles_safe [OF r, of wild_api] by simp
qed

end
