(* ===== verification/Prolog_Lists.thy ===== *)
theory Prolog_Lists
  imports Prolog
begin

text \<open>
  How the prolog reads the lists that the scheduler prints (\<open>fieldValue\<close> and \<open>resourceFromList\<close> of
  \<open>src/cmd/qrmi-ocs-prolog-go/main.go\<close>): a renderer of such lists and the proof that the values
  are read back.
\<close>

text \<open>
  What \<open>qstat -j\<close> and \<open>qconf -se\<close> print for a list of resources: \<open>key=value\<close> items with commas, over
  several lines; every line but the last ends in a comma, a blank and a backslash, the lines
  after the first are indented.
\<close>

definition plain_char :: "char \<Rightarrow> bool" where
  "plain_char c = (32 < (of_char c :: nat) \<and> (of_char c :: nat) < 127 \<and> c \<notin> set [CHR '','', CHR ''='', CHR 0x5C])"

definition plain_text :: "string \<Rightarrow> bool" where
  "plain_text s = (s \<noteq> [] \<and> list_all plain_char s)"

definition plain_items :: "(string \<times> string) list \<Rightarrow> bool" where
  "plain_items kvs = (kvs \<noteq> [] \<and> list_all (\<lambda>(k, v). plain_text k \<and> plain_text v) kvs)"

definition item_text :: "string \<times> string \<Rightarrow> string" where
  "item_text p = fst p @ CHR ''='' # snd p"

definition items_text :: "(string \<times> string) list \<Rightarrow> string" where
  "items_text kvs = join (CHR '','') (map item_text kvs)"

fun list_lines :: "string \<Rightarrow> string \<Rightarrow> (string \<times> string) list list \<Rightarrow> string list" where
  "list_lines pad indent [] = []"
| "list_lines pad indent [kvs] = [pad @ items_text kvs]"
| "list_lines pad indent (kvs # chunks) =
     (pad @ items_text kvs @ [CHR '','', SP, CHR 0x5C]) # list_lines indent indent chunks"

lemma plain_not_space:
  "\<forall>e \<in> set space_encs. e \<noteq> [] \<longrightarrow> \<not> plain_char (hd e) \<and> \<not> plain_char (last e)"
  by (simp add: space_encs_def plain_char_def)

lemma trim_space_plain: "list_all (\<lambda>c. plain_char c \<or> c = CHR ''='') s \<Longrightarrow> trim_space s = s"
proof -
  assume s: "list_all (\<lambda>c. plain_char c \<or> c = CHR ''='') s"
  have "\<forall>e \<in> set space_encs. e \<noteq> [] \<longrightarrow> hd e \<noteq> CHR ''='' \<and> last e \<noteq> CHR ''=''"
    by (simp add: space_encs_def)
  with s plain_not_space show ?thesis
    unfolding trim_space_def by (intro trim_enc_plain) (fastforce simp: list_all_iff)
qed

lemma sole_blank: "sole_enc space_encs SP" "sole_enc space_encs TAB"
  by code_simp+

lemma trim_space_SP: "trim_space (SP # s) = trim_space s"
  by (simp add: trim_space_def trim_enc_def trim_left_enc_sole sole_blank)

lemma item_plain: "plain_text k \<Longrightarrow> plain_text v \<Longrightarrow> list_all (\<lambda>c. plain_char c \<or> c = CHR ''='') (item_text (k, v))"
  by (auto simp: plain_text_def item_text_def list_all_iff)

lemma plain_charD: "plain_char c \<Longrightarrow> c \<noteq> CHR '','' \<and> c \<noteq> CHR ''='' \<and> c \<noteq> CHR 0x5C \<and> c \<noteq> LF \<and> c \<noteq> CR"
  by (auto simp: plain_char_def)

lemma item_no:
  assumes "plain_text k" "plain_text v"
  shows "CHR '','' \<notin> set (item_text (k, v)) \<and> CHR 0x5C \<notin> set (item_text (k, v)) \<and>
    LF \<notin> set (item_text (k, v)) \<and> CR \<notin> set (item_text (k, v))"
  using item_plain [OF assms] by (auto simp: list_all_iff dest: plain_charD)

lemma find_item_items:
  "list_all (\<lambda>(k, v). plain_text k \<and> plain_text v) kvs \<Longrightarrow>
   find_item (map item_text kvs @ rest) name = (case map_of kvs name of Some v \<Rightarrow> Some v | None \<Rightarrow> find_item rest name)"
proof (induction kvs)
  case (Cons p kvs)
  obtain k v where kv: "p = (k, v)" by fastforce
  with Cons.prems have p: "plain_text k" "plain_text v" by simp_all
  then have "trim_space (item_text (k, v)) = item_text (k, v)" "trim_space k = k" "trim_space v = v" "v \<noteq> []"
    using trim_space_plain [OF item_plain] by (auto simp: plain_text_def list_all_iff intro: trim_space_plain)
  moreover have "cut (CHR ''='') (item_text (k, v)) = (k, v, True)"
    using p by (auto simp: item_text_def plain_text_def list_all_iff dest: plain_charD intro: cut_at)
  ultimately show ?case using Cons kv by simp
qed simp

lemma find_item_SP: "find_item (split (CHR '','') (SP # s)) name = find_item (split (CHR '','') s) name"
  by (cases "split (CHR '','') s") (simp_all add: trim_space_SP)

text \<open>The list as one text.\<close>

fun chunks_text :: "(string \<times> string) list list \<Rightarrow> string" where
  "chunks_text [] = []"
| "chunks_text [kvs] = items_text kvs"
| "chunks_text (kvs # chunks) = items_text kvs @ CHR '','' # SP # chunks_text chunks"

lemma split_items:
  assumes "plain_items kvs"
  shows "split (CHR '','') (items_text kvs) = map item_text kvs"
  using assms unfolding items_text_def plain_items_def
  by (intro split_join) (auto simp: list_all_iff dest: item_no)

lemma resource_of_chunks:
  "list_all plain_items chunks \<Longrightarrow> resourceFromList (chunks_text chunks) name = map_of (concat chunks) name"
proof (induction chunks rule: chunks_text.induct)
  case (2 kvs)
  then show ?case using find_item_items [of kvs "[]" name]
    by (simp add: resourceFromList_def split_items plain_items_def split: option.split)
next
  case (3 kvs c cs)
  define t where "t = chunks_text (c # cs)"
  have t: "find_item (split (CHR '','') (SP # t)) name = map_of (concat (c # cs)) name"
    using 3 unfolding find_item_SP t_def resourceFromList_def by simp
  have kvs: "plain_items kvs" using 3 by simp
  have "split (CHR '','') (chunks_text (kvs # c # cs)) = map item_text kvs @ split (CHR '','') (SP # t)"
    using split_append_sep [of "CHR '',''" "items_text kvs" "SP # t"] split_items [OF kvs]
    by (simp add: t_def del: split.simps)
  then show ?case
    using find_item_items [of kvs "split (CHR '','') (SP # t)" name] kvs t
    by (simp add: resourceFromList_def plain_items_def map_add_def del: split.simps find_item.simps split: option.split)
qed (simp add: resourceFromList_def trim_space_plain cut_def)


subsection \<open>The lines of the output\<close>

definition blank_text :: "string \<Rightarrow> bool" where
  "blank_text s = list_all (\<lambda>c. c = SP \<or> c = TAB) s"

lemma edge_plain: "s \<noteq> [] \<Longrightarrow> plain_char (hd s) \<Longrightarrow> plain_char (last s) \<Longrightarrow> edge_free space_encs s"
  using plain_not_space unfolding edge_free_def by metis

lemma items_chars:
  assumes "kvs \<noteq> []" "list_all (\<lambda>(k, v). plain_text k \<and> plain_text v) kvs"
  shows "items_text kvs \<noteq> [] \<and> plain_char (hd (items_text kvs)) \<and> plain_char (last (items_text kvs)) \<and>
    (\<forall>c \<in> set (items_text kvs). plain_char c \<or> c = CHR ''='' \<or> c = CHR '','')"
  using assms
proof (induction kvs rule: list_nonempty_induct)
  case (single x)
  obtain k v where x: "x = (k, v)" by fastforce
  then have "plain_text k" "plain_text v" using single by simp_all
  then show ?case by (auto simp: x items_text_def item_text_def plain_text_def list_all_iff)
next
  case (cons x xs)
  obtain k v where x: "x = (k, v)" by fastforce
  have e: "items_text (x # xs) = k @ CHR ''='' # v @ CHR '','' # items_text xs"
    using cons(1) by (simp add: items_text_def join_Cons item_text_def x)
  have "plain_text k" "plain_text v" using cons.prems x by simp_all
  then show ?case using cons unfolding e by (auto simp: plain_text_def list_all_iff)
qed

lemma items_edges:
  assumes "plain_items kvs"
  shows "edge_free space_encs (items_text kvs) \<and> CHR 0x5C \<notin> set (items_text kvs) \<and>
    LF \<notin> set (items_text kvs) \<and> CR \<notin> set (items_text kvs)"
proof -
  have c: "items_text kvs \<noteq> []" "plain_char (hd (items_text kvs))" "plain_char (last (items_text kvs))"
    "\<forall>c \<in> set (items_text kvs). plain_char c \<or> c = CHR ''='' \<or> c = CHR '','' "
    using items_chars [of kvs] assms unfolding plain_items_def by blast+
  have "c \<notin> {CHR 0x5C, LF, CR}" if "c \<in> set (items_text kvs)" for c
    using c(4) that by (auto dest: plain_charD)
  with edge_plain [OF c(1-3)] show ?thesis by blast
qed

lemma trim_blanks:
  assumes "blank_text b" "edge_free space_encs s"
  shows "trim_space (b @ s) = s"
proof -
  have "\<forall>c \<in> set b. sole_enc space_encs c"
  proof
    fix c assume "c \<in> set b"
    then have "c = SP \<or> c = TAB" using assms(1) by (simp add: blank_text_def list_all_iff)
    then show "sole_enc space_encs c" by (elim disjE) (simp_all only: sole_blank)
  qed
  from trim_enc_wrap [OF this _ assms(2), of "[]"] show ?thesis by (simp add: trim_space_def)
qed

lemma edge_free_backslash: "edge_free space_encs (s @ t) \<or> edge_free space_encs s \<Longrightarrow> s \<noteq> [] \<Longrightarrow> edge_free space_encs (s @ [CHR '','', SP, CHR 0x5C])"
proof -
  have "\<forall>e \<in> set space_encs. e \<noteq> [] \<longrightarrow> last e \<noteq> CHR 0x5C" by (simp add: space_encs_def)
  moreover assume "edge_free space_encs (s @ t) \<or> edge_free space_encs s" "s \<noteq> []"
  ultimately show ?thesis by (auto simp: edge_free_def)
qed

abbreviation no_backslash :: "string \<Rightarrow> string" where
  "no_backslash \<equiv> filter (\<lambda>c. c \<noteq> CHR 0x5C)"

lemma no_backslash_id: "CHR 0x5C \<notin> set s \<Longrightarrow> no_backslash s = s"
  by (simp add: filter_id_conv) metis

lemma continuation_lines:
  assumes "list_all plain_items chunks" "blank_text indent" "indent \<noteq> []"
    and "after = [] \<or> \<not> prefix [SP] (hd after) \<and> \<not> prefix [TAB] (hd after)"
  shows "no_backslash (continuation (list_lines indent indent chunks @ after)) = chunks_text chunks"
  using assms(1)
proof (induction chunks rule: chunks_text.induct)
  case 1
  then show ?case using assms(4) by (cases after) auto
next
  case (2 kvs)
  have "prefix [SP] (indent @ t) \<or> prefix [TAB] (indent @ t)" for t
    using assms(2,3) by (cases indent) (auto simp: blank_text_def)
  moreover have "continuation after = []" using assms(4) by (cases after) auto
  ultimately show ?case using items_edges [of kvs] 2 trim_blanks [OF assms(2)]
    by (auto simp: no_backslash_id)
next
  case (3 kvs c cs)
  have "prefix [SP] (indent @ t) \<or> prefix [TAB] (indent @ t)" for t
    using assms(2,3) by (cases indent) (auto simp: blank_text_def)
  moreover have "items_text kvs \<noteq> []" using items_edges [of kvs] 3(2) by (auto simp: edge_free_def)
  ultimately show ?case using 3 items_edges [of kvs] trim_blanks [OF assms(2) edge_free_backslash]
    by (auto simp: no_backslash_id)
qed


definition output_text :: "string list \<Rightarrow> string" where
  "output_text ls = concat (map (\<lambda>l. l @ [LF]) ls)"

lemma scan_output:
  assumes "\<forall>l \<in> set ls. LF \<notin> set l \<and> CR \<notin> set l \<and> int (length l) < default_max_token"
  shows "fst (scan_lines default_max_token (output_text ls)) = ls"
  using assms by (simp add: scan_lines_def output_text_def raw_lines_terminated scan_upto_short map_idI)

lemma field_lines_skip:
  "\<forall>l \<in> set before. field_match field l = None \<Longrightarrow> field_lines field (before @ ls) = field_lines field ls"
  by (induction before) simp_all

lemma field_match_field:
  "blanks \<noteq> [] \<or> suffix '':'' field \<Longrightarrow> blank_text blanks \<Longrightarrow>
   field_match field (field @ blanks @ t) = Some (trim_space (blanks @ t))"
  by (cases blanks) (auto simp: field_match_def cut_prefix_def blank_text_def)

lemma fieldValue_chunks:
  assumes "list_all plain_items chunks" "chunks \<noteq> []" "blank_text blanks" "blank_text indent" "indent \<noteq> []"
    and "blanks \<noteq> [] \<or> suffix '':'' field" "\<forall>l \<in> set before. field_match field l = None"
    and "after = [] \<or> \<not> prefix [SP] (hd after) \<and> \<not> prefix [TAB] (hd after)"
    and "\<forall>l \<in> set (before @ list_lines (field @ blanks) indent chunks @ after).
      LF \<notin> set l \<and> CR \<notin> set l \<and> int (length l) < default_max_token"
  shows "fieldValue (output_text (before @ list_lines (field @ blanks) indent chunks @ after)) field = chunks_text chunks"
proof -
  obtain kvs cs where ch: "chunks = kvs # cs" using assms(2) by (cases chunks) auto
  have v: "fieldValue (output_text (before @ list_lines (field @ blanks) indent chunks @ after)) field =
      no_backslash (field_lines field (list_lines (field @ blanks) indent chunks @ after))"
    unfolding fieldValue_def scan_output [OF assms(9)] field_lines_skip [OF assms(7)] ..
  have e: "edge_free space_encs (items_text kvs)" "CHR 0x5C \<notin> set (items_text kvs)" "items_text kvs \<noteq> []"
    using items_edges [of kvs] assms(1) ch by (auto simp: edge_free_def)
  show ?thesis
  proof (cases cs)
    case Nil
    have "no_backslash (continuation after) = []"
      using continuation_lines [of "[]" indent after] assms(4,5,8) by simp
    with Nil show ?thesis unfolding v unfolding ch using e assms(3,6)
      by (simp add: field_match_field trim_blanks no_backslash_id)
  next
    case (Cons c cs')
    have "no_backslash (continuation (list_lines indent indent cs @ after)) = chunks_text cs"
      using continuation_lines [OF _ assms(4,5,8), of cs] assms(1) ch by simp
    with Cons show ?thesis unfolding v unfolding ch using e assms(3,6)
      by (simp add: field_match_field trim_blanks [OF _ edge_free_backslash] no_backslash_id)
  qed
qed

text \<open>
  C26. The lists of the scheduler are read back. Whatever the other lines of the output of \<open>qstat -j\<close> or
  \<open>qconf -se\<close> are, however the items of a list are spread over its lines and whatever blanks stand
  before them, the value that the prolog finds for a name is the value of its first item, and no
  value when there is none; a hard request is found in this way.
\<close>

theorem scheduler_list_read_back:
  assumes "list_all plain_items chunks" "chunks \<noteq> []" "blank_text blanks" "blank_text indent" "indent \<noteq> []"
    and "blanks \<noteq> [] \<or> suffix '':'' field" "\<forall>l \<in> set before. field_match field l = None"
    and "after = [] \<or> \<not> prefix [SP] (hd after) \<and> \<not> prefix [TAB] (hd after)"
    and "\<forall>l \<in> set (before @ list_lines (field @ blanks) indent chunks @ after).
      LF \<notin> set l \<and> CR \<notin> set l \<and> int (length l) < default_max_token"
    and "out = output_text (before @ list_lines (field @ blanks) indent chunks @ after)"
  shows "resourceFromList (fieldValue out field) name = map_of (concat chunks) name \<and>
    (\<forall>v. field = ''hard_resource_list:'' \<and> map_of (concat chunks) name = Some v \<longrightarrow>
       parseJobRequestedResource out name = Inr v)"
  using fieldValue_chunks [OF assms(1-9)] resource_of_chunks [OF assms(1), of name] assms(10)
  by (auto simp: parseJobRequestedResource_def)

definition sample_chunks :: "(string \<times> string) list list" where
  "sample_chunks = [[(''h_rt'', ''60''), (''qpu_slots'', ''2'')], [(''qpu'', ''EMU_FREE'')]]"

theorem scheduler_list_read_back_witness:
  "parseJobRequestedResource (output_text (''job_number:  5'' #
     list_lines ''hard_resource_list:   '' [TAB] sample_chunks @ [''env_list: qpu=X''])) ''qpu'' = Inr ''EMU_FREE''"
proof -
  have c: "list_all plain_items sample_chunks" "blank_text ''   ''" "blank_text [TAB]"
    "list_all (\<lambda>l. field_match ''hard_resource_list:'' l = None) [''job_number:  5'']"
    "list_all (\<lambda>l. LF \<notin> set l \<and> CR \<notin> set l \<and> int (length l) < default_max_token)
       ([''job_number:  5''] @ list_lines (''hard_resource_list:'' @ ''   '') [TAB] sample_chunks @ [''env_list: qpu=X''])"
    "map_of (concat sample_chunks) ''qpu'' = Some ''EMU_FREE''" by code_simp+
  have "sample_chunks \<noteq> []" by (simp add: sample_chunks_def)
  from scheduler_list_read_back [OF c(1) this c(2,3) _ _ c(4) [unfolded list_all_iff] _ c(5) [unfolded list_all_iff] refl, of "''qpu''"]
  show ?thesis using c(6) by simp
qed

end
