(* ===== verification/Prolog_Result.thy ===== *)
theory Prolog_Result
  imports Prolog_Run
begin

text \<open>
  Everything a successful run of the prolog leaves, value by value: which questions the library was
  asked and in which state, every variable of the job environment with its name and its source, and
  the metadata record.
\<close>

subsection \<open>The variables, by name\<close>

text \<open>A C string as Go reads it: NULL is empty, the first zero byte ends it.\<close>

definition c_text :: "string option \<Rightarrow> string" where
  "c_text s = (case s of None \<Rightarrow> [] | Some s \<Rightarrow> takeWhile (\<lambda>c. c \<noteq> NUL) s)"

text \<open>The entries of a resource definition become variables behind the name of the backend.\<close>

definition library_vars ::
  "string \<Rightarrow> (string option \<times> string option) list option \<Rightarrow> (string \<times> string) list" where
  "library_vars be entries = concat (map (\<lambda>(k, v).
     if c_text k = [] then [] else [(be @ ''_'' @ c_text k, c_text v)])
     (case entries of None \<Rightarrow> [] | Some es \<Rightarrow> es))"

definition value_in :: "(string \<rightharpoonup> string) \<Rightarrow> string \<Rightarrow> string" where
  "value_in m k = (case m k of None \<Rightarrow> [] | Some v \<Rightarrow> v)"

text \<open>The job's id, with the task of an array job.\<close>

definition job_text :: "(string \<rightharpoonup> string) \<Rightarrow> string" where
  "job_text m =
     (if value_in m ''SGE_TASK_ID'' \<in> {[], ''undefined'', ''0''} then value_in m ''JOB_ID''
      else value_in m ''JOB_ID'' @ ''.'' @ value_in m ''SGE_TASK_ID'')"

definition job_vars :: "(string \<rightharpoonup> string) \<Rightarrow> i64 \<Rightarrow> i64 option \<Rightarrow> (string \<times> string) list" where
  "job_vars m u slots =
     [(''QRMI_JOB_UID'', show_int (sint u))] @
     (if job_text m = [] then [] else [(''QRMI_JOB_ID'', job_text m)]) @
     (case slots of None \<Rightarrow> [] | Some n \<Rightarrow> [(''QRMI_JOB_QPU_SLOTS'', show_int (sint n))])"

text \<open>The name of a resource type, or its number when the library has no name for it.\<close>

definition type_name :: "'q capi \<Rightarrow> nat \<Rightarrow> 'q \<Rightarrow> string" where
  "type_name api e q =
     (let name = c_text (c_type_to_str api (c_def_type api e q) q) in
      if name = [] then show_int (uint (c_def_type api e q)) else name)"

definition token_vars :: "string \<Rightarrow> string \<Rightarrow> string \<Rightarrow> (string \<times> string) list" where
  "token_vars be token ty =
     [(be @ ''_QRMI_JOB_ACQUISITION_TOKEN'', token),
      (''QRMI_JOB_QPU_RESOURCES'', be), (''QRMI_JOB_QPU_TYPES'', ty),
      (''qrmi_resources'', be), (''qrmi_resource_types'', ty), (''qrmi_acquired_count'', ''1''),
      (''qrmi_prolog_status'', ''success'')]"

text \<open>
  What the library is asked, from the state \<open>q\<close> on: the configuration and the definition in the
  environment \<open>m0\<close>, which leaves \<open>q1\<close>; then the resource, its state and the token in the environment
  \<open>m1\<close>, which leaves \<open>q2\<close>.
\<close>

definition library_run :: "'q capi \<Rightarrow> (string \<rightharpoonup> string) \<Rightarrow> (string \<rightharpoonup> string) \<Rightarrow> string \<Rightarrow> string \<Rightarrow>
    'q \<Rightarrow> nat \<Rightarrow> nat \<Rightarrow> 'q \<Rightarrow> nat \<Rightarrow> string \<Rightarrow> 'q \<Rightarrow> bool" where
  "library_run api m0 m1 path be q c e q1 n token q2 = (\<exists>qc qr qa x.
     c_config_load api m0 (c_text (Some path)) q = (Some c, qc) \<and>
     c_def_get api c (c_text (Some be)) qc = (Some e, q1) \<and>
     c_resource_new api m1 (c_text (Some be)) (c_def_type api e q1) q1 = (Some n, qr) \<and>
     c_is_accessible api m1 n qr = ((True, True), qa) \<and>
     c_acquire api m1 n qa = ((True, Some x), q2) \<and> token = c_text (Some x))"

text \<open>Who the job belongs to: the hook's own account, or the owner the scheduler named.\<close>

definition owner_uid :: "host \<Rightarrow> string \<Rightarrow> i64 \<Rightarrow> bool" where
  "owner_uid h owner u =
     (if owner = [] then u = uid h
      else \<exists>text. users h owner = Some text \<and> atoi text = Some u \<and> 0 \<le> sint u)"

text \<open>What \<open>qstat -j\<close> says of the number of slots: asked only when the resource has a name.\<close>

definition slots_answer :: "host \<Rightarrow> hookConfig \<Rightarrow> string \<Rightarrow> i64 option \<Rightarrow> bool" where
  "slots_answer h cfg job slots =
     (if SlotsResourceName cfg = [] then slots = None
      else \<exists>out. says h (QstatPath cfg) [''-j'', job] out \<and>
        (case parseJobRequestedResource out (SlotsResourceName cfg) of
           Inl e \<Rightarrow> is_requested_not_found e \<and> slots = None
         | Inr raw \<Rightarrow> \<exists>n. parseGrantedSlots raw = Inr n \<and> slots = Some n))"

text \<open>The level of the library: 2 to 5 as a number, held in that range, or the name of a level.\<close>

definition level_vars :: "string \<Rightarrow> (string \<times> string) list" where
  "level_vars raw =
     (case atoi (trim_space raw) of
        Some n \<Rightarrow> [(''RUST_LOG'', [''error'', ''info'', ''debug'', ''trace''] ! (nat (max 2 (min 5 (sint n))) - 2))]
      | None \<Rightarrow> if to_lower (trim_space raw) \<in> {''error'', ''warn'', ''info'', ''debug'', ''trace''}
                then [(''RUST_LOG'', to_lower (trim_space raw))] else [])"

subsection \<open>The definitions of the code give these\<close>

lemma c_text_code: "c_text (Some s) = c_string s" "c_text r = goStringOrEmpty r"
  by (simp_all add: c_text_def c_string_def goStringOrEmpty_def split: option.split)

lemma library_vars_code:
  "backend_pairs be (Def_Environments (Real api) (Some e) w) = library_vars be (c_def_envs api e (lib w))"
proof -
  have "backend_pairs be (filter (\<lambda>x. Key x \<noteq> []) (map (\<lambda>(k, v). \<lparr>Key = goStringOrEmpty k, Value = goStringOrEmpty v\<rparr>) kvs)) =
      library_vars be (Some kvs)" for kvs
    by (induction kvs) (auto simp: backend_pairs_def library_vars_def c_text_code)
  moreover have "backend_pairs be [] = library_vars be None" by (simp add: backend_pairs_def library_vars_def)
  ultimately show ?thesis by (simp add: Def_Environments_def split: option.split)
qed

lemma job_vars_code: "job_pairs w u slots = job_vars (penv w) u slots"
  using itoa_not_Nil
  by (auto simp: job_pairs_def job_vars_def itoa_def [symmetric] job_text_def value_in_def schedulerJobID_def
      no_task_def getenv_def Let_def split: option.split)

lemma type_ucast: "ucast (ucast (x :: u32) :: i64) = x" "sint (ucast x :: i64) = uint x"
proof -
  have "uint (ucast x :: i64) = uint x" by (simp add: uint_up_ucast is_up)
  moreover have "signed_take_bit 63 (uint x) = uint x"
    using uint_bounded [of x] by (intro signed_take_bit_int_eq_self order_trans [OF _ uint_nonnegative]) simp_all
  ultimately show "sint (ucast x :: i64) = uint x" by (simp add: sint_uint)
qed (rule bit_word_eqI, auto simp: bit_simps)

lemma type_name_code: "type_text (Real api) (Some e) w = type_name api e (lib w)"
  by (simp add: type_text_def Def_TypeString_def Def_Type_def type_name_def c_text_code itoa_def type_ucast Let_def)

lemma token_vars_code: "runtime_pairs be t ts @ [(PrologStatusKey, ''success'')] = token_vars be t ts"
  by (simp add: runtime_pairs_def token_vars_def token_key_def PrologStatusKey_def)

lemma owner_uid_code: "schedulerJobUID h jo = Inr u \<Longrightarrow> owner_uid h jo u"
  by (auto simp: schedulerJobUID_def owner_uid_def split: if_splits option.splits)

lemma level_vars_code: "rust_log_pairs raw = level_vars raw"
proof (cases "atoi (trim_space raw)")
  case None
  moreover have "to_lower [] = []" by code_simp
  ultimately show ?thesis
    by (simp add: rust_log_pairs_def level_vars_def RustLogFromDebug_def Let_def rust_levels_def)
next
  case (Some n)
  moreover have "trim_space raw \<noteq> []"
  proof
    assume "trim_space raw = []"
    moreover have "atoi [] = None" by code_simp
    ultimately show False using Some by simp
  qed
  moreover consider "sint n \<le> 2" | "sint n = 3" | "sint n = 4" | "5 \<le> sint n" by linarith
  ultimately show ?thesis
    by cases (simp_all add: rust_log_pairs_def level_vars_def RustLogFromDebug_def Let_def max_def min_def)
qed

subsection \<open>The steps of a successful run\<close>

text \<open>Setting variables does not touch the library.\<close>

lemma mirrors_lib: "set_pairs h kvs w = (r, w') \<Longrightarrow> mirrors a u w \<Longrightarrow> lib w' = lib w"
  using set_pairs_frame [of h kvs w r w'] files_at_lib by (fastforce simp: mirrors_def)

text \<open>The error of a command that did not run is not the scheduler's answer.\<close>

lemma walk_not_found: "walk t k d es = Inl e \<Longrightarrow> \<not> is_requested_not_found e"
  by (induction t k d es rule: walk.induct) (auto split: if_splits option.splits tnode.splits nat.splits)

lemma run_not_found: "runSchedulerCommand h p args w = (Inl e, w') \<Longrightarrow> \<not> is_requested_not_found e"
  by (auto simp: runSchedulerCommand_def trustedExecutable_def sys_run_def RetryError_def EvalSymlinks_def
      EvalSymlinks_elems_def dest: walk_not_found split: sum.splits prod.splits if_splits option.splits)

lemma readGrantedSlots_says:
  "readGrantedSlots h nm q w = (Inr slots, w') \<Longrightarrow> nm \<noteq> [] \<Longrightarrow> SlotsResourceName cfg = nm \<Longrightarrow> QstatPath cfg = q \<Longrightarrow>
   slots_answer h cfg (getenv w ''JOB_ID'') slots"
  by (fastforce simp: slots_answer_def readGrantedSlots_def readJobRequestedResource_def Let_def
      dest: runSchedulerCommand_says run_not_found split: sum.splits prod.splits if_splits)

lemma with_resource_exact:
  assumes "with_resource (Real api) h be (Some e) (Some n) w = (None, w')"
  obtains qa x v where "c_is_accessible api (penv w) n (lib w) = ((True, True), qa)"
    "c_acquire api (penv w) n qa = ((True, Some x), lib v)"
    "lib_call [QAccessible n True, QAcquire n (c_string x)] w v"
    "after_acquire (Real api) h be (Some e) (Some n) (c_string x) v = (None, w')"
proof -
  obtain a v1 where 1: "IsAccessible (Real api) (Some n) w = (a, v1)" by fastforce
  have a: "a = Inr True" using assms 1
    by (cases a; cases "projr a") (auto simp: with_resource_def dest: reportError_run)
  obtain k v where 2: "Acquire (Real api) (Some n) v1 = (k, v)" by fastforce
  obtain t where t: "k = Inr t" using assms 1 2 a
    by (cases k) (auto simp: with_resource_def dest: reportError_run)
  obtain x where x: "c_acquire api (penv v1) n (lib v1) = ((True, Some x), lib v)" "t = c_string x"
    using answers(5) [OF 2 [unfolded t]] by blast
  have l: "lib_call [QAccessible n True] w v1" using IsAccessible_call [OF 1] a by simp
  have "lib_call ([QAccessible n True] @ [QAcquire n t]) w v"
    using lib_call_trans [OF l] Acquire_Inr [OF 2 [unfolded t]] by blast
  moreover have "after_acquire (Real api) h be (Some e) (Some n) t v = (None, w')"
    using assms 1 2 a t by (simp add: with_resource_def)
  moreover have "penv v1 = penv w" using lib_call_penv [OF l] by simp
  ultimately show thesis using that answers(4) [OF 1 [unfolded a]] x by simp
qed

text \<open>From the resource definition on.\<close>

lemma with_def_exact:
  fixes w w' :: "'q world"
  assumes run: "with_def (Real api) h cfg jo be (Some e) w = (None, w')"
    and env: "env_at d w" "is_abs d" "is_abs (getenv w' ''SGE_JOB_SPOOL_DIR'')"
  defines "bv \<equiv> library_vars be (c_def_envs api e (lib w))"
  obtains u slots n t qr qa x q2 where
    "schedulerJobUID h jo = Inr u" "slots_answer h cfg (value_in (penv w ++ map_of (rev bv)) ''JOB_ID'') slots"
    "let jv = job_vars (penv w ++ map_of (rev bv)) u slots; m = penv w ++ map_of (rev (bv @ jv)) in
       c_resource_new api m (c_string be) (c_def_type api e (lib w)) (lib w) = (Some n, qr) \<and>
       c_is_accessible api m n qr = ((True, True), qa) \<and> c_acquire api m n qa = ((True, Some x), q2) \<and>
       mirrors (bv @ jv @ token_vars be t (type_name api e q2)) w w'"
    "t = c_string x" "qlog w' = qlog w @ acquire_calls be (c_def_type api e (lib w)) n t"
    "meta_of w' \<lparr>rec_name = be, rec_type = ucast (c_def_type api e q2), rec_token = t, rec_epoch = now h\<rparr>"
proof -
  obtain x1 w1 where 1: "exportBackendEnv h be (Def_Environments (Real api) (Some e) w) w = (x1, w1)" by fastforce
  have x1: "x1 = None" using run 1 by (cases x1) (auto simp: with_def_def dest: reportError_run)
  obtain x2 w2 where 2: "exportSchedulerJobEnv h cfg jo w1 = (x2, w2)" by fastforce
  have x2: "x2 = None" using run 1 2 x1 by (cases x2) (auto simp: with_def_def dest: reportError_run)
  obtain z w3 where 3: "NewResource (Real api) be (Def_Type (Real api) (Some e) w2) w2 = (z, w3)" by fastforce
  obtain k where k: "z = Inr k" using run 1 2 3 x1 x2 by (cases z) (auto simp: with_def_def dest: reportError_run)
  obtain n where n: "z = Inr (Some n)"
    and l3: "lib_call [QResourceNew n (c_string be) (ucast (Def_Type (Real api) (Some e) w2))] w2 w3"
    using NewResource_Inr [OF 3 [unfolded k]] k by blast
  obtain y w4 where 4: "with_resource (Real api) h be (Some e) (Some n) w3 = (y, w4)" by fastforce
  have y: "y = None" "w' = Resource_Close (Real api) (Some n) w4"
    using run 1 2 3 4 x1 x2 n by (simp_all add: with_def_def)
  obtain qa x v4 where a: "c_is_accessible api (penv w3) n (lib w3) = ((True, True), qa)"
    "c_acquire api (penv w3) n qa = ((True, Some x), lib v4)"
    and l4: "lib_call [QAccessible n True, QAcquire n (c_string x)] w3 v4"
    and after: "after_acquire (Real api) h be (Some e) (Some n) (c_string x) v4 = (None, w4)"
    using with_resource_exact [OF 4 [unfolded y(1)]] .
  have l5: "lib_call [QResourceFree n] w4 w'" unfolding y(2) by (rule Resource_Close_call)
  have ready: "mirrors [] w w" using env(1) by (simp add: env_at_def mirrors_refl)
  have sp1: "set_pairs h bv w = (None, w1)" using 1 x1 by (simp add: exportBackendEnv_def library_vars_code bv_def)
  have m1: "mirrors bv w w1" using mirrors_set_pairs [OF ready sp1] by simp
  have q1: "lib w1 = lib w" using mirrors_lib [OF sp1 ready] .
  have p1: "penv w1 = penv w ++ map_of (rev bv)" using m1 by (auto simp: mirrors_def)
  obtain u slots v where u: "schedulerJobUID h jo = Inr u" "only_ran w1 v"
      "(if SlotsResourceName cfg = [] then slots = None \<and> v = w1
        else readGrantedSlots h (SlotsResourceName cfg) (QstatPath cfg) w1 = (Inr slots, v))"
    and sp2: "set_pairs h (job_vars (penv w1) u slots) v = (None, w2)"
    using exportSchedulerJobEnv_run [OF 2] x2 unfolding job_vars_code by blast
  let ?jv = "job_vars (penv w ++ map_of (rev bv)) u slots"
  have job: "getenv w1 ''JOB_ID'' = value_in (penv w ++ map_of (rev bv)) ''JOB_ID''"
    using p1 by (simp add: getenv_def value_in_def)
  have slots: "slots_answer h cfg (value_in (penv w ++ map_of (rev bv)) ''JOB_ID'') slots"
  proof (cases "SlotsResourceName cfg = []")
    case False
    then show ?thesis using readGrantedSlots_says [of h _ _ w1 slots v cfg, folded job] u(3) job by simp
  qed (use u(3) in \<open>simp add: slots_answer_def\<close>)
  have mv: "mirrors bv w v" using mirrors_ran [OF m1 u(2)] .
  have m2: "mirrors (bv @ ?jv) w w2" using mirrors_set_pairs [OF mv sp2] p1 by simp
  have q2: "lib w2 = lib w" using mirrors_lib [OF sp2 mv] only_ran_fields(6) [OF u(2)] q1 by simp
  have p2: "penv w2 = penv w ++ map_of (rev (bv @ ?jv))" using m2 by (auto simp: mirrors_def)
  have new: "c_resource_new api (penv w2) (c_string be) (c_def_type api e (lib w)) (lib w) = (Some n, lib w3)"
    using answers(3) [OF 3 [unfolded n]] q2 by (simp add: Def_Type_def type_ucast)
  have p3: "penv w3 = penv w2" using lib_call_penv [OF l3] by simp
  have m4: "mirrors (bv @ ?jv) w v4" using mirrors_lib_call [OF mirrors_lib_call [OF m2 l3] l4] .
  have "getenv w' ''SGE_JOB_SPOOL_DIR'' = getenv w4 ''SGE_JOB_SPOOL_DIR''"
    using lib_call_penv [OF l5] getenv_same by blast
  with env have pa: "Path v4 = path_join [d, ''environment'']" "is_abs (getenv w4 ''SGE_JOB_SPOOL_DIR'')"
    using mirrors_Path [OF m4] by (simp_all add: env_at_def)
  note ok = after_acquire_ok [OF after m4 pa(1) env(2) pa(2)]
  have "mirrors (bv @ ?jv @ token_vars be (c_string x) (type_name api e (lib v4))) w w4"
    using ok by (auto simp: type_name_code token_vars_code)
  then have m5: "mirrors (bv @ ?jv @ token_vars be (c_string x) (type_name api e (lib v4))) w w'"
    using mirrors_lib_call l5 by blast
  have "meta_of w4 (acquired_record (Real api) h be (Some e) (c_string x) v4)"
    using ok Def_Type_nonneg [of "Real api" "Some e" v4] by (auto simp: meta_of_def acquired_record_def)
  then have f: "meta_of w' \<lparr>rec_name = be, rec_type = ucast (c_def_type api e (lib v4)), rec_token = c_string x, rec_epoch = now h\<rparr>"
    using meta_of_same [of w4 _ w'] lib_call_penv [OF l5] by (simp add: acquired_record_def Def_Type_def)
  have "qlog w2 = qlog w" using qlog_exportBackendEnv [OF 1] qlog_exportSchedulerJobEnv [OF 2] by simp
  moreover have "qlog w4 = qlog v4" using after by (rule after_acquire_quiet)
  ultimately have "qlog w' = qlog w @ acquire_calls be (c_def_type api e (lib w)) n (c_string x)"
    using lib_call_qlog [OF l3] lib_call_qlog [OF l4] lib_call_qlog [OF l5] q2
    by (simp add: acquire_calls_def Def_Type_def type_ucast)
  moreover have "let jv = ?jv; m = penv w ++ map_of (rev (bv @ jv)) in
     c_resource_new api m (c_string be) (c_def_type api e (lib w)) (lib w) = (Some n, lib w3) \<and>
     c_is_accessible api m n (lib w3) = ((True, True), qa) \<and> c_acquire api m n qa = ((True, Some x), lib v4) \<and>
     mirrors (bv @ jv @ token_vars be (c_string x) (type_name api e (lib v4))) w w'"
    using new a m5 p2 p3 by (simp add: Let_def)
  ultimately show thesis using that [OF u(1) slots _ refl _ f] by blast
qed

text \<open>The metadata is one line: the backend, the number of its type, the token and the time, set apart by tabs.\<close>

definition metadata_line :: "string \<Rightarrow> u32 \<Rightarrow> string \<Rightarrow> i64 \<Rightarrow> string" where
  "metadata_line be ty token at =
     be @ [TAB] @ show_int (uint ty) @ [TAB] @ token @ [TAB] @ show_int (sint at) @ [LF]"

lemma meta_of_line:
  assumes "meta_of w \<lparr>rec_name = be, rec_type = ucast ty, rec_token = token, rec_epoch = at\<rparr>"
  shows "file_data (files w) (path_join [getenv w ''SGE_JOB_SPOOL_DIR'', ''qrmi_ocs_acquired.tsv'']) =
    Some (metadata_line be ty token at)"
  using assms
  by (auto simp: meta_of_def ResolveMetadataPath_def MetadataFilename_def record_line_def render_record_def
      metadata_line_def itoa_def type_ucast Let_def split: if_splits)

text \<open>
  \<open>served api h cfg jo be w w' kvs\<close>: the library gave a configuration, a definition, a resource and
  a token for the backend \<open>be\<close>; the environment and the file got the variables of the level, of the
  definition, of the job and of the token, together \<open>kvs\<close>; the metadata is the record of that token.
\<close>

definition served :: "'q capi \<Rightarrow> host \<Rightarrow> hookConfig \<Rightarrow> string \<Rightarrow> string \<Rightarrow> 'q world \<Rightarrow> 'q world \<Rightarrow>
    (string \<times> string) list \<Rightarrow> bool" where
  "served api h cfg jo be w w' kvs = (\<exists>u slots c e n q1 q2 token.
     let level = level_vars (LogLevel cfg);
         given = level @ library_vars be (c_def_envs api e q1);
         job = job_vars (penv w ++ map_of (rev given)) u slots
     in owner_uid h jo u \<and>
        slots_answer h cfg (value_in (penv w ++ map_of (rev given)) ''JOB_ID'') slots \<and>
        library_run api (penv w ++ map_of (rev level)) (penv w ++ map_of (rev (given @ job)))
          (ConfigPath cfg) be (lib w) c e q1 n token q2 \<and>
        kvs = given @ job @ token_vars be token (type_name api e q2) \<and>
        qlog w' = qlog w @ [QConfigLoad c, QDefGet e, QResourceNew n (c_string be) (c_def_type api e q1),
          QAccessible n True, QAcquire n token, QResourceFree n, QDefFree e, QConfigFree c] \<and>
        file_data (files w') (path_join [getenv w' ''SGE_JOB_SPOOL_DIR'', ''qrmi_ocs_acquired.tsv'']) =
          Some (metadata_line be (c_def_type api e q2) token (now h)))"

lemma ApplyRustLog_lib: "ApplyRustLog h level w = (r, w') \<Longrightarrow> env_ready w \<Longrightarrow> lib w' = lib w"
  using mirrors_lib [OF _ mirrors_refl, of h "[(k, v)]" w for k v]
  by (fastforce simp: ApplyRustLog_def split: prod.splits if_splits option.splits)

lemma with_job_env_exact:
  assumes run: "with_job_env (Real api) h cfg jo be w = (None, w')"
    and env: "env_at d w" "is_abs d" "is_abs (getenv w' ''SGE_JOB_SPOOL_DIR'')"
  shows "\<exists>kvs. served api h cfg jo be w w' kvs \<and> mirrors kvs w w'"
proof -
  let ?b = "Real api" and ?level = "level_vars (LogLevel cfg)"
  obtain x w1 where 1: "ApplyRustLog h (LogLevel cfg) w = (x, w1)" by fastforce
  have x: "x = None" using run 1 by (cases x) (auto simp: with_job_env_def dest: reportError_run)
  have m1: "mirrors ?level w w1"
    using ApplyRustLog_mirrors [OF _ 1 [unfolded x]] env(1) by (simp add: env_at_def level_vars_code)
  have l1: "lib w1 = lib w" using ApplyRustLog_lib [OF 1] env(1) by (simp add: env_at_def)
  obtain y w2 where 2: "LoadConfig ?b (ConfigPath cfg) (SetLogCallback ?b prolog_component w1) = (y, w2)" by fastforce
  obtain k where k: "y = Inr k" using run 1 2 x by (cases y) (auto simp: with_job_env_def dest: reportError_run)
  obtain c where c: "y = Inr (Some c)"
    and c0: "lib_call [QConfigLoad c] (SetLogCallback ?b prolog_component w1) w2"
    using LoadConfig_Inr [OF 2 [unfolded k]] k by blast
  have c2: "lib_call [QConfigLoad c] w1 w2" using lib_call_trans [OF SetLogCallback_call c0] by simp
  have lc: "lib (SetLogCallback ?b prolog_component w1) = lib w1" "penv (SetLogCallback ?b prolog_component w1) = penv w1"
    by (simp_all add: SetLogCallback_def)
  obtain r w5 where 5: "with_config ?b h cfg jo be (Some c) w2 = (r, w5)" by fastforce
  have r: "r = None" "w' = Config_Close ?b (Some c) w5"
    using run 1 2 5 x c by (simp_all add: with_job_env_def)
  obtain z w3 where 3: "Config_ResourceDef ?b (Some c) be w2 = (z, w3)" by fastforce
  obtain l where l: "z = Inr l" using 5 3 r by (cases z) (auto simp: with_config_def dest: reportError_run)
  obtain e where e: "z = Inr (Some e)" and c3: "lib_call [QDefGet e] w2 w3"
    using ResourceDef_Inr [OF 3 [unfolded l]] l by blast
  obtain s w4 where 4: "with_def ?b h cfg jo be (Some e) w3 = (s, w4)" by fastforce
  have s: "s = None" "w5 = Def_Close ?b (Some e) w4" using 5 3 4 e r by (simp_all add: with_config_def)
  have c5: "lib_call ([QDefFree e] @ [QConfigFree c]) w4 w'"
    unfolding r(2) s(2) by (rule lib_call_trans [OF Def_Close_call Config_Close_call])
  have c13: "lib_call ([QConfigLoad c] @ [QDefGet e]) w1 w3" using c2 c3 by (rule lib_call_trans)
  have m3: "mirrors ?level w w3" using mirrors_lib_call [OF m1 c13] .
  have at: "env_at d w3" using m3 env(1) mirrors_ready [OF m3] mirrors_Path [OF m3] by (simp add: env_at_def)
  have ab: "is_abs (getenv w4 ''SGE_JOB_SPOOL_DIR'')"
    using env(3) getenv_same [of w' w4] lib_call_penv [OF c5] by simp
  have p1: "penv w1 = penv w ++ map_of (rev ?level)" and p3: "penv w3 = penv w ++ map_of (rev ?level)"
    using m1 m3 by (auto simp: mirrors_def)
  note opened = answers(1) [OF 2 [unfolded c], unfolded lc l1 p1] answers(2) [OF 3 [unfolded e]]
  let ?bv = "library_vars be (c_def_envs api e (lib w3))"
  obtain u slots n t qr qa x q2 where
    u: "schedulerJobUID h jo = Inr u" and
    slots: "slots_answer h cfg (value_in (penv w3 ++ map_of (rev ?bv)) ''JOB_ID'') slots" and
    lets: "let jv = job_vars (penv w3 ++ map_of (rev ?bv)) u slots; m = penv w3 ++ map_of (rev (?bv @ jv)) in
       c_resource_new api m (c_string be) (c_def_type api e (lib w3)) (lib w3) = (Some n, qr) \<and>
       c_is_accessible api m n qr = ((True, True), qa) \<and> c_acquire api m n qa = ((True, Some x), q2) \<and>
       mirrors (?bv @ jv @ token_vars be t (type_name api e q2)) w3 w4" and
    t: "t = c_string x" "qlog w4 = qlog w3 @ acquire_calls be (c_def_type api e (lib w3)) n t"
      "meta_of w4 \<lparr>rec_name = be, rec_type = ucast (c_def_type api e q2), rec_token = t, rec_epoch = now h\<rparr>"
    by (rule with_def_exact [OF 4 [unfolded s(1)] at env(2) ab])
  let ?given = "?level @ ?bv"
  let ?job = "job_vars (penv w ++ map_of (rev ?given)) u slots"
  let ?kvs = "?given @ ?job @ token_vars be t (type_name api e q2)"
  have given: "penv w3 ++ map_of (rev ?bv) = penv w ++ map_of (rev ?given)"
    using p3 by simp
  have "qlog w1 = qlog w" using qlog_ApplyRustLog [of h "LogLevel cfg" w] 1 by simp
  then have q: "qlog w' = qlog w @ [QConfigLoad c, QDefGet e, QResourceNew n (c_string be) (c_def_type api e (lib w3)),
      QAccessible n True, QAcquire n t, QResourceFree n, QDefFree e, QConfigFree c]"
    using lib_call_qlog [OF c13] lib_call_qlog [OF c5] t(2) by (simp add: acquire_calls_def)
  have "meta_of w' \<lparr>rec_name = be, rec_type = ucast (c_def_type api e q2), rec_token = t, rec_epoch = now h\<rparr>"
    using meta_of_same [OF t(3)] lib_call_penv [OF c5] by blast
  note meta = meta_of_line [OF this]
  have dialogue: "library_run api (penv w ++ map_of (rev ?level)) (penv w ++ map_of (rev (?given @ ?job)))
      (ConfigPath cfg) be (lib w) c e (lib w3) n t q2"
    unfolding library_run_def c_text_code(1)
    using opened lets t(1) p3 by (auto simp: Let_def)
  have "mirrors ?kvs w w'"
    using mirrors_lib_call [OF mirrors_trans [OF m3] c5] lets p3 by (auto simp: Let_def)
  moreover have "served api h cfg jo be w w' ?kvs"
    unfolding served_def Let_def
    using owner_uid_code [OF u] slots [unfolded given] dialogue q meta by blast
  ultimately show ?thesis by blast
qed

lemma served_mono:
  assumes "served api h cfg jo be v v' kvs" and "penv v = penv w" "lib v = lib w" "qlog v = qlog w"
    and "qlog w' = qlog v'" "penv w' = penv v'" "files w' = files v'"
  shows "served api h cfg jo be w w' kvs"
  using assms getenv_same [of w' v'] unfolding served_def by simp

lemma runWithConfig_served:
  assumes run: "runWithConfig b h jo cfg w = (None, w')"
    and abs: "is_abs (getenv w ''SGE_JOB_SPOOL_DIR'')" "is_abs (getenv w' ''SGE_JOB_SPOOL_DIR'')"
    and asked: "\<not> isl (fst (readGranted h (ResourceName cfg) (QstatPath cfg) w))"
  shows "\<exists>api g be kvs. b = Real api \<and> fst (readGranted h (ResourceName cfg) (QstatPath cfg) w) = Inr g \<and>
    ParseGrantedBackend g = Inr be \<and> served api h cfg jo be w w' kvs \<and>
    penv w' = penv w ++ map_of (rev kvs) \<and>
    (let p = path_join [getenv w ''SGE_JOB_SPOOL_DIR'', ''environment''] in
     file_data (files w') p = Some (env_content w p @ env_text kvs))"
proof -
  obtain g be w1 w2 w3 w4 where 1: "readGranted h (ResourceName cfg) (QstatPath cfg) w = (Inr g, w1)"
    "ParseGrantedBackend g = Inr be" and r2: "only_ran w w2"
    and 3: "OpenJobEnv h w2 = (None, w3)" and 4: "with_job_env b h cfg jo be w3 = (None, w4)"
    and w': "w' = snd (Close h w4)"
    using runWithConfig_None [OF run] asked by auto
  have "b \<noteq> Stub" using with_job_env_Stub 4 by blast
  then obtain api where api: "b = Real api" using build_Real by blast
  let ?d = "getenv w ''SGE_JOB_SPOOL_DIR''"
  let ?p = "path_join [?d, ''environment'']"
  have d: "getenv w2 ''SGE_JOB_SPOOL_DIR'' = ?d" using only_ran_fields(2) [OF r2] by (rule getenv_same)
  note o = OpenJobEnv_env_at [OF 3, unfolded d Let_def]
  note c = Close_same [of h w4, folded w']
  have 5: "qlog w3 = qlog w" "lib w3 = lib w" "penv w3 = penv w"
    using OpenJobEnv_ok [OF 3] files_at_lib only_ran_fields [OF r2] by metis+
  have "is_abs (getenv w4 ''SGE_JOB_SPOOL_DIR'')" using abs(2) c getenv_same [of w' w4] by simp
  then obtain kvs where s: "served api h cfg jo be w3 w4 kvs" and m: "mirrors kvs w3 w4"
    using with_job_env_exact [OF 4 [unfolded api] _ abs(1)] o by blast
  have "served api h cfg jo be w w' kvs"
    using served_mono [OF s 5(3,2,1), of w'] c by (simp add: w')
  moreover have "penv w' = penv w ++ map_of (rev kvs)" using m c 5(3) by (auto simp: mirrors_def)
  moreover have "env_content w2 ?p = env_content w ?p" using only_ran_fields(1) [OF r2] by (simp add: env_content_def)
  then have "file_data (files w') ?p = Some (env_content w ?p @ env_text kvs)"
    using m o c by (auto simp: mirrors_def Path_def)
  moreover have "fst (readGranted h (ResourceName cfg) (QstatPath cfg) w) = Inr g" using 1(1) by simp
  ultimately show ?thesis using api 1(2) unfolding Let_def by blast
qed

subsection \<open>Properties\<close>

lemma sge_backend: "ParseGrantedBackend ''EMU_FREE'' = Inr ''EMU_FREE''"
  by code_simp

lemma sge_meta_path:
  "path_join [''/n/active_jobs/5.1'', ''qrmi_ocs_acquired.tsv''] = ''/n/active_jobs/5.1/qrmi_ocs_acquired.tsv''"
  by code_simp

lemma sge_slots:
  assumes "slots_answer sge_host sge_config job slots" shows "slots = Some 2"
proof -
  have n: "SlotsResourceName sge_config = ''qpu_slots''" "QstatPath sge_config = ''/opt/sge/qstat''"
    "EvalSymlinks (tree sge_host) ''/opt/sge/qstat'' = Inr ''/opt/sge/qstat''"
    "parseJobRequestedResource (''hard_resource_list:  qpu=EMU_FREE,qpu_slots=2'' @ [LF]) ''qpu_slots'' = Inr ''2''"
    "parseGrantedSlots ''2'' = Inr 2" by code_simp+
  have "out = ''hard_resource_list:  qpu=EMU_FREE,qpu_slots=2'' @ [LF]"
    if "says sge_host ''/opt/sge/qstat'' args out" for args out
    using that n(3) by (auto simp: says_def sge_host_def sge_cmd_def)
  with assms n show ?thesis by (auto simp: slots_answer_def)
qed

lemma sge_uid: "owner_uid sge_host ''alice'' u \<Longrightarrow> u = 1001"
proof -
  have "users sge_host ''alice'' = Some ''1001''" "atoi ''1001'' = Some 1001" by code_simp+
  then show "owner_uid sge_host ''alice'' u \<Longrightarrow> u = 1001" by (simp add: owner_uid_def)
qed

lemma sge_served:
  assumes "served sample_api sge_host sge_config ''alice'' ''EMU_FREE'' sge_world w' kvs"
  shows "kvs = [(''EMU_FREE_QRMI_URL'', ''http://emu''), (''QRMI_JOB_UID'', ''1001''), (''QRMI_JOB_ID'', ''5.1''),
      (''QRMI_JOB_QPU_SLOTS'', ''2''), (''EMU_FREE_QRMI_JOB_ACQUISITION_TOKEN'', ''tok-1''),
      (''QRMI_JOB_QPU_RESOURCES'', ''EMU_FREE''), (''QRMI_JOB_QPU_TYPES'', ''pasqal-cloud''),
      (''qrmi_resources'', ''EMU_FREE''), (''qrmi_resource_types'', ''pasqal-cloud''), (''qrmi_acquired_count'', ''1''),
      (''qrmi_prolog_status'', ''success'')] \<and>
    file_data (files w') (path_join [getenv w' ''SGE_JOB_SPOOL_DIR'', ''qrmi_ocs_acquired.tsv'']) =
      Some (metadata_line ''EMU_FREE'' 3 ''tok-1'' (now sge_host))"
proof -
  have l: "level_vars (LogLevel sge_config) = []" by code_simp
  have v: "library_vars ''EMU_FREE'' (c_def_envs sample_api e q) = [(''EMU_FREE_QRMI_URL'', ''http://emu'')]" for e q
    by (simp add: library_vars_def sample_api_def c_text_def)
  have t: "type_name sample_api e q = ''pasqal-cloud''" for e q
    by (simp add: type_name_def sample_api_def c_text_def)
  have j: "job_vars (penv sge_world ++ map_of (rev [(''EMU_FREE_QRMI_URL'', ''http://emu'')])) 1001 (Some 2) =
      [(''QRMI_JOB_UID'', ''1001''), (''QRMI_JOB_ID'', ''5.1''), (''QRMI_JOB_QPU_SLOTS'', ''2'')]"
    by code_simp
  have tok: "token = ''tok-1''" if "library_run sample_api m0 m1 path be q c e q1 n token q2" for m0 m1 path be q c e q1 n token q2
    using that by (auto simp: library_run_def sample_api_def c_text_def)
  have ty: "c_def_type sample_api e q = 3" for e q by (simp add: sample_api_def)
  from assms obtain u slots token where u: "owner_uid sge_host ''alice'' u" and
    slots: "\<exists>job. slots_answer sge_host sge_config job slots" and
    token: "token = ''tok-1''" and
    kvs: "kvs = [(''EMU_FREE_QRMI_URL'', ''http://emu'')] @
       job_vars (penv sge_world ++ map_of (rev [(''EMU_FREE_QRMI_URL'', ''http://emu'')])) u slots @
       token_vars ''EMU_FREE'' token ''pasqal-cloud''" and
    meta: "file_data (files w') (path_join [getenv w' ''SGE_JOB_SPOOL_DIR'', ''qrmi_ocs_acquired.tsv'']) =
      Some (metadata_line ''EMU_FREE'' 3 token (now sge_host))"
    unfolding served_def Let_def l v t ty append_Nil
    by (elim exE conjE) (rule that, assumption, rule exI, assumption, erule tok, assumption+)
  have "u = 1001" "slots = Some 2" using u slots sge_uid sge_slots by blast+
  with kvs show ?thesis using meta by (simp add: j token token_vars_def del: map_of.simps rev.simps)
qed

text \<open>
  C5. What a successful run leaves, under every pattern of failing system calls. Either the
  scheduler says that the job requests no such resource, and the run only wrote a log line. Or the
  backend is the one the scheduler granted and everything else is what \<open>served\<close> lists: the owner's
  user id, the slots the scheduler names, the answers of the library in the environment each
  question was asked in, and the calls in one fixed order with one token held. The metadata file is
  exactly the line of that token. The environment of the process and the job environment file got
  the same variables: the log level, the entries of the definition behind the name of the backend,
  the user id, the job id and the slots, then the token, the backend and its type, and the status
  last.
\<close>

theorem prolog_success:
  fixes w w' :: "'q world"
  assumes "runWithConfig b h jo cfg w = (None, w')"
    and "is_abs (getenv w ''SGE_JOB_SPOOL_DIR'')" "is_abs (getenv w' ''SGE_JOB_SPOOL_DIR'')"
  shows "(\<exists>e m. fst (readGranted h (ResourceName cfg) (QstatPath cfg) w) = Inl e \<and> is_requested_not_found e \<and>
      files w' = files w \<and> penv w' = penv w \<and> qlog w' = qlog w \<and> logs w' = logs w @ [m]) \<or>
    (\<exists>api g be kvs. b = Real api \<and> fst (readGranted h (ResourceName cfg) (QstatPath cfg) w) = Inr g \<and>
      ParseGrantedBackend g = Inr be \<and> served api h cfg jo be w w' kvs \<and>
      penv w' = penv w ++ map_of (rev kvs) \<and>
      (let p = path_join [getenv w ''SGE_JOB_SPOOL_DIR'', ''environment''] in
       file_data (files w') p = Some (env_content w p @ concat (map (\<lambda>(k, v). k @ ''='' @ v @ [LF]) kvs))))"
proof (cases "isl (fst (readGranted h (ResourceName cfg) (QstatPath cfg) w))")
  case True
  then obtain e w1 m where "readGranted h (ResourceName cfg) (QstatPath cfg) w = (Inl e, w1)"
    "is_requested_not_found e" "only_ran w w1" "w' = log_info prolog_component m w1"
    using runWithConfig_None [OF assms(1)] by auto
  then show ?thesis using only_ran_fields [of w w1]
    by (intro disjI1 exI [of _ e] exI [of _ "(False, prolog_component @ ''['' @ ''INFO'' @ '']: '' @ m @ [LF])"])
      (simp add: log_info_def log_write_def)
next
  case False
  have lines: "concat (map (\<lambda>(k, v). k @ ''='' @ v @ [LF]) kvs) = env_text kvs" for kvs
    by (induction kvs) (auto simp: env_line_def)
  from runWithConfig_served [OF assms False] show ?thesis unfolding lines by blast
qed

theorem prolog_success_witness:
  "\<exists>w'. runWithConfig (Real sample_api) sge_host ''alice'' sge_config sge_world = (None, w') \<and>
     value_in (penv w') ''EMU_FREE_QRMI_JOB_ACQUISITION_TOKEN'' = ''tok-1'' \<and>
     value_in (penv w') ''EMU_FREE_QRMI_URL'' = ''http://emu'' \<and>
     value_in (penv w') ''QRMI_JOB_UID'' = ''1001'' \<and> value_in (penv w') ''QRMI_JOB_ID'' = ''5.1'' \<and>
     value_in (penv w') ''QRMI_JOB_QPU_SLOTS'' = ''2'' \<and>
     file_data (files w') ''/n/active_jobs/5.1/qrmi_ocs_acquired.tsv'' =
       Some (metadata_line ''EMU_FREE'' 3 ''tok-1'' (now sge_host))"
proof -
  obtain w' where run: "runWithConfig (Real sample_api) sge_host ''alice'' sge_config sge_world = (None, w')"
    "getenv w' ''SGE_JOB_SPOOL_DIR'' = ''/n/active_jobs/5.1''" using sge_live by blast
  have "is_abs (getenv w' ''SGE_JOB_SPOOL_DIR'')" unfolding run(2) by code_simp
  from prolog_success [OF run(1) sge_world_start(3) this] sge_granted sge_backend
  obtain kvs where s: "served sample_api sge_host sge_config ''alice'' ''EMU_FREE'' sge_world w' kvs"
    and p: "penv w' = penv sge_world ++ map_of (rev kvs)" by auto
  note d = sge_served [OF s, unfolded run(2) sge_meta_path]
  from run(1) d p show ?thesis
    by (intro exI [of _ w'] conjI) (simp_all add: value_in_def)
qed

end
