(* ===== verification/Link_Cycles.thy ===== *)
theory Link_Cycles
  imports File_Tree
begin

text \<open>
  Symbolic links that lead in a circle. A step relation follows a path component by component with
  no limit on the links; a resolution is endless when it can go on for any number of steps. The
  lemmas: the bounded walk of \<open>EvalSymlinks\<close> ends with \<open>ELOOP\<close> on every endless resolution, and a
  link whose resolution needs the same link again, however it is written and whatever lies
  between, is endless.
\<close>

subsection \<open>Following a path without a limit\<close>

text \<open>A configuration is the resolved part of the path and the components to go.\<close>

inductive walk_step :: "tree \<Rightarrow> string list \<times> string list \<Rightarrow> string list \<times> string list \<Rightarrow> bool" for t where
  stay: "c = [] \<or> c = ''.'' \<Longrightarrow> walk_step t (dest, c # rest) (dest, rest)"
| up: "walk_step t (dest, ''..'' # rest) (butlast dest, rest)"
| down: "c \<notin> {[], ''.'', ''..''} \<Longrightarrow> lookup t (dest @ [c]) = Some TDir \<Longrightarrow>
    walk_step t (dest, c # rest) (dest @ [c], rest)"
| follow: "c \<notin> {[], ''.'', ''..''} \<Longrightarrow> lookup t (dest @ [c]) = Some (TLink l) \<Longrightarrow>
    walk_step t (dest, c # rest) (if is_abs l then [] else dest, split SLASH l @ rest)"

inductive_cases walk_stepE: "walk_step t (dest, c # rest) cfg"

inductive_simps walk_step_Nil [simp]: "walk_step t (dest, []) cfg"

definition endless :: "tree \<Rightarrow> string list \<times> string list \<Rightarrow> bool" where
  "endless t cfg = (\<forall>n. \<exists>cfg'. (walk_step t ^^ n) cfg cfg')"

text \<open>The link \<open>c\<close> in the directory \<open>d\<close>: to resolve it one has to resolve it first.\<close>

definition link_cycle :: "tree \<Rightarrow> string list \<Rightarrow> string \<Rightarrow> bool" where
  "link_cycle t d c = (\<exists>rest. (walk_step t)\<^sup>+\<^sup>+ (d, [c]) (d, c # rest))"

subsection \<open>Endless resolutions\<close>

lemma endless_step: "endless t cfg \<Longrightarrow> \<exists>cfg'. walk_step t cfg cfg'"
  unfolding endless_def by (metis relpowp_1)

lemma endless_next:
  assumes "endless t cfg" "\<And>cfg'. walk_step t cfg cfg' \<Longrightarrow> cfg' = nxt"
  shows "endless t nxt"
  unfolding endless_def
proof
  fix n
  obtain cfg' where "(walk_step t ^^ Suc n) cfg cfg'" using assms(1) unfolding endless_def by blast
  then obtain m where "walk_step t cfg m" "(walk_step t ^^ n) m cfg'" by (rule relpowp_Suc_E2)
  with assms(2) show "\<exists>cfg'. (walk_step t ^^ n) nxt cfg'" by blast
qed

text \<open>Whatever its limit is, the walk ends at it.\<close>

lemma walk_endless:
  "endless t (dest, rest) \<Longrightarrow> walk t k dest rest = Inl (SysErr ELOOP ''EvalSymlinks'')"
proof (induction t k dest rest rule: walk.induct)
  case (1 t k dest)
  then show ?case using endless_step by force
next
  case (2 t k dest c rest)
  note skip = 2(1) and up = 2(2) and down = 2(3) and link = 2(4) and e = 2(5)
  consider "c = [] \<or> c = ''.''" | "c = ''..''" | "c \<notin> {[], ''.'', ''..''}" by blast
  then show ?case
  proof cases
    case 1
    then have "endless t (dest, rest)" by (intro endless_next [OF e]) (auto elim: walk_stepE)
    with 1 skip show ?thesis by auto
  next
    case 2
    then have "endless t (butlast dest, rest)" by (intro endless_next [OF e]) (auto elim: walk_stepE)
    with 2 up show ?thesis by simp
  next
    case 3
    then have c: "\<not> (c = [] \<or> c = ''.'')" "c \<noteq> ''..''" by auto
    obtain cfg where "walk_step t (dest, c # rest) cfg" using endless_step [OF e] by blast
    with 3 consider "lookup t (dest @ [c]) = Some TDir" | l where "lookup t (dest @ [c]) = Some (TLink l)"
      by (auto elim: walk_stepE)
    then show ?thesis
    proof cases
      case 1
      then have "endless t (dest @ [c], rest)" using 3 by (intro endless_next [OF e]) (auto elim: walk_stepE)
      with down [OF c] 1 c show ?thesis by simp
    next
      case (2 l)
      then have "endless t (if is_abs l then [] else dest, split SLASH l @ rest)" using 3
        by (intro endless_next [OF e]) (auto elim!: walk_stepE)
      then show ?thesis using link [OF c 2 refl] 2 c by (cases k) simp_all
    qed
  qed
qed

lemma EvalSymlinks_endless:
  "endless t ([], split SLASH path) \<Longrightarrow> EvalSymlinks t path = Inl (SysErr ELOOP ''EvalSymlinks'')"
  by (simp add: EvalSymlinks_def EvalSymlinks_elems_def walk_endless)

subsection \<open>Cycles are endless\<close>

lemma endless_before:
  assumes "(walk_step t)\<^sup>*\<^sup>* cfg cfg'" "endless t cfg'"
  shows "endless t cfg"
  using assms
proof (induction rule: converse_rtranclp_induct)
  case (step a b)
  then have b: "endless t b" by simp
  show ?case unfolding endless_def
  proof
    fix n
    show "\<exists>c. (walk_step t ^^ n) a c"
    proof (cases n)
      case (Suc m)
      obtain c where "(walk_step t ^^ m) b c" using b unfolding endless_def by blast
      with step(1) have "(walk_step t ^^ Suc m) a c" by (rule relpowp_Suc_I2)
      with Suc show ?thesis by blast
    qed auto
  qed
qed simp

lemma walk_step_append: "walk_step t (d, r) (d', r') \<Longrightarrow> walk_step t (d, r @ s) (d', r' @ s)"
  by (cases r) (auto elim!: walk_stepE intro: walk_step.intros simp: walk_step.simps)

lemma walk_steps_append:
  "(walk_step t ^^ n) (d, r) (d', r') \<Longrightarrow> (walk_step t ^^ n) (d, r @ s) (d', r' @ s)"
proof (induction n arbitrary: d' r')
  case (Suc n)
  then obtain d1 r1 where "(walk_step t ^^ n) (d, r) (d1, r1)" "walk_step t (d1, r1) (d', r')" by auto
  with Suc.IH walk_step_append show ?case by (metis relpowp_Suc_I)
qed simp

lemma cycle_endless:
  assumes "link_cycle t d c"
  shows "endless t (d, c # rest)"
  unfolding endless_def
proof
  obtain r m where m: "(walk_step t ^^ Suc m) (d, [c]) (d, c # r)"
    using assms by (auto simp: link_cycle_def tranclp_power gr0_conv_Suc)
  fix n
  show "\<exists>cfg. (walk_step t ^^ n) (d, c # rest) cfg"
  proof (induction n arbitrary: rest rule: less_induct)
    case (less n)
    have run: "(walk_step t ^^ Suc m) (d, c # rest) (d, c # r @ rest)"
      using walk_steps_append [OF m, of rest] by simp
    show ?case
    proof (cases "n \<le> Suc m")
      case True
      then have "(walk_step t ^^ (n + (Suc m - n))) (d, c # rest) (d, c # r @ rest)" using run by simp
      then show ?thesis unfolding relpowp_add by blast
    next
      case False
      then have n: "n = Suc m + (n - Suc m)" "n - Suc m < n" by simp_all
      obtain cfg where "(walk_step t ^^ (n - Suc m)) (d, c # r @ rest) cfg"
        using less [OF n(2), of "r @ rest"] by auto
      with run have "(walk_step t ^^ (Suc m + (n - Suc m))) (d, c # rest) cfg"
        unfolding relpowp_add by blast
      with n(1) show ?thesis by metis
    qed
  qed
qed

lemma reached_cycle:
  "(walk_step t)\<^sup>*\<^sup>* ([], split SLASH path) (d, c # rest) \<Longrightarrow> link_cycle t d c \<Longrightarrow>
   endless t ([], split SLASH path)"
  using endless_before cycle_endless by blast

end
