(* ===== verification/Launcher.thy ===== *)
theory Launcher
  imports Sanitize Link_Cycles
begin

text \<open>
  \<open>src/cmd/qrmi-ocs-launch/main.go\<close>: the launcher that starts a hook with a clean environment.
  It reads its options, builds the environment, checks the hook's file and replaces itself
  with the hook. The lemmas: the options of a rendered command line are read back, and
  nothing is executed but a file that only root can write, with an environment that depends
  on the launcher's own settings and the validated scheduler variables.
\<close>

definition trustedHook :: "tree \<Rightarrow> string \<Rightarrow> gerr + string" where
  "trustedHook t path =
     (if \<not> is_abs path then Inl (Errorf ''hook %s is not an absolute path'' [S path])
      else case EvalSymlinks t path of
        Inl e \<Rightarrow> Inl e
      | Inr resolved \<Rightarrow>
          (case Stat t resolved of
             None \<Rightarrow> Inl (SysErr ENOENT (''stat '' @ resolved))
           | Some n \<Rightarrow>
               if \<not> root_owned_file n
               then Inl (Errorf ''hook %s is not a root-owned file that only root can write'' [S resolved])
               else Inr resolved))"

text \<open>The option loop: the settings read and the arguments from the first that is no option.\<close>

fun parse_options :: "string list \<Rightarrow> LaunchSettings \<Rightarrow> gerr + (LaunchSettings \<times> string list)" where
  "parse_options [] s = Inr (s, [])"
| "parse_options (arg # args) s =
     (if \<not> prefix ''--'' arg then Inr (s, arg # args)
      else case cut (CHR ''='') arg of (name, value, _) \<Rightarrow>
        if name = ''--spool-root''
        then parse_options args (s\<lparr>SpoolRoots := SpoolRoots s @ [value]\<rparr>)
        else if name = ''--sge-root'' then parse_options args (s\<lparr>SGERoot := value\<rparr>)
        else if name = ''--sge-cell'' then parse_options args (s\<lparr>SGECell := value\<rparr>)
        else if name = ''--qmaster-port'' then parse_options args (s\<lparr>QmasterPort := value\<rparr>)
        else if name = ''--execd-port'' then parse_options args (s\<lparr>ExecdPort := value\<rparr>)
        else Inl (Errorf ''unknown option %s'' [S name]))"

definition no_settings :: LaunchSettings where
  "no_settings = \<lparr>SGERoot = [], SGECell = [], SpoolRoots = [], QmasterPort = [], ExecdPort = []\<rparr>"

definition launcher_usage :: string where
  "launcher_usage = ''usage: %s --sge-root=DIR --sge-cell=CELL [--spool-root=DIR]... '' @
     ''[--qmaster-port=N] [--execd-port=N] <hook> [hook arguments]''"

definition prepare ::
  "host \<Rightarrow> string list \<Rightarrow> string list \<Rightarrow> gerr + (string \<times> string list \<times> string list)" where
  "prepare h args environ =
     (case parse_options (tl args) no_settings of
        Inl e \<Rightarrow> Inl e
      | Inr (settings, rest) \<Rightarrow>
          (case rest of
             [] \<Rightarrow> Inl (Errorf launcher_usage [S (path_base (hd args))])
           | hook # hook_args \<Rightarrow>
               (case LaunchEnv h environ settings of
                  Inl e \<Rightarrow> Inl e
                | Inr env \<Rightarrow>
                    (case trustedHook (tree h) hook of
                       Inl e \<Rightarrow> Inl e
                     | Inr path \<Rightarrow> Inr (path, path # hook_args, env)))))"

text \<open>
  What \<open>main\<close> ends in: the \<open>execve\<close> call, after which the launcher only runs on when the call
  fails (exit code 1), or an exit. \<open>chdir\<close> is the result of \<open>os.Chdir("/")\<close>.
\<close>

datatype launched = Exec string "string list" "string list" | LaunchExit nat

definition launch_main :: "host \<Rightarrow> gerr option \<Rightarrow> string list \<Rightarrow> string list \<Rightarrow> launched" where
  "launch_main h chdir args environ =
     (case prepare h args environ of
        Inl e \<Rightarrow> LaunchExit (ExitCode (Some e))
      | Inr (path, argv, env) \<Rightarrow>
          (case chdir of
             Some e \<Rightarrow> LaunchExit (ExitCode (Some e))
           | None \<Rightarrow> Exec path argv env))"

subsection \<open>The command line\<close>

text \<open>The options as the setup tool writes them.\<close>

definition option_arg :: "string \<Rightarrow> string \<Rightarrow> string" where
  "option_arg name value = name @ CHR ''='' # value"

definition render_options :: "LaunchSettings \<Rightarrow> string list" where
  "render_options s =
     [option_arg ''--sge-root'' (SGERoot s), option_arg ''--sge-cell'' (SGECell s)]
     @ map (option_arg ''--spool-root'') (SpoolRoots s)
     @ (if QmasterPort s = [] then [] else [option_arg ''--qmaster-port'' (QmasterPort s)])
     @ (if ExecdPort s = [] then [] else [option_arg ''--execd-port'' (ExecdPort s)])"

lemma parse_option_arg:
  "parse_options (option_arg ''--sge-root'' v # args) s = parse_options args (s\<lparr>SGERoot := v\<rparr>)"
  "parse_options (option_arg ''--sge-cell'' v # args) s = parse_options args (s\<lparr>SGECell := v\<rparr>)"
  "parse_options (option_arg ''--spool-root'' v # args) s =
     parse_options args (s\<lparr>SpoolRoots := SpoolRoots s @ [v]\<rparr>)"
  "parse_options (option_arg ''--qmaster-port'' v # args) s = parse_options args (s\<lparr>QmasterPort := v\<rparr>)"
  "parse_options (option_arg ''--execd-port'' v # args) s = parse_options args (s\<lparr>ExecdPort := v\<rparr>)"
  by (simp_all add: option_arg_def cut_def)

lemma parse_spool_roots:
  "parse_options (map (option_arg ''--spool-root'') roots @ args) s =
   parse_options args (s\<lparr>SpoolRoots := SpoolRoots s @ roots\<rparr>)"
  by (induction roots arbitrary: s) (simp_all add: parse_option_arg del: parse_options.simps)

lemma parse_rendered:
  assumes "rest = [] \<or> \<not> prefix ''--'' (hd rest)"
  shows "parse_options (render_options s @ rest) no_settings = Inr (s, rest)"
proof -
  have "parse_options rest t = Inr (t, rest)" for t
    using assms by (cases rest) simp_all
  then show ?thesis
    by (simp add: render_options_def no_settings_def parse_spool_roots parse_option_arg del: parse_options.simps)
qed

subsection \<open>What is executed\<close>

lemma trustedHook_Inr:
  assumes "trustedHook t path = Inr p"
  shows "is_abs path \<and> EvalSymlinks t path = Inr p \<and> (\<exists>n. Stat t p = Some n \<and> root_owned_file n)"
  using assms by (auto simp: trustedHook_def split: if_splits sum.splits option.splits)

lemma prepare_Inr:
  assumes "prepare h args environ = Inr (path, argv, env)"
  obtains settings hook hook_args where
    "parse_options (tl args) no_settings = Inr (settings, hook # hook_args)"
    "LaunchEnv h environ settings = Inr env" "trustedHook (tree h) hook = Inr path"
    "argv = path # hook_args"
  using assms by (auto simp: prepare_def split: sum.splits list.splits prod.splits)

lemma ExitCode_range_JobError: "ExitCode (Some (JobError e)) = 100"
  by (simp add: err_simps exit_defs)

unbundle bit_operations_syntax

lemma Stat_link_free:
  assumes "link_free t d" "lookup t d = Some n" "\<not> is_link n"
  shows "Stat t (abs_path d) = Some n"
proof -
  have nd: "\<forall>c \<in> set d. normal_elem c" using assms(1) by (rule resolved_normal)
  then have "split SLASH (abs_path d) = [] # (if d = [] then [[]] else d)"
    by (intro split_abs_path) (auto simp: normal_elem_def)
  then have w: "walk t kernel_links [] (split SLASH (abs_path d)) = walk t kernel_links [] d" by simp
  have "walk t kernel_links [] d = Inr d"
  proof (cases d rule: rev_cases)
    case (snoc p c)
    then have p: "dir_path t p" using assms(1) resolved_dir_path [of t p c "[]"] by simp
    have c: "\<not> (c = [] \<or> c = ''.'')" "c \<noteq> ''..''" using nd snoc by (auto simp: normal_elem_def)
    have "walk t kernel_links [] (p @ [c]) = walk t kernel_links p [c]"
      using walk_dirs [of t "[]" p kernel_links "[c]"] p by simp
    also have "\<dots> = Inr (p @ [c])" using assms(2,3) snoc c by (cases n) (simp_all add: is_link_def)
    finally show ?thesis using snoc by simp
  qed simp
  then show ?thesis using w assms(2) by (simp add: Stat_def)
qed

lemma EvalSymlinks_exit: "EvalSymlinks t p = Inl e \<Longrightarrow> ExitCode (Some e) = 1"
proof -
  have "walk t k d r = Inl e \<Longrightarrow> ExitCode (Some e) = 1" for k d r
    by (induction t k d r rule: walk.induct)
      (auto simp: err_simps exit_defs split: if_splits option.splits tnode.splits nat.splits)
  then show "EvalSymlinks t p = Inl e \<Longrightarrow> ExitCode (Some e) = 1"
    by (auto simp: EvalSymlinks_def EvalSymlinks_elems_def split: sum.splits)
qed

lemma trustedHook_exit: "trustedHook t p = Inl e \<Longrightarrow> ExitCode (Some e) = 1"
  by (auto simp: trustedHook_def err_simps exit_defs dest: EvalSymlinks_exit
      split: if_splits sum.splits option.splits)

lemma parse_options_exit: "parse_options args s = Inl e \<Longrightarrow> ExitCode (Some e) = 1"
  by (induction args s rule: parse_options.induct)
    (auto simp: err_simps exit_defs split: if_splits prod.splits)

lemma validate_exit: "validate s = Some e \<Longrightarrow> ExitCode (Some e) = 1"
  by (auto simp: validate_def err_simps exit_defs split: if_splits option.splits)

lemma LaunchEnv_JobError:
  assumes "LaunchEnv h environ s = Inl e" "CheckLoaderEnv environ = None" "validate s = None"
  shows "\<exists>x. e = JobError x"
proof -
  let ?get = "env_get (env_values environ)"
  show ?thesis
  proof (cases "digits (?get ''JOB_ID'') \<and> (?get ''SGE_TASK_ID'' = [] \<or> taskPattern (?get ''SGE_TASK_ID''))")
    case True
    then have c: "(\<not> digits (?get ''JOB_ID'')) = False"
      "(?get ''SGE_TASK_ID'' \<noteq> [] \<and> \<not> taskPattern (?get ''SGE_TASK_ID'')) = False" by auto
    show ?thesis
    proof (cases "check_roots (tree h) (?get ''SGE_JOB_SPOOL_DIR'') (?get ''JOB_ID'') (?get ''SGE_TASK_ID'') None
        (if SpoolRoots s = [] then [SGERoot s] else SpoolRoots s)")
      case None
      show ?thesis using assms(1)
        unfolding LaunchEnv_def Let_def assms(2,3) option.case c if_False None by simp
    next
      case (Some x)
      show ?thesis using assms(1)
        unfolding LaunchEnv_def Let_def assms(2,3) option.case c if_False Some by auto
    qed
  next
    case False
    then consider "(\<not> digits (?get ''JOB_ID'')) = True"
      | "(\<not> digits (?get ''JOB_ID'')) = False"
        "(?get ''SGE_TASK_ID'' \<noteq> [] \<and> \<not> taskPattern (?get ''SGE_TASK_ID'')) = True" by auto
    then show ?thesis
    proof cases
      case 1
      show ?thesis using assms(1)
        unfolding LaunchEnv_def Let_def assms(2,3) option.case 1 if_True by auto
    next
      case 2
      show ?thesis using assms(1)
        unfolding LaunchEnv_def Let_def assms(2,3) option.case 2 if_True if_False by auto
    qed
  qed
qed

lemma LaunchEnv_exit: "LaunchEnv h environ s = Inl e \<Longrightarrow>
  ExitCode (Some e) = (if CheckLoaderEnv environ = None \<and> validate s \<noteq> None then 1 else 100)"
proof -
  assume l: "LaunchEnv h environ s = Inl e"
  consider x where "CheckLoaderEnv environ = Some x"
    | x where "CheckLoaderEnv environ = None" "validate s = Some x"
    | "CheckLoaderEnv environ = None" "validate s = None" by (meson option.exhaust)
  then show ?thesis
  proof cases
    case 1
    with l have "e = x" by (simp add: LaunchEnv_def)
    then show ?thesis using 1 CheckLoaderEnv_Some [OF 1] by (simp add: exit_defs)
  next
    case 2
    with l have "e = x" by (simp add: LaunchEnv_def)
    then show ?thesis using 2 validate_exit [OF 2(2)] by simp
  next
    case 3
    then show ?thesis using LaunchEnv_JobError [OF l] by (auto simp: err_simps exit_defs)
  qed
qed

subsection \<open>What the launcher promises\<close>

text \<open>
  C11. Whatever the job's environment, the launcher executes only a regular file that belongs to
  root and that group and others cannot write, under the resolved path of the hook it was told
  to run, with the arguments that follow it on its own command line and the environment that
  \<open>LaunchEnv\<close> builds from the settings before it.
\<close>

theorem launch_main_trusted:
  assumes "launch_main h chdir args environ = Exec path argv env"
  shows "\<exists>s hook hook_args d m. parse_options (tl args) no_settings = Inr (s, hook # hook_args) \<and>
    is_abs hook \<and> EvalSymlinks_elems (tree h) hook = Inr d \<and> path = abs_path d \<and>
    link_free (tree h) d \<and> lookup (tree h) d = Some (TReg m 0) \<and> m AND 18 = 0 \<and>
    argv = path # hook_args \<and> LaunchEnv h environ s = Inr env"
proof -
  from assms have "prepare h args environ = Inr (path, argv, env)"
    by (auto simp: launch_main_def split: sum.splits prod.splits option.splits)
  then obtain s hook hook_args where p: "parse_options (tl args) no_settings = Inr (s, hook # hook_args)"
    "LaunchEnv h environ s = Inr env" "trustedHook (tree h) hook = Inr path" "argv = path # hook_args"
    by (rule prepare_Inr)
  note t = trustedHook_Inr [OF p(3)]
  then obtain d n where d: "EvalSymlinks_elems (tree h) hook = Inr d" "path = abs_path d"
    "Stat (tree h) path = Some n" "root_owned_file n" by (auto simp: EvalSymlinks_Inr)
  then obtain m where m: "n = TReg m 0" "m AND 18 = 0"
    by (auto simp: root_owned_file_def split: tnode.splits)
  have lf: "link_free (tree h) d" using EvalSymlinks_resolved d(1) .
  have "lookup (tree h) d = Some n"
  proof (cases "lookup (tree h) d")
    case None
    then obtain p c where "d = p @ [c]" by (cases d rule: rev_cases) (auto simp: lookup_def)
    then show ?thesis using lf None by (auto simp: link_free_def)
  next
    case (Some n')
    have "\<not> is_link n'"
    proof (cases d rule: rev_cases)
      case Nil
      then show ?thesis using Some by (auto simp: lookup_def is_link_def)
    next
      case (snoc p c)
      then show ?thesis using lf Some by (auto simp: link_free_def)
    qed
    then show ?thesis using Stat_link_free [OF lf Some] d(2,3) Some by simp
  qed
  then show ?thesis using p d t lf m by metis
qed

definition hook_tree :: tree where
  "hook_tree = sample_tree([''opt''] \<mapsto> TDir, [''opt'', ''hook''] \<mapsto> TReg 493 0, [''opt'', ''bad''] \<mapsto> TReg 511 0)"

definition hook_host :: host where
  "hook_host = quiet_host\<lparr>tree := hook_tree\<rparr>"

theorem launch_main_trusted_witness:
  "\<exists>argv env. launch_main hook_host None (''launch'' # render_options sample_settings @ [''/opt/hook'', ''--config=/c''])
     sample_environ = Exec ''/opt/hook'' argv env \<and> argv = [''/opt/hook'', ''--config=/c'']"
proof -
  let ?args = "''launch'' # render_options sample_settings @ [''/opt/hook'', ''--config=/c'']"
  have c: "(case launch_main hook_host None ?args sample_environ of
      Exec p a e \<Rightarrow> p = ''/opt/hook'' | LaunchExit n \<Rightarrow> False)" by code_simp
  then obtain argv env where x: "launch_main hook_host None ?args sample_environ = Exec ''/opt/hook'' argv env"
    by (auto split: launched.splits)
  have o: "parse_options (tl ?args) no_settings = Inr (sample_settings, [''/opt/hook'', ''--config=/c''])"
    using parse_rendered [of "[''/opt/hook'', ''--config=/c'']" sample_settings] by simp
  from launch_main_trusted [OF x] o have "argv = [''/opt/hook'', ''--config=/c'']" by auto
  with x show ?thesis by blast
qed

text \<open>
  C33. The options the setup tool writes are read back: on a rendered command line the launcher
  runs the hook with exactly those settings, and the outcome is decided by the environment and
  the hook's file alone.
\<close>

theorem launch_main_rendered:
  assumes "\<not> prefix ''--'' hook"
  shows "launch_main h None (prog # render_options s @ hook # hook_args) environ =
    (case LaunchEnv h environ s of
       Inl e \<Rightarrow> LaunchExit (ExitCode (Some e))
     | Inr env \<Rightarrow> (case trustedHook (tree h) hook of
         Inl e \<Rightarrow> LaunchExit 1 | Inr path \<Rightarrow> Exec path (path # hook_args) env))"
proof -
  have "parse_options (tl (prog # render_options s @ hook # hook_args)) no_settings =
      Inr (s, hook # hook_args)"
    using parse_rendered [of "hook # hook_args" s] assms by simp
  then show ?thesis using trustedHook_exit [of "tree h" hook]
    by (auto simp: launch_main_def prepare_def simp del: parse_options.simps split: sum.split)
qed

theorem launch_main_rendered_witness:
  "launch_main hook_host None (''launch'' # render_options sample_settings @ [''/opt/bad'']) sample_environ =
   LaunchExit 1"
proof -
  have n: "\<not> prefix ''--'' ''/opt/bad''" by simp
  have "isl (trustedHook (tree hook_host) ''/opt/bad'')"
    "\<not> isl (LaunchEnv hook_host sample_environ sample_settings)" by code_simp+
  then show ?thesis using launch_main_rendered [OF n, of hook_host "''launch''" sample_settings "[]" sample_environ]
    by (auto split: sum.splits)
qed

text \<open>
  C34. The launcher's exit codes: 100 (the job's error) for a loader variable, a bad job id, task
  id or spool directory; 1 (the host's) for its own options, the hook's file and a failing
  change of directory; no other code.
\<close>

theorem launch_main_exit:
  assumes "launch_main h chdir args environ = LaunchExit c"
    and "chdir = None \<or> (\<exists>e. chdir = Some (SysErr e ''chdir /''))"
  shows "c \<in> {1, 100} \<and>
    (c = 100 \<longleftrightarrow> (\<exists>s hook hook_args e. parse_options (tl args) no_settings = Inr (s, hook # hook_args) \<and>
       LaunchEnv h environ s = Inl e \<and> (CheckLoaderEnv environ \<noteq> None \<or> validate s = None)))"
proof -
  consider (opt) e where "parse_options (tl args) no_settings = Inl e"
    | (none) s where "parse_options (tl args) no_settings = Inr (s, [])"
    | (hook) s hook hook_args where "parse_options (tl args) no_settings = Inr (s, hook # hook_args)"
    by (metis sum.exhaust prod.exhaust list.exhaust)
  then show ?thesis
  proof cases
    case opt
    with assms(1) parse_options_exit [OF opt] show ?thesis
      by (simp add: launch_main_def prepare_def)
  next
    case none
    with assms(1) show ?thesis by (simp add: launch_main_def prepare_def err_simps exit_defs)
  next
    case hook
    show ?thesis
    proof (cases "LaunchEnv h environ s")
      case (Inl e)
      with assms(1) hook LaunchEnv_exit [OF Inl] show ?thesis
        by (auto simp: launch_main_def prepare_def split: if_splits)
    next
      case (Inr env)
      with assms hook trustedHook_exit show ?thesis
        by (auto simp: launch_main_def prepare_def err_simps exit_defs split: sum.splits)
    qed
  qed
qed

theorem launch_main_exit_witness:
  "launch_main hook_host None (''launch'' # render_options sample_settings @ [''/opt/hook'']) [''JOB_ID=5x''] =
     LaunchExit 100"
proof -
  let ?args = "''launch'' # render_options sample_settings @ [''/opt/hook'']"
  have "launch_main hook_host None ?args [''JOB_ID=5x''] \<noteq> LaunchExit 1 \<and>
    (case launch_main hook_host None ?args [''JOB_ID=5x''] of LaunchExit c \<Rightarrow> True | Exec p a e \<Rightarrow> False)"
    by code_simp
  then obtain c where c: "launch_main hook_host None ?args [''JOB_ID=5x''] = LaunchExit c" "c \<noteq> 1"
    by (auto split: launched.splits)
  from launch_main_exit [OF c(1)] c show ?thesis by auto
qed

text \<open>
  C40. The checks of paths end on every resolution that does not: when following a path without a
  limit on the symbolic links could go on for ever, they report an error, for the hook's file, for
  a spool root and for the spool directory. Every cycle of links is of this kind, with absolute or
  relative targets, through subpaths and through other links (\<open>reached_cycle\<close>).
\<close>

theorem link_cycle_refused:
  assumes "endless t ([], split SLASH path)"
  shows "(is_abs path \<longrightarrow> trustedHook t path = Inl (SysErr ELOOP ''EvalSymlinks'')) \<and>
    CheckSpoolDir t path root job task \<noteq> None \<and> CheckSpoolDir t spool path job task \<noteq> None"
  using EvalSymlinks_endless [OF assms]
  by (auto simp: trustedHook_def CheckSpoolDir_def Let_def split: sum.split)

text \<open>A link that names itself, and one that leads through another link to a path below it.\<close>

definition cyclic_tree :: tree where
  "cyclic_tree = [[''opt''] \<mapsto> TDir, [''opt'', ''loop''] \<mapsto> TLink ''loop'',
     [''opt'', ''releases''] \<mapsto> TLink ''.'', [''opt'', ''current''] \<mapsto> TLink ''releases/current'']"

lemma cyclic_lookups:
  "lookup cyclic_tree [''opt''] = Some TDir" "lookup cyclic_tree [''opt'', ''loop''] = Some (TLink ''loop'')"
  "lookup cyclic_tree [''opt'', ''releases''] = Some (TLink ''.'')"
  "lookup cyclic_tree [''opt'', ''current''] = Some (TLink ''releases/current'')"
  by code_simp+

lemma cyclic_opt: "(walk_step cyclic_tree)\<^sup>*\<^sup>* ([], [[], ''opt''] @ rest) ([''opt''], rest)"
proof -
  have "walk_step cyclic_tree ([], [] # ''opt'' # rest) ([], ''opt'' # rest)" by (simp add: stay)
  moreover have "walk_step cyclic_tree ([], ''opt'' # rest) ([] @ [''opt''], rest)"
    by (rule down) (simp_all add: cyclic_lookups)
  ultimately show ?thesis by (auto intro: rtranclp_trans)
qed

lemma loop_cycle: "link_cycle cyclic_tree [''opt''] ''loop''"
  using follow [of "''loop''" cyclic_tree "[''opt'']" "''loop''" "[]"]
  by (auto simp: link_cycle_def cyclic_lookups is_abs_def)

lemma current_cycle: "link_cycle cyclic_tree [''opt''] ''current''"
proof -
  let ?step = "walk_step cyclic_tree"
  have "split SLASH ''releases/current'' = [''releases'', ''current'']" "split SLASH ''.'' = [''.'']" by code_simp+
  then have 1: "?step ([''opt''], [''current'']) ([''opt''], [''releases'', ''current''])"
    and 2: "?step ([''opt''], [''releases'', ''current'']) ([''opt''], [''.'', ''current''])"
    using follow [of "''current''" cyclic_tree "[''opt'']" "''releases/current''" "[]"]
      follow [of "''releases''" cyclic_tree "[''opt'']" "''.''" "[''current'']"]
    by (simp_all add: cyclic_lookups is_abs_def)
  have 3: "?step ([''opt''], [''.'', ''current'']) ([''opt''], ''current'' # [])" by (simp add: stay)
  from 1 2 3 have "?step\<^sup>+\<^sup>+ ([''opt''], [''current'']) ([''opt''], ''current'' # [])"
    by (meson tranclp.r_into_trancl tranclp.trancl_into_trancl)
  then show ?thesis unfolding link_cycle_def by blast
qed

theorem link_cycle_refused_witness:
  "trustedHook cyclic_tree ''/opt/loop'' = Inl (SysErr ELOOP ''EvalSymlinks'') \<and>
   trustedHook cyclic_tree ''/opt/current/hook'' = Inl (SysErr ELOOP ''EvalSymlinks'')"
proof -
  have s: "split SLASH ''/opt/loop'' = [[], ''opt''] @ [''loop'']"
    "split SLASH ''/opt/current/hook'' = [[], ''opt''] @ [''current'', ''hook'']" by code_simp+
  have "endless cyclic_tree ([], split SLASH ''/opt/loop'')"
    unfolding s(1) using endless_before [OF cyclic_opt] cycle_endless [OF loop_cycle] by blast
  moreover have "endless cyclic_tree ([], split SLASH ''/opt/current/hook'')"
    unfolding s(2) using endless_before [OF cyclic_opt] cycle_endless [OF current_cycle] by blast
  ultimately show ?thesis using link_cycle_refused by (auto simp: is_abs_def)
qed

end
