(* ===== verification/Availability.thy ===== *)
theory Availability
  imports Go_Errors
begin

text \<open>
  \<open>src/internal/availability\<close>: the configuration of the load sensor and its two providers. What
  they ask is not under src/: the YAML decoder, the HTTP client, its JSON decoder and
  \<open>url.JoinPath\<close> are parameters, as are the contents of files, which differ between cycles.
  The provider interface of \<open>provider.go\<close> is the locale \<open>provider\<close>; both providers and the one
  for a failed startup satisfy it.
\<close>

record AvailabilityStatus =
  Ready :: bool
  Reason :: string
  SlotsAvailable :: "i64 option"

text \<open>What a provider's \<open>Status\<close> returns in a cycle.\<close>

type_synonym status_result = "AvailabilityStatus \<times> gerr option"

subsection \<open>What the providers ask\<close>

text \<open>
  A decoded response body: the two fields, \<open>None\<close> when absent or null, or the decoder's error, and
  what a second \<open>Decode\<close> says.
\<close>

record warden_body =
  IsAccessible :: "bool option"
  QPUSlotsAvailable :: "i64 option"

datatype json_end = JsonEOF | JsonError gerr | JsonValue

datatype http_result =
    InvalidURL gerr
  | RequestFailed gerr
  | Response i64 string "gerr + warden_body" json_end

record http_client =
  insecure :: bool
  client_timeout :: i64

record surroundings =
  read_file :: "nat \<Rightarrow> string \<Rightarrow> gerr + string"
  http_get :: "nat \<Rightarrow> http_client \<Rightarrow> string \<Rightarrow> http_result"
  join_path :: "string \<Rightarrow> string \<Rightarrow> gerr + string"

subsection \<open>static.go\<close>

record StaticProvider =
  static_ready :: bool
  StateFile :: string

definition static_status :: "surroundings \<Rightarrow> StaticProvider \<Rightarrow> nat \<Rightarrow> status_result" where
  "static_status env p n =
     (if trim_space (StateFile p) = []
      then (\<lparr>Ready = static_ready p, Reason = ''configured static state'', SlotsAvailable = None\<rparr>, None)
      else case read_file env n (StateFile p) of
        Inl e \<Rightarrow> (\<lparr>Ready = False, Reason = ''state file unavailable'', SlotsAvailable = None\<rparr>, Some e)
      | Inr raw \<Rightarrow>
          if trim_space raw = ''1''
          then (\<lparr>Ready = True, Reason = ''state file ready'', SlotsAvailable = None\<rparr>, None)
          else if trim_space raw = ''0''
          then (\<lparr>Ready = False, Reason = ''state file unavailable'', SlotsAvailable = None\<rparr>, None)
          else (\<lparr>Ready = False, Reason = ''state file malformed'', SlotsAvailable = None\<rparr>,
                Some (Errorf ''invalid state file value %q'' [S (trim_space raw)])))"

subsection \<open>warden.go\<close>

record WardenProvider =
  BaseURL :: string
  Endpoint :: string
  TLSVerify :: bool
  Client :: "http_client option"

definition httpClient :: "WardenProvider \<Rightarrow> i64 \<Rightarrow> http_client" where
  "httpClient p timeout = \<lparr>insecure = (\<not> TLSVerify p), client_timeout = timeout\<rparr>"

definition WithTimeout :: "WardenProvider \<Rightarrow> i64 \<Rightarrow> WardenProvider" where
  "WithTimeout p timeout = p\<lparr>Client := Some (httpClient p timeout)\<rparr>"

definition trim_slash_right :: "string \<Rightarrow> string" where
  "trim_slash_right s = rev (dropWhile (\<lambda>c. c = CHR 0x2F) (rev s))"

definition accessibleURL :: "surroundings \<Rightarrow> WardenProvider \<Rightarrow> string" where
  "accessibleURL env p =
     (let base = trim_slash_right (BaseURL p);
          endpoint = CHR 0x2F # dropWhile (\<lambda>c. c = CHR 0x2F) (Endpoint p)
      in case join_path env base endpoint of Inl e \<Rightarrow> base @ endpoint | Inr u \<Rightarrow> u)"

definition ensureJSONEnd :: "json_end \<Rightarrow> gerr option" where
  "ensureJSONEnd e =
     (case e of
        JsonEOF \<Rightarrow> None
      | JsonError err \<Rightarrow> Some err
      | JsonValue \<Rightarrow> Some (Errorf ''multiple JSON values'' []))"

definition not_ready :: "string \<Rightarrow> gerr \<Rightarrow> status_result" where
  "not_ready reason e = (\<lparr>Ready = False, Reason = reason, SlotsAvailable = None\<rparr>, Some e)"

definition body_status :: "warden_body \<Rightarrow> status_result" where
  "body_status body =
     (case IsAccessible body of
        None \<Rightarrow> not_ready ''warden response missing is_accessible'' (Errorf ''missing is_accessible'' [])
      | Some acc \<Rightarrow>
          if \<not> acc
          then (\<lparr>Ready = False, Reason = ''warden reports unavailable'', SlotsAvailable = Some 0\<rparr>, None)
          else (case QPUSlotsAvailable body of
              None \<Rightarrow> (\<lparr>Ready = True, Reason = ''warden reports accessible'', SlotsAvailable = None\<rparr>, None)
            | Some n \<Rightarrow>
                if sint n < 0
                then not_ready ''warden response has invalid slots'' (Errorf ''negative qpu_slots_available'' [])
                else (\<lparr>Ready = True, Reason = ''warden reports accessible'', SlotsAvailable = Some n\<rparr>, None)))"

definition warden_status :: "surroundings \<Rightarrow> WardenProvider \<Rightarrow> nat \<Rightarrow> status_result" where
  "warden_status env p n =
     (let client = (case Client p of None \<Rightarrow> httpClient p 0 | Some c \<Rightarrow> c) in
      case http_get env n client (accessibleURL env p) of
        InvalidURL e \<Rightarrow> not_ready ''invalid warden URL'' e
      | RequestFailed e \<Rightarrow> not_ready ''warden request failed'' e
      | Response code line decoded rest \<Rightarrow>
          if sint code < 200 \<or> 300 \<le> sint code
          then not_ready ''warden returned HTTP error'' (Errorf ''warden returned status %s'' [S line])
          else case decoded of
            Inl e \<Rightarrow> not_ready ''warden response malformed'' e
          | Inr body \<Rightarrow>
              (case ensureJSONEnd rest of
                 Some e \<Rightarrow> not_ready ''warden response malformed'' e
               | None \<Rightarrow> body_status body))"

subsection \<open>config.go\<close>

record LoadSensorConfig =
  Enabled :: bool
  Scope :: string
  ResourceName :: string
  SlotsResourceName :: string
  Provider :: string
  TimeoutSeconds :: i64

record WardenConfig =
  wBaseURL :: string
  wEndpoint :: string
  wTLSVerify :: bool

record StaticConfig =
  sReady :: bool
  sStateFile :: string

record Config =
  LoadSensor :: LoadSensorConfig
  Warden :: WardenConfig
  Static :: StaticConfig

definition or_default :: "string \<Rightarrow> string \<Rightarrow> string" where
  "or_default s d = (if s = [] then d else s)"

definition ApplyDefaults :: "Config \<Rightarrow> Config" where
  "ApplyDefaults c =
     (let l = LoadSensor c; w = Warden c in
      c\<lparr>LoadSensor := l\<lparr>Scope := or_default (Scope l) ''global'',
           ResourceName := or_default (ResourceName l) ''qpu_ready'',
           Provider := or_default (Provider l) ''static'',
           TimeoutSeconds := (if sint (TimeoutSeconds l) \<le> 0 then 3 else TimeoutSeconds l)\<rparr>,
        Warden := w\<lparr>wBaseURL := or_default (wBaseURL w) ''http://127.0.0.1:8006'',
           wEndpoint := or_default (wEndpoint w) ''/accessible''\<rparr>\<rparr>)"

definition DefaultConfig :: Config where
  "DefaultConfig = ApplyDefaults
     \<lparr>LoadSensor = \<lparr>Enabled = False, Scope = [], ResourceName = [], SlotsResourceName = [], Provider = [],
                    TimeoutSeconds = 0\<rparr>,
      Warden = \<lparr>wBaseURL = [], wEndpoint = [], wTLSVerify = True\<rparr>,
      Static = \<lparr>sReady = False, sStateFile = []\<rparr>\<rparr>"

text \<open>\<open>yaml\<close> decodes a text into a configuration that is already there, also when it reports an error.\<close>

definition LoadConfig ::
  "(string \<Rightarrow> Config \<Rightarrow> gerr option \<times> Config) \<Rightarrow> surroundings \<Rightarrow> string \<Rightarrow> Config \<times> gerr option" where
  "LoadConfig yaml env path =
     (case read_file env 0 path of
        Inl e \<Rightarrow> (DefaultConfig, Some e)
      | Inr raw \<Rightarrow>
          (case yaml raw DefaultConfig of
             (Some e, cfg) \<Rightarrow> (cfg, Some e)
           | (None, cfg) \<Rightarrow> (ApplyDefaults cfg, None)))"

datatype provider_kind = Static_P StaticProvider | Warden_P WardenProvider | Failed_P gerr

text \<open>\<open>time.Duration(seconds) * time.Second\<close>: nanoseconds, wrapping around at 64 bits.\<close>

definition timeout_of :: "i64 \<Rightarrow> i64" where
  "timeout_of seconds = seconds * 1000000000"

definition make_provider :: "Config \<Rightarrow> (gerr + provider_kind) \<times> i64" where
  "make_provider c =
     (let timeout = timeout_of (TimeoutSeconds (LoadSensor c)); kind = Provider (LoadSensor c) in
      if kind = ''static''
      then (Inr (Static_P \<lparr>static_ready = sReady (Static c), StateFile = sStateFile (Static c)\<rparr>), timeout)
      else if kind = ''warden''
      then (Inr (Warden_P (WithTimeout \<lparr>BaseURL = wBaseURL (Warden c), Endpoint = wEndpoint (Warden c),
              TLSVerify = wTLSVerify (Warden c), Client = None\<rparr> timeout)), timeout)
      else (Inl (Errorf ''unknown availability provider %q'' [S kind]), timeout))"

text \<open>\<open>failedProvider\<close> is the load sensor's own.\<close>

definition failed_status :: "gerr \<Rightarrow> nat \<Rightarrow> status_result" where
  "failed_status err n = (\<lparr>Ready = False, Reason = ''startup failure'', SlotsAvailable = None\<rparr>, Some err)"

definition provider_status :: "surroundings \<Rightarrow> provider_kind \<Rightarrow> nat \<Rightarrow> status_result" where
  "provider_status env p =
     (case p of
        Static_P s \<Rightarrow> static_status env s
      | Warden_P w \<Rightarrow> warden_status env w
      | Failed_P e \<Rightarrow> failed_status e)"

subsection \<open>The provider interface\<close>

text \<open>
  What the load sensor relies on: a provider that reports an error is not ready, no provider offers a
  negative number of slots, and one that offers slots is ready.
\<close>

definition lawful :: "status_result \<Rightarrow> bool" where
  "lawful r = ((snd r \<noteq> None \<longrightarrow> \<not> Ready (fst r)) \<and>
     (case SlotsAvailable (fst r) of None \<Rightarrow> True
      | Some k \<Rightarrow> 0 \<le> sint k \<and> (k \<noteq> 0 \<longrightarrow> Ready (fst r))))"

locale provider =
  fixes status :: "nat \<Rightarrow> status_result"
  assumes lawful_status: "lawful (status n)"
begin

lemma error_not_ready: "snd (status n) \<noteq> None \<Longrightarrow> \<not> Ready (fst (status n))"
  using lawful_status [of n] by (simp add: lawful_def)

lemma slots_ready:
  "SlotsAvailable (fst (status n)) = Some k \<Longrightarrow> 0 \<le> sint k \<and> (k \<noteq> 0 \<longrightarrow> Ready (fst (status n)))"
  using lawful_status [of n] by (simp add: lawful_def)

end

lemma lawful_not_ready [simp]: "lawful (not_ready r e)"
  by (simp add: lawful_def not_ready_def)

lemma lawful_body [simp]: "lawful (body_status b)"
  by (auto simp: lawful_def body_status_def not_ready_def split: option.split)

lemma lawful_warden: "lawful (warden_status env p n)"
  by (simp add: warden_status_def Let_def split: http_result.split sum.split option.split)

interpretation static: provider "static_status env p" for env p
  by unfold_locales (simp add: static_status_def lawful_def split: sum.split)

interpretation warden: provider "warden_status env p" for env p
  by unfold_locales (rule lawful_warden)

interpretation failed: provider "failed_status e" for e
  by unfold_locales (simp add: failed_status_def lawful_def)

interpretation any: provider "provider_status env p" for env p
  by unfold_locales (simp add: provider_status_def static.lawful_status warden.lawful_status failed.lawful_status
      split: provider_kind.split)

subsection \<open>The configuration\<close>

lemma ApplyDefaults_idem: "ApplyDefaults (ApplyDefaults c) = ApplyDefaults c"
  by (simp add: ApplyDefaults_def Let_def or_default_def)

end
