(* ===== verification/Load_Sensor.thy ===== *)
theory Load_Sensor
  imports Availability Go_Flag Go_Scan
begin

text \<open>
  \<open>src/cmd/qrmi-ocs-load-sensor/main.go\<close>: the load sensor. The scheduler writes a line for each
  report it wants and \<open>quit\<close> to end; a report is the lines from \<open>begin\<close> to \<open>end\<close>. The lemmas: the
  reports written for an input, and what the provider's answer makes of them. The usage text
  that Go prints for bad options is not modelled.
\<close>

text \<open>
  Standard output and standard error as written so far. \<open>out_fault n = Some k\<close>: the \<open>n\<close>-th write to
  standard output fails after \<open>k\<close> bytes.
\<close>

record sensor_io =
  sout :: string
  serr :: string
  swrites :: nat

definition out_print :: "(nat \<Rightarrow> nat option) \<Rightarrow> string \<Rightarrow> sensor_io \<Rightarrow> gerr option \<times> sensor_io" where
  "out_print out_fault s io =
     (case out_fault (swrites io) of
        None \<Rightarrow> (None, io\<lparr>sout := sout io @ s, swrites := Suc (swrites io)\<rparr>)
      | Some k \<Rightarrow> (Some (SysErr EIO ''write''),
                  io\<lparr>sout := sout io @ take k s, swrites := Suc (swrites io)\<rparr>))"

definition err_print :: "string \<Rightarrow> sensor_io \<Rightarrow> sensor_io" where
  "err_print s io = io\<lparr>serr := serr io @ s @ [LF]\<rparr>"

definition defaultConfigPath :: string where
  "defaultConfigPath = ''/etc/qrmi-ocs-load-sensor.yaml''"

definition validProtocolField :: "string \<Rightarrow> bool" where
  "validProtocolField value = (value \<noteq> [] \<and> \<not> contains_any value ('': '' @ [TAB, CR, LF]))"

definition protocolFields :: "Config \<Rightarrow> string \<times> string \<times> string" where
  "protocolFields cfg =
     (let l = LoadSensor cfg in
      (if validProtocolField (Scope l) then Scope l else ''global'',
       if validProtocolField (ResourceName l) then ResourceName l else ''qpu_ready'',
       if SlotsResourceName l \<noteq> [] \<and> \<not> validProtocolField (SlotsResourceName l) then []
       else SlotsResourceName l))"

definition resolveConfigPath :: "string option \<Rightarrow> string \<Rightarrow> string" where
  "resolveConfigPath env_path configPath =
     (if trim_space configPath \<noteq> [] then trim_space configPath
      else if trim_space (case env_path of None \<Rightarrow> [] | Some p \<Rightarrow> p) \<noteq> []
      then trim_space (case env_path of None \<Rightarrow> [] | Some p \<Rightarrow> p)
      else defaultConfigPath)"

definition slot_count :: "i64 option \<Rightarrow> i64" where
  "slot_count s = (case s of None \<Rightarrow> 0 | Some k \<Rightarrow> if sint k < 0 then 0 else k)"

definition field_line :: "string \<Rightarrow> string \<Rightarrow> string \<Rightarrow> string" where
  "field_line scope name value = scope @ CHR '':'' # name @ CHR '':'' # value @ [LF]"

definition writeReport ::
  "(nat \<Rightarrow> nat option) \<Rightarrow> string \<Rightarrow> string \<Rightarrow> string \<Rightarrow> AvailabilityStatus \<Rightarrow> sensor_io \<Rightarrow> gerr option \<times> sensor_io" where
  "writeReport out_fault scope resourceName slotsResourceName status io =
     (case out_print out_fault
             (''begin'' @ LF # field_line scope resourceName (if Ready status then ''1'' else ''0'')) io of
        (Some e, io) \<Rightarrow> (Some e, io)
      | (None, io) \<Rightarrow>
          (case (if slotsResourceName \<noteq> []
                 then out_print out_fault
                   (field_line scope slotsResourceName (itoa (slot_count (SlotsAvailable status)))) io
                 else (None, io)) of
             (Some e, io) \<Rightarrow> (Some e, io)
           | (None, io) \<Rightarrow> out_print out_fault (''end'' @ [LF]) io))"

definition provider_error :: AvailabilityStatus where
  "provider_error = \<lparr>Ready = False, Reason = ''provider error'', SlotsAvailable = None\<rparr>"

definition cycle_status :: "status_result \<Rightarrow> AvailabilityStatus" where
  "cycle_status r = (case r of (status, err) \<Rightarrow> if err \<noteq> None then provider_error else status)"

definition cycle_log :: "status_result \<Rightarrow> sensor_io \<Rightarrow> sensor_io" where
  "cycle_log r io =
     (let io = (case snd r of None \<Rightarrow> io
           | Some e \<Rightarrow> err_print (sprintf ''availability provider failed: %v'' [S (error_text e)]) io);
          status = cycle_status r
      in if Reason status \<noteq> []
         then err_print (sprintf ''availability status: ready=%t reason=%s'' [B (Ready status), S (Reason status)]) io
         else io)"

text \<open>\<open>runProtocol\<close>: the loop over the scanner's lines, \<open>n\<close> counting the provider's cycles.\<close>

fun protocol ::
  "(nat \<Rightarrow> nat option) \<Rightarrow> (nat \<Rightarrow> status_result) \<Rightarrow> string \<Rightarrow> string \<Rightarrow> string \<Rightarrow> gerr option \<Rightarrow>
   nat \<Rightarrow> string list \<Rightarrow> sensor_io \<Rightarrow> gerr option \<times> sensor_io" where
  "protocol out_fault status scope resourceName slotsResourceName scan_err n [] io = (scan_err, io)"
| "protocol out_fault status scope resourceName slotsResourceName scan_err n (line # lines) io =
     (if trim_space line = ''quit'' then (None, io)
      else case writeReport out_fault scope resourceName slotsResourceName (cycle_status (status n))
                  (cycle_log (status n) io) of
        (Some e, io) \<Rightarrow> (Some e, io)
      | (None, io) \<Rightarrow>
          protocol out_fault status scope resourceName slotsResourceName scan_err (Suc n) lines io)"

definition runProtocol ::
  "(nat \<Rightarrow> nat option) \<Rightarrow> (nat \<Rightarrow> status_result) \<Rightarrow> string \<Rightarrow> string \<Rightarrow> string \<Rightarrow> string \<Rightarrow> sensor_io \<Rightarrow>
   gerr option \<times> sensor_io" where
  "runProtocol out_fault status scope resourceName slotsResourceName input io =
     (case scan_lines default_max_token input of (lines, toolong) \<Rightarrow>
        protocol out_fault status scope resourceName slotsResourceName
          (if toolong then Some (SysErr ETOOLONG []) else None) 1 lines io)"

definition sensor_provider :: "Config \<Rightarrow> gerr option \<Rightarrow> provider_kind" where
  "sensor_provider cfg configErr =
     (if \<not> Enabled (LoadSensor cfg) then Failed_P (Errorf ''load sensor is disabled'' [])
      else case configErr of
        Some e \<Rightarrow> Failed_P (Wrapf ''load config: %w'' [] e)
      | None \<Rightarrow> (case fst (make_provider cfg) of Inl e \<Rightarrow> Failed_P e | Inr p \<Rightarrow> p))"

definition sensor_run ::
  "(string \<Rightarrow> Config \<Rightarrow> gerr option \<times> Config) \<Rightarrow> surroundings \<Rightarrow> string option \<Rightarrow> (nat \<Rightarrow> nat option) \<Rightarrow>
   string list \<Rightarrow> string \<Rightarrow> sensor_io \<Rightarrow> gerr option \<times> sensor_io" where
  "sensor_run yaml env env_path out_fault args input io =
     (case parse_flags [''config''] args [] of
        Inl e \<Rightarrow> (Some e, io)
      | Inr (m, rest) \<Rightarrow>
          (case LoadConfig yaml env (resolveConfigPath env_path (flag_value m ''config'' [])) of
             (cfg0, configErr) \<Rightarrow>
               (case ApplyDefaults cfg0 of cfg \<Rightarrow>
                  (case protocolFields cfg of (scope, resourceName, slotsResourceName) \<Rightarrow>
                     runProtocol out_fault (provider_status env (sensor_provider cfg configErr))
                       scope resourceName slotsResourceName input
                       (case sensor_provider cfg configErr of
                          Failed_P e \<Rightarrow> err_print (sprintf ''load sensor startup failed: %v'' [S (error_text e)]) io
                        | _ \<Rightarrow> io)))))"

definition sensor_main ::
  "(string \<Rightarrow> Config \<Rightarrow> gerr option \<times> Config) \<Rightarrow> surroundings \<Rightarrow> string option \<Rightarrow> (nat \<Rightarrow> nat option) \<Rightarrow>
   string list \<Rightarrow> string \<Rightarrow> nat \<times> sensor_io" where
  "sensor_main yaml env env_path out_fault args input =
     (case sensor_run yaml env env_path out_fault args input \<lparr>sout = [], serr = [], swrites = 0\<rparr> of
        (Some e, io) \<Rightarrow> (1, err_print (sprintf ''error: %v'' [S (error_text e)]) io)
      | (None, io) \<Rightarrow> (0, io))"

subsection \<open>The reports\<close>

definition report :: "string \<Rightarrow> string \<Rightarrow> string \<Rightarrow> AvailabilityStatus \<Rightarrow> string list" where
  "report scope resourceName slotsResourceName status =
     [''begin'', scope @ CHR '':'' # resourceName @ CHR '':'' # (if Ready status then ''1'' else ''0'')] @
     (if slotsResourceName = [] then []
      else [scope @ CHR '':'' # slotsResourceName @ CHR '':'' # itoa (slot_count (SlotsAvailable status))]) @
     [''end'']"

definition lines_text :: "string list \<Rightarrow> string" where
  "lines_text ls = concat (map (\<lambda>l. l @ [LF]) ls)"

definition asked :: "string list \<Rightarrow> nat" where
  "asked lines = length (takeWhile (\<lambda>l. trim_space l \<noteq> ''quit'') lines)"

lemma writeReport_quiet:
  "writeReport (\<lambda>n. None) scope res slots st io =
     (None, io\<lparr>sout := sout io @ lines_text (report scope res slots st),
               swrites := swrites io + (if slots = [] then 2 else 3)\<rparr>)"
  by (simp add: writeReport_def out_print_def report_def lines_text_def field_line_def)

lemma cycle_log_sout [simp]: "sout (cycle_log r io) = sout io" "swrites (cycle_log r io) = swrites io"
  by (simp_all add: cycle_log_def Let_def err_print_def split: option.split)

lemma protocol_quiet:
  "sout (snd (protocol (\<lambda>n. None) status scope res slots e n lines io)) =
     sout io @ lines_text (concat (map (\<lambda>i. report scope res slots (cycle_status (status i))) [n..<n + asked lines]))"
proof (induction lines arbitrary: n io)
  case (Cons l ls)
  show ?case
  proof (cases "trim_space l = ''quit''")
    case False
    then have "asked (l # ls) = Suc (asked ls)" by (simp add: asked_def)
    then have "[n..<n + asked (l # ls)] = n # [Suc n..<Suc n + asked ls]" by (simp add: upt_conv_Cons)
    with False Cons.IH show ?thesis
      by (simp add: writeReport_quiet lines_text_def)
  qed (simp add: asked_def lines_text_def)
qed (simp add: asked_def lines_text_def)

lemma valid_no_LF: "validProtocolField s \<Longrightarrow> LF \<notin> set s \<and> CHR '':'' \<notin> set s"
  by (auto simp: validProtocolField_def contains_any_iff)

lemma protocolFields_valid:
  "protocolFields cfg = (scope, res, slots) \<Longrightarrow>
   validProtocolField scope \<and> validProtocolField res \<and> (slots = [] \<or> validProtocolField slots)"
  by (auto simp: protocolFields_def Let_def validProtocolField_def contains_any_def split: if_splits)

lemma report_no_LF:
  "protocolFields cfg = (scope, res, slots) \<Longrightarrow> l \<in> set (report scope res slots st) \<Longrightarrow> LF \<notin> set l"
  using protocolFields_valid [of cfg scope res slots] valid_no_LF [of scope] valid_no_LF [of res] valid_no_LF [of slots]
  by (auto simp: report_def split: if_splits)

text \<open>The configuration a run uses, with the error of reading it.\<close>

definition sensor_config ::
  "(string \<Rightarrow> Config \<Rightarrow> gerr option \<times> Config) \<Rightarrow> surroundings \<Rightarrow> string option \<Rightarrow> string list \<Rightarrow> Config \<times> gerr option" where
  "sensor_config yaml env env_path args =
     (case parse_flags [''config''] args [] of
        Inl e \<Rightarrow> (DefaultConfig, Some e)
      | Inr (m, rest) \<Rightarrow>
          (case LoadConfig yaml env (resolveConfigPath env_path (flag_value m ''config'' [])) of
             (cfg, e) \<Rightarrow> (ApplyDefaults cfg, e)))"

definition empty_io :: sensor_io where
  "empty_io = \<lparr>sout = [], serr = [], swrites = 0\<rparr>"

lemma sensor_run_out:
  assumes "\<not> isl (parse_flags [''config''] args [])" "sensor_config yaml env env_path args = (cfg, e)"
    and "protocolFields cfg = (scope, res, slots)"
  shows "sout (snd (sensor_run yaml env env_path (\<lambda>n. None) args input empty_io)) =
    lines_text (concat (map (\<lambda>i. report scope res slots (cycle_status (provider_status env (sensor_provider cfg e) i)))
      [1..<1 + asked (fst (scan_lines default_max_token input))]))"
proof -
  obtain m rest where p: "parse_flags [''config''] args [] = Inr (m, rest)"
    using assms(1) by (cases "parse_flags [''config''] args []") auto
  obtain cfg0 where l: "LoadConfig yaml env (resolveConfigPath env_path (flag_value m ''config'' [])) = (cfg0, e)"
    "cfg = ApplyDefaults cfg0"
    using assms(2) p by (auto simp: sensor_config_def split: prod.splits)
  define io where "io = (case sensor_provider cfg e of
      Failed_P e \<Rightarrow> err_print (sprintf ''load sensor startup failed: %v'' [S (error_text e)]) empty_io | _ \<Rightarrow> empty_io)"
  have "sout io = []" by (simp add: io_def empty_io_def err_print_def split: provider_kind.split)
  moreover have "sensor_run yaml env env_path (\<lambda>n. None) args input empty_io =
      runProtocol (\<lambda>n. None) (provider_status env (sensor_provider cfg e)) scope res slots input io"
    using assms(3) by (simp add: sensor_run_def p l io_def)
  ultimately show ?thesis
    by (simp add: runProtocol_def protocol_quiet split: prod.split)
qed

lemma sensor_ready:
  assumes "Ready (cycle_status (provider_status env (sensor_provider cfg e) n))"
  shows "Enabled (LoadSensor cfg) \<and> e = None \<and>
    (Provider (LoadSensor cfg) = ''static'' \<and>
       (if trim_space (sStateFile (Static cfg)) = [] then sReady (Static cfg)
        else \<exists>raw. read_file env n (sStateFile (Static cfg)) = Inr raw \<and> trim_space raw = ''1'') \<or>
     Provider (LoadSensor cfg) = ''warden'' \<and>
       (\<exists>client url code line body. http_get env n client url = Response code line (Inr body) JsonEOF \<and>
          200 \<le> sint code \<and> sint code < 300 \<and> IsAccessible body = Some True \<and>
          (\<forall>k. QPUSlotsAvailable body = Some k \<longrightarrow> 0 \<le> sint k)))"
proof -
  have r: "Ready (fst (provider_status env (sensor_provider cfg e) n))"
    using assms by (auto simp: cycle_status_def provider_error_def split: prod.splits if_splits)
  have en: "Enabled (LoadSensor cfg) \<and> e = None"
    using r by (auto simp: sensor_provider_def provider_status_def failed_status_def split: if_splits option.splits)
  have ws: "\<exists>client url code line body. http_get env n client url = Response code line (Inr body) JsonEOF \<and>
      200 \<le> sint code \<and> sint code < 300 \<and> IsAccessible body = Some True \<and>
      (\<forall>k. QPUSlotsAvailable body = Some k \<longrightarrow> 0 \<le> sint k)"
    if rd: "Ready (fst (warden_status env w n))" for w
  proof -
    define c where "c = (case Client w of None \<Rightarrow> httpClient w 0 | Some c \<Rightarrow> c)"
    obtain code line decoded rest where g: "http_get env n c (accessibleURL env w) = Response code line decoded rest"
      using rd by (cases "http_get env n c (accessibleURL env w)")
        (simp_all add: warden_status_def Let_def not_ready_def c_def [symmetric])
    then have "\<exists>body. decoded = Inr body \<and> rest = JsonEOF \<and> 200 \<le> sint code \<and> sint code < 300 \<and>
        Ready (fst (body_status body))"
      using rd by (cases decoded; cases rest; cases "sint code < 200 \<or> 300 \<le> sint code")
        (auto simp: warden_status_def Let_def not_ready_def ensureJSONEnd_def c_def [symmetric])
    then obtain body where "http_get env n c (accessibleURL env w) = Response code line (Inr body) JsonEOF"
      "200 \<le> sint code" "sint code < 300" "Ready (fst (body_status body))" using g by blast
    moreover from this(4) have "IsAccessible body = Some True \<and> (\<forall>k. QPUSlotsAvailable body = Some k \<longrightarrow> 0 \<le> sint k)"
      by (auto simp: body_status_def not_ready_def split: option.splits if_splits)
    ultimately show ?thesis by blast
  qed
  show ?thesis using r en ws
    by (auto simp: sensor_provider_def make_provider_def Let_def provider_status_def failed_status_def static_status_def
        split: if_splits sum.splits)
qed

subsection \<open>Properties\<close>

definition sample_yaml :: "string \<Rightarrow> Config \<Rightarrow> gerr option \<times> Config" where
  "sample_yaml raw cfg =
     (None, cfg\<lparr>LoadSensor := (LoadSensor cfg)\<lparr>Enabled := True, SlotsResourceName := ''qpu_slots''\<rparr>,
                Static := \<lparr>sReady = False, sStateFile = ''/run/qpu''\<rparr>\<rparr>)"

definition sample_surroundings :: surroundings where
  "sample_surroundings = \<lparr>read_file = (\<lambda>n p. Inr (if n = 2 then ''0'' else ''1'' @ [LF])),
     http_get = (\<lambda>n c u. RequestFailed (Errorf ''down'' [])), join_path = (\<lambda>b e. Inr (b @ e))\<rparr>"

definition sample_config :: Config where
  "sample_config = fst (sensor_config sample_yaml sample_surroundings None [])"

lemma sample_sensor:
  "\<not> isl (parse_flags [''config''] [] [])"
  "sensor_config sample_yaml sample_surroundings None [] = (sample_config, None)"
  "protocolFields sample_config = (''global'', ''qpu_ready'', ''qpu_slots'')"
proof -
  show "\<not> isl (parse_flags [''config''] [] [])" by simp
  have "snd (sensor_config sample_yaml sample_surroundings None []) = None" by code_simp
  then show "sensor_config sample_yaml sample_surroundings None [] = (sample_config, None)"
    unfolding sample_config_def by (metis prod.collapse)
  show "protocolFields sample_config = (''global'', ''qpu_ready'', ''qpu_slots'')" by code_simp
qed

text \<open>
  C19. What the scheduler reads: when no write fails, the lines of the output are, for every line of
  the input up to the first \<open>quit\<close>, one report of three or four lines in order, whatever the
  configuration and the provider say; the names in the reports have no colon, blank or line
  feed, so every report has the fields it is meant to have.
\<close>

theorem sensor_reports:
  assumes "\<not> isl (parse_flags [''config''] args [])" "sensor_config yaml env env_path args = (cfg, e)"
    and "protocolFields cfg = (scope, res, slots)"
  shows "raw_lines (sout (snd (sensor_run yaml env env_path (\<lambda>n. None) args input empty_io))) =
      concat (map (\<lambda>i. report scope res slots (cycle_status (provider_status env (sensor_provider cfg e) i)))
        [1..<1 + asked (fst (scan_lines default_max_token input))]) \<and>
    validProtocolField scope \<and> validProtocolField res \<and> (slots = [] \<or> validProtocolField slots)"
proof -
  have "raw_lines (lines_text ls) = ls" if "\<forall>l \<in> set ls. LF \<notin> set l" for ls
    using raw_lines_terminated [OF that] by (simp add: lines_text_def)
  then show ?thesis unfolding sensor_run_out [OF assms]
    using report_no_LF [OF assms(3)] protocolFields_valid [OF assms(3)] by simp
qed

theorem sensor_reports_witness:
  "raw_lines (sout (snd (sensor_run sample_yaml sample_surroundings None (\<lambda>n. None) []
      ([LF] @ [LF] @ ''quit'' @ [LF] @ [LF]) empty_io))) =
    [''begin'', ''global:qpu_ready:1'', ''global:qpu_slots:0'', ''end'',
     ''begin'', ''global:qpu_ready:0'', ''global:qpu_slots:0'', ''end'']"
proof -
  have "concat (map (\<lambda>i. report ''global'' ''qpu_ready'' ''qpu_slots''
        (cycle_status (provider_status sample_surroundings (sensor_provider sample_config None) i)))
      [1..<1 + asked (fst (scan_lines default_max_token ([LF] @ [LF] @ ''quit'' @ [LF] @ [LF])))]) =
    [''begin'', ''global:qpu_ready:1'', ''global:qpu_slots:0'', ''end'',
     ''begin'', ''global:qpu_ready:0'', ''global:qpu_slots:0'', ''end'']" by code_simp
  with sensor_reports [OF sample_sensor, of "[LF] @ [LF] @ ''quit'' @ [LF] @ [LF]"] show ?thesis by simp
qed

text \<open>
  C20. The sensor fails closed: it reports ready in a cycle only when it is enabled, its
  configuration was read without an error, and either the static provider is set to ready, or
  its state file holds a one in that cycle, or the warden answered in that cycle with a success
  status, one JSON value that says accessible, and no negative number of slots. A disabled
  sensor, an unknown provider and every failing call report not ready.
\<close>

theorem sensor_fails_closed:
  assumes "Ready (cycle_status (provider_status env (sensor_provider cfg e) n))"
  shows "Enabled (LoadSensor cfg) \<and> e = None \<and>
    (Provider (LoadSensor cfg) = ''static'' \<and>
       (if trim_space (sStateFile (Static cfg)) = [] then sReady (Static cfg)
        else \<exists>raw. read_file env n (sStateFile (Static cfg)) = Inr raw \<and> trim_space raw = ''1'') \<or>
     Provider (LoadSensor cfg) = ''warden'' \<and>
       (\<exists>client url code line body. http_get env n client url = Response code line (Inr body) JsonEOF \<and>
          200 \<le> sint code \<and> sint code < 300 \<and> IsAccessible body = Some True \<and>
          (\<forall>k. QPUSlotsAvailable body = Some k \<longrightarrow> 0 \<le> sint k)))"
  using assms by (rule sensor_ready)

theorem sensor_fails_closed_witness:
  "Ready (cycle_status (provider_status sample_surroundings (sensor_provider sample_config None) 1)) \<and>
   Provider (LoadSensor sample_config) \<noteq> ''warden'' \<and>
   (\<exists>raw. read_file sample_surroundings 1 (sStateFile (Static sample_config)) = Inr raw \<and> trim_space raw = ''1'')"
proof -
  have "Ready (cycle_status (provider_status sample_surroundings (sensor_provider sample_config None) 1))"
    "Provider (LoadSensor sample_config) \<noteq> ''warden''" "trim_space (sStateFile (Static sample_config)) \<noteq> []"
    by code_simp+
  with sensor_fails_closed [OF this(1)] show ?thesis by simp
qed

text \<open>
  C39. The request timeout in nanoseconds is the configured number of seconds, and positive, exactly
  up to 9223372036 seconds; above, the 64-bit multiplication wraps around.
\<close>

theorem timeout_exact:
  assumes "0 < sint s"
  shows "sint (timeout_of s) = sint s * 1000000000 \<longleftrightarrow> sint s \<le> 9223372036"
proof -
  have "sint (1000000000 :: i64) = 1000000000" by simp
  then have "sint (timeout_of s) = signed_take_bit 63 (sint s * 1000000000)"
    by (simp add: timeout_of_def sint_word_ariths)
  then show ?thesis using assms by (auto simp: signed_take_bit_int_eq_self_iff)
qed

theorem timeout_exact_witness:
  "sint (timeout_of 3) = 3000000000 \<and> sint (timeout_of 9223372037) \<noteq> 9223372037000000000"
  using timeout_exact [of 3] timeout_exact [of 9223372037] by simp

end
