(* ===== verification/Qconf.thy ===== *)
theory Qconf
  imports Go_Errors
begin

text \<open>
  What the adapter uses of the scheduler's configuration. The \<open>qconf\<close> client package is not under
  src/: its operations are parameters on an opaque cluster \<open>'c\<close>, which a show operation reads and an
  add or modify operation may change. Its objects have the attributes that the adapter reads or
  writes and a last field for all others, which the adapter passes through. \<open>lawful_qconf\<close> states
  that an object that was added or modified is shown as it was written and that nothing
  else changed; only the theorems on repeated runs use it.
\<close>

record ComplexEntryConfig =
  ce_Name :: string
  ce_Shortcut :: string
  ce_Type :: string
  ce_Relop :: string
  ce_Requestable :: string
  ce_Consumable :: string
  ce_Default :: string
  ce_Urgency :: i64
  ce_others :: "(string \<times> string) list"

record HostExecConfig =
  eh_Name :: string
  eh_ComplexValues :: "string \<rightharpoonup> string"
  eh_others :: "(string \<times> string) list"

record HostConfiguration =
  hc_Name :: string
  hc_LoadSensors :: "string list"
  hc_ExecdSpoolDir :: "string option"
  hc_others :: "(string \<times> string) list"

record GlobalConfig =
  gc_ExecdSpoolDir :: string
  gc_ReportingParams :: "string list"
  gc_others :: "(string \<times> string) list"

record ClusterQueueConfig =
  cq_Name :: string
  cq_Prolog :: "string list"
  cq_Epilog :: "string list"
  cq_others :: "(string \<times> string) list"

text \<open>The client, and the constants of its package; \<open>ShowGlobalConfiguration\<close> may return nil.\<close>

record 'c qconf =
  ResourceTypeString :: string
  ResourceTypeInt :: string
  ConsumableNO :: string
  ConsumableJOB :: string
  ShowComplexEntry :: "string \<Rightarrow> 'c \<Rightarrow> gerr + ComplexEntryConfig"
  AddComplexEntry :: "ComplexEntryConfig \<Rightarrow> 'c \<Rightarrow> gerr option \<times> 'c"
  ModifyComplexEntry :: "string \<Rightarrow> ComplexEntryConfig \<Rightarrow> 'c \<Rightarrow> gerr option \<times> 'c"
  ShowExecHost :: "string \<Rightarrow> 'c \<Rightarrow> gerr + HostExecConfig"
  ModifyExecHost :: "string \<Rightarrow> HostExecConfig \<Rightarrow> 'c \<Rightarrow> gerr option \<times> 'c"
  ShowHostConfiguration :: "string \<Rightarrow> 'c \<Rightarrow> gerr + HostConfiguration"
  ShowHostConfigurations :: "'c \<Rightarrow> gerr + string list"
  AddHostConfiguration :: "HostConfiguration \<Rightarrow> 'c \<Rightarrow> gerr option \<times> 'c"
  ModifyHostConfiguration :: "string \<Rightarrow> HostConfiguration \<Rightarrow> 'c \<Rightarrow> gerr option \<times> 'c"
  ShowGlobalConfiguration :: "'c \<Rightarrow> gerr + GlobalConfig option"
  ModifyGlobalConfig :: "GlobalConfig \<Rightarrow> 'c \<Rightarrow> gerr option \<times> 'c"
  ShowClusterQueue :: "string \<Rightarrow> 'c \<Rightarrow> gerr + ClusterQueueConfig"
  ModifyClusterQueue :: "string \<Rightarrow> ClusterQueueConfig \<Rightarrow> 'c \<Rightarrow> gerr option \<times> 'c"

subsection \<open>A run of the adapter\<close>

text \<open>
  The cluster and what was printed; \<open>Usage\<close> stands for the help text of a command, which
  \<open>flag\<close> prints after its error message.
\<close>

datatype printed = Out string | Err string | Usage string

record 'c session =
  cluster :: 'c
  stdout :: "printed list"

definition print :: "printed \<Rightarrow> 'c session \<Rightarrow> 'c session" where
  "print p s = s\<lparr>stdout := stdout s @ [p]\<rparr>"

definition act :: "('c \<Rightarrow> gerr option \<times> 'c) \<Rightarrow> 'c session \<Rightarrow> gerr option \<times> 'c session" where
  "act f s = (case f (cluster s) of (r, c) \<Rightarrow> (r, s\<lparr>cluster := c\<rparr>))"

text \<open>One step after another, as long as there is no error.\<close>

definition and_then ::
  "gerr option \<times> 'c session \<Rightarrow> ('c session \<Rightarrow> gerr option \<times> 'c session) \<Rightarrow> gerr option \<times> 'c session" where
  "and_then r f = (case r of (Some e, s) \<Rightarrow> (Some e, s) | (None, s) \<Rightarrow> f s)"

definition and_print :: "gerr option \<times> 'c session \<Rightarrow> string \<Rightarrow> gerr option \<times> 'c session" where
  "and_print r line = and_then r (\<lambda>s. (None, print (Out line) s))"

lemma and_then_None:
  "and_then r f = (None, s') \<longleftrightarrow> (\<exists>s. r = (None, s) \<and> f s = (None, s'))"
  by (cases r; cases "fst r") (auto simp: and_then_def)

lemma and_then_simps [simp]:
  "and_then (None, s) f = f s"
  "and_then (Some e, s) f = (Some e, s)"
  by (simp_all add: and_then_def)

lemma and_print_None:
  "and_print r line = (None, s') \<longleftrightarrow> (\<exists>s. r = (None, s) \<and> s' = print (Out line) s)"
  by (auto simp: and_print_def and_then_None)

lemma and_print_simps [simp]:
  "and_print (None, s) line = (None, print (Out line) s)"
  "and_print (Some e, s) line = (Some e, s)"
  by (simp_all add: and_print_def)

lemma cluster_print [simp]: "cluster (print p s) = cluster s"
  by (simp add: print_def)

lemma act_None: "act f s = (None, s') \<longleftrightarrow> (\<exists>c. f (cluster s) = (None, c) \<and> s' = s\<lparr>cluster := c\<rparr>)"
  by (auto simp: act_def split: prod.split)

subsection \<open>The laws of the client\<close>

text \<open>What is shown of a cluster, by name.\<close>

definition complexes :: "'c qconf \<Rightarrow> 'c \<Rightarrow> string \<Rightarrow> gerr + ComplexEntryConfig" where
  "complexes q c = (\<lambda>n. ShowComplexEntry q n c)"

definition execs :: "'c qconf \<Rightarrow> 'c \<Rightarrow> string \<Rightarrow> gerr + HostExecConfig" where
  "execs q c = (\<lambda>h. ShowExecHost q h c)"

definition hostconfs :: "'c qconf \<Rightarrow> 'c \<Rightarrow> string \<Rightarrow> gerr + HostConfiguration" where
  "hostconfs q c = (\<lambda>h. ShowHostConfiguration q h c)"

definition lawful_qconf :: "'c qconf \<Rightarrow> bool" where
  "lawful_qconf q \<longleftrightarrow>
     (\<forall>c n e. complexes q c n = Inr e \<longrightarrow> ce_Name e = n) \<and>
     (\<forall>c e c'. AddComplexEntry q e c = (None, c') \<longrightarrow>
        complexes q c' = (complexes q c)(ce_Name e := Inr e) \<and> execs q c' = execs q c \<and> hostconfs q c' = hostconfs q c) \<and>
     (\<forall>c n e c'. ModifyComplexEntry q n e c = (None, c') \<and> ce_Name e = n \<longrightarrow>
        complexes q c' = (complexes q c)(n := Inr e) \<and> execs q c' = execs q c \<and> hostconfs q c' = hostconfs q c) \<and>
     (\<forall>c h x c'. ModifyExecHost q h x c = (None, c') \<and> eh_Name x = h \<longrightarrow>
        complexes q c' = complexes q c \<and> execs q c' = (execs q c)(h := Inr x) \<and> hostconfs q c' = hostconfs q c) \<and>
     (\<forall>c x c'. AddHostConfiguration q x c = (None, c') \<longrightarrow>
        complexes q c' = complexes q c \<and> execs q c' = execs q c \<and> hostconfs q c' = (hostconfs q c)(hc_Name x := Inr x)) \<and>
     (\<forall>c h x c'. ModifyHostConfiguration q h x c = (None, c') \<and> hc_Name x = h \<longrightarrow>
        complexes q c' = complexes q c \<and> execs q c' = execs q c \<and> hostconfs q c' = (hostconfs q c)(h := Inr x))"

subsection \<open>A client on a stored cluster\<close>

text \<open>The laws can hold: a client that keeps every object in a map, for the examples.\<close>

record store =
  st_complexes :: "string \<rightharpoonup> ComplexEntryConfig"
  st_execs :: "string \<rightharpoonup> HostExecConfig"
  st_hosts :: "string \<rightharpoonup> HostConfiguration"
  st_host_names :: "string list"
  st_global :: GlobalConfig
  st_queues :: "string \<rightharpoonup> ClusterQueueConfig"

definition stored :: "'a option \<Rightarrow> gerr + 'a" where
  "stored r = (case r of None \<Rightarrow> Inl (Errorf ''not found'' []) | Some x \<Rightarrow> Inr x)"

definition store_qconf :: "store qconf" where
  "store_qconf =
     \<lparr>ResourceTypeString = ''STRING'', ResourceTypeInt = ''INT'', ConsumableNO = ''NO'', ConsumableJOB = ''JOB'',
      ShowComplexEntry = (\<lambda>n c. case st_complexes c n of Some e \<Rightarrow> Inr (e\<lparr>ce_Name := n\<rparr>) | None \<Rightarrow> stored None),
      AddComplexEntry = (\<lambda>e c. (None, c\<lparr>st_complexes := (st_complexes c)(ce_Name e \<mapsto> e)\<rparr>)),
      ModifyComplexEntry = (\<lambda>n e c. (None, c\<lparr>st_complexes := (st_complexes c)(n \<mapsto> e)\<rparr>)),
      ShowExecHost = (\<lambda>h c. stored (st_execs c h)),
      ModifyExecHost = (\<lambda>h x c. (None, c\<lparr>st_execs := (st_execs c)(h \<mapsto> x)\<rparr>)),
      ShowHostConfiguration = (\<lambda>h c. stored (st_hosts c h)),
      ShowHostConfigurations = (\<lambda>c. Inr (st_host_names c)),
      AddHostConfiguration = (\<lambda>x c. (None, c\<lparr>st_hosts := (st_hosts c)(hc_Name x \<mapsto> x)\<rparr>)),
      ModifyHostConfiguration = (\<lambda>h x c. (None, c\<lparr>st_hosts := (st_hosts c)(h \<mapsto> x)\<rparr>)),
      ShowGlobalConfiguration = (\<lambda>c. Inr (Some (st_global c))),
      ModifyGlobalConfig = (\<lambda>g c. (None, c\<lparr>st_global := g\<rparr>)),
      ShowClusterQueue = (\<lambda>n c. stored (st_queues c n)),
      ModifyClusterQueue = (\<lambda>n x c. (None, c\<lparr>st_queues := (st_queues c)(n \<mapsto> x)\<rparr>))\<rparr>"

lemma lawful_store: "lawful_qconf store_qconf"
  by (auto simp: lawful_qconf_def store_qconf_def complexes_def execs_def hostconfs_def stored_def
      split: option.splits)

definition sample_store :: store where
  "sample_store =
     \<lparr>st_complexes = Map.empty,
      st_execs = [''global'' \<mapsto> \<lparr>eh_Name = ''global'', eh_ComplexValues = Map.empty, eh_others = []\<rparr>,
                  ''n1'' \<mapsto> \<lparr>eh_Name = ''n1'', eh_ComplexValues = [''slots'' \<mapsto> ''20''], eh_others = []\<rparr>],
      st_hosts = [''n1'' \<mapsto> \<lparr>hc_Name = ''n1'', hc_LoadSensors = [''none''], hc_ExecdSpoolDir = Some ''/spool/n1'',
                              hc_others = []\<rparr>],
      st_host_names = [''n1''],
      st_global = \<lparr>gc_ExecdSpoolDir = ''/spool'', gc_ReportingParams = [''accounting=true''], gc_others = []\<rparr>,
      st_queues = [''all.q'' \<mapsto> \<lparr>cq_Name = ''all.q'', cq_Prolog = [''NONE''], cq_Epilog = [''NONE''], cq_others = []\<rparr>]\<rparr>"

definition sample_session :: "store session" where
  "sample_session = \<lparr>cluster = sample_store, stdout = []\<rparr>"

end
