(* ===== verification/Go_Typed_Flag.thy ===== *)
theory Go_Typed_Flag
  imports Go_Flag Go_Float
begin

text \<open>
  Go's \<open>flag.FlagSet\<close> with string, boolean and integer flags, as the adapter's commands declare
  them, with \<open>strconv.ParseBool\<close> and \<open>strconv.ParseInt(s, 0, 64)\<close>, and two functions of \<open>strings\<close>
  that only the adapter uses: \<open>Fields\<close> and \<open>EqualFold\<close>. On string flags alone the parser is the
  one of \<open>Go_Flag\<close>.
\<close>

subsection \<open>Numbers and truth values\<close>

definition parse_bool :: "string \<Rightarrow> bool option" where
  "parse_bool s =
     (if s \<in> set [''1'', ''t'', ''T'', ''true'', ''TRUE'', ''True''] then Some True
      else if s \<in> set [''0'', ''f'', ''F'', ''false'', ''FALSE'', ''False''] then Some False
      else None)"

definition digit_value :: "char \<Rightarrow> int option" where
  "digit_value c =
     (let n = of_char (lower_char c) in
      if is_digit c then Some (int (digit_val c))
      else if 97 \<le> n \<and> n \<le> 122 then Some (n - 87) else None)"

text \<open>The digits of an unsigned number, with a note of the underscores in it.\<close>

fun uint_digits :: "int \<Rightarrow> int \<Rightarrow> bool \<Rightarrow> string \<Rightarrow> gerr + (int \<times> bool)" where
  "uint_digits base n u [] = Inr (n, u)"
| "uint_digits base n u (c # s) =
     (if c = CHR ''_'' then uint_digits base n True s
      else case digit_value c of
        None \<Rightarrow> Inl (Errorf ''parse error'' [])
      | Some d \<Rightarrow>
          if base \<le> d then Inl (Errorf ''parse error'' [])
          else if 2 ^ 64 \<le> base * n + d then Inl (Errorf ''value out of range'' [])
          else uint_digits base (base * n + d) u s)"

definition split_base :: "string \<Rightarrow> int \<times> string" where
  "split_base s =
     (if \<not> prefix ''0'' s then (10, s)
      else if 3 \<le> length s \<and> lower_char (s ! 1) = CHR ''b'' then (2, drop 2 s)
      else if 3 \<le> length s \<and> lower_char (s ! 1) = CHR ''o'' then (8, drop 2 s)
      else if 3 \<le> length s \<and> lower_char (s ! 1) = CHR ''x'' then (16, drop 2 s)
      else (8, drop 1 s))"

definition parse_int_any :: "string \<Rightarrow> gerr + i64" where
  "parse_int_any s =
     (case drop_sign s of (neg, t) \<Rightarrow>
        if t = [] then Inl (Errorf ''parse error'' [])
        else case split_base t of (base, ds) \<Rightarrow>
          (case uint_digits base 0 False ds of
             Inl e \<Rightarrow> Inl e
           | Inr (n, u) \<Rightarrow>
               if u \<and> \<not> underscoreOK t then Inl (Errorf ''parse error'' [])
               else if (if neg then 2 ^ 63 < n else 2 ^ 63 \<le> n) then Inl (Errorf ''value out of range'' [])
               else Inr (word_of_int (if neg then - n else n))))"

subsection \<open>Flags\<close>

datatype flag_kind = StringFlag | BoolFlag | IntFlag

text \<open>The value is kept as it was written, once it is known to be readable.\<close>

definition set_flag :: "flag_kind \<Rightarrow> string \<Rightarrow> string \<Rightarrow> gerr option" where
  "set_flag kind key v =
     (case kind of
        StringFlag \<Rightarrow> None
      | BoolFlag \<Rightarrow>
          (if parse_bool v = None
           then Some (Errorf ''invalid boolean value %q for -%s: parse error'' [S v, S key]) else None)
      | IntFlag \<Rightarrow>
          (case parse_int_any v of
             Inl e \<Rightarrow> Some (Wrapf ''invalid value %q for flag -%s: %w'' [S v, S key] e)
           | Inr _ \<Rightarrow> None))"

fun parse_typed ::
  "(string \<times> flag_kind) list \<Rightarrow> string list \<Rightarrow> (string \<times> string) list \<Rightarrow>
   gerr + ((string \<times> string) list \<times> string list)"
where
  "parse_typed kinds [] m = Inr (m, [])"
| "parse_typed kinds (s # args) m =
     (if length s < 2 \<or> hd s \<noteq> DASH then Inr (m, s # args)
      else if s = [DASH, DASH] then Inr (m, args)
      else let name = (if s ! 1 = DASH then drop 2 s else drop 1 s) in
        if name = [] \<or> hd name = DASH \<or> hd name = CHR ''=''
        then Inl (Errorf ''bad flag syntax: %s'' [S s])
        else case flag_cut name of
          (key, value) \<Rightarrow>
            (case map_of kinds key of
               None \<Rightarrow> Inl (if key = ''help'' \<or> key = ''h'' then Errorf ''flag: help requested'' []
                          else Errorf ''flag provided but not defined: -%s'' [S key])
             | Some kind \<Rightarrow>
                 (case (if kind = BoolFlag \<and> value = None then Some ''true'' else value) of
                    Some v \<Rightarrow>
                      (case set_flag kind key v of
                         Some e \<Rightarrow> Inl e
                       | None \<Rightarrow> parse_typed kinds args (AList.update key v m))
                  | None \<Rightarrow>
                      (case args of
                         [] \<Rightarrow> Inl (Errorf ''flag needs an argument: -%s'' [S key])
                       | v # args' \<Rightarrow>
                           (case set_flag kind key v of
                              Some e \<Rightarrow> Inl e
                            | None \<Rightarrow> parse_typed kinds args' (AList.update key v m))))))"

definition bool_flag :: "(string \<times> string) list \<Rightarrow> string \<Rightarrow> bool" where
  "bool_flag m name = (case map_of m name of None \<Rightarrow> False | Some v \<Rightarrow> parse_bool v = Some True)"

definition int_flag :: "(string \<times> string) list \<Rightarrow> string \<Rightarrow> i64 \<Rightarrow> i64" where
  "int_flag m name dflt =
     (case map_of m name of
        None \<Rightarrow> dflt
      | Some v \<Rightarrow> (case parse_int_any v of Inl _ \<Rightarrow> dflt | Inr n \<Rightarrow> n))"

lemma parse_typed_strings:
  "parse_typed (map (\<lambda>n. (n, StringFlag)) names) args m = parse_flags names args m"
proof -
  let ?kinds = "map (\<lambda>n. (n, StringFlag)) names"
  have kinds: "map_of ?kinds k = (if k \<in> set names then Some StringFlag else None)" for k
    by (induction names) auto
  have set_ok: "set_flag StringFlag k v = None" for k v
    by (simp add: set_flag_def)
  show ?thesis
  proof (induction args arbitrary: m rule: length_induct)
    case (1 args)
    show ?case
    proof (cases args)
      case (Cons s rest)
      have r: "parse_typed ?kinds rest m' = parse_flags names rest m'" for m'
        using 1 Cons by simp
      have t: "parse_typed ?kinds rest' m' = parse_flags names rest' m'" if "rest = v # rest'" for v rest' m'
        using 1 Cons that by simp
      obtain key val where "flag_cut (if s ! 1 = DASH then drop 2 s else drop 1 s) = (key, val)" by fastforce
      then show ?thesis using r t unfolding Cons parse_typed.simps(2) parse_flags.simps(2)
        by (cases val; cases rest) (simp_all add: kinds set_ok Let_def del: parse_typed.simps parse_flags.simps)
    qed simp
  qed
qed

subsection \<open>Fields and EqualFold\<close>

text \<open>\<open>strings.Fields\<close>: the maximal runs without white space; the word so far is in reverse.\<close>

fun fields_from :: "string \<Rightarrow> string \<Rightarrow> string list" where
  "fields_from w [] = (if w = [] then [] else [rev w])"
| "fields_from w (c # s) =
     (case find (\<lambda>e. prefix e (c # s)) space_encs of
        Some e \<Rightarrow> (if w = [] then [] else [rev w]) @ fields_from [] (drop (length e - 1) s)
      | None \<Rightarrow> fields_from (c # w) s)"

definition str_fields :: "string \<Rightarrow> string list" where
  "str_fields s = fields_from [] s"

text \<open>
  \<open>strings.EqualFold\<close> against a text of ASCII characters: the Kelvin sign folds to k and the long s
  to s, no other rune outside ASCII folds into it.
\<close>

fun fold_case :: "string \<Rightarrow> string" where
  "fold_case [] = []"
| "fold_case (c # s) =
     (if c = CHR 0xC5 \<and> prefix [CHR 0xBF] s then CHR ''s'' # fold_case (drop 1 s)
      else if c = CHR 0xE2 \<and> prefix [CHR 0x84, CHR 0xAA] s then CHR ''k'' # fold_case (drop 2 s)
      else lower_char c # fold_case s)"

definition equal_fold :: "string \<Rightarrow> string \<Rightarrow> bool" where
  "equal_fold s t = (fold_case s = fold_case t)"

lemma equal_fold_refl [simp]: "equal_fold s s"
  by (simp add: equal_fold_def)

end
