(* ===== verification/Adapter_Resources.thy ===== *)
theory Adapter_Resources
  imports Qconf Go_Typed_Flag Go_Path
begin

text \<open>
  The first half of \<open>src/cmd/gridware-adapter/main.go\<close>: the resource options, and the complex
  entries, execution hosts and load sensors that \<open>ensure-resource\<close> writes. An error that is
  formatted into another one is kept as its text: the command only prints it.
\<close>

definition defaultResourceName :: string where
  "defaultResourceName = ''qpu''"

definition parseCSV :: "string \<Rightarrow> string list" where
  "parseCSV raw =
     (if trim_space raw = [] then []
      else filter (\<lambda>p. p \<noteq> []) (map trim_space (split (CHR '','') raw)))"

definition parseSingleBackendName :: "string \<Rightarrow> gerr + string" where
  "parseSingleBackendName raw =
     (let backend = trim_space raw in
      if backend = [] then Inl (Errorf ''--host-value cannot be empty'' [])
      else if contains backend '',''
      then Inl (Errorf ''invalid --host-value %q: only one backend name is allowed'' [S raw])
      else if contains_any backend [SP, TAB, CR, LF]
      then Inl (Errorf ''invalid --host-value %q: whitespace is not allowed'' [S raw])
      else Inr backend)"

subsection \<open>Options\<close>

record resourceOptions =
  enableSlots :: bool
  slotsName :: string
  slotsCapacity :: i64
  slotsScope :: string
  enableLoadSensor :: bool
  readyName :: string
  loadSensorHost :: string
  loadSensorPath :: string

definition trimmed_options :: "resourceOptions \<Rightarrow> resourceOptions" where
  "trimmed_options r = r\<lparr>slotsName := trim_space (slotsName r),
     slotsScope := to_lower (trim_space (slotsScope r)), readyName := trim_space (readyName r),
     loadSensorHost := trim_space (loadSensorHost r), loadSensorPath := trim_space (loadSensorPath r)\<rparr>"

definition resourceOptionsFromFlags :: "resourceOptions \<Rightarrow> gerr + resourceOptions" where
  "resourceOptionsFromFlags flags =
     (let opts = trimmed_options flags in
      if enableSlots opts \<and> (slotsName opts = [] \<or> sint (slotsCapacity opts) < 0)
      then Inl (Errorf ''--qpu-slots-name cannot be empty and --qpu-slots-capacity cannot be negative'' [])
      else if enableSlots opts \<and> slotsScope opts \<noteq> ''host'' \<and> slotsScope opts \<noteq> ''global''
      then Inl (Errorf ''--qpu-slots-scope must be host or global'' [])
      else if enableLoadSensor opts \<and> (readyName opts = [] \<or> loadSensorHost opts = [] \<or> loadSensorPath opts = [])
      then Inl (Errorf ''--qpu-ready-name, --load-sensor-host, and --load-sensor-path are required with --enable-load-sensor'' [])
      else if enableLoadSensor opts \<and> contains_any (loadSensorPath opts) [SP, TAB, CR, LF]
      then Inl (Errorf ''--load-sensor-path must be an executable path without arguments'' [])
      else Inr opts)"

subsection \<open>Complex entries\<close>

definition qpuComplexEntry :: "'c qconf \<Rightarrow> ComplexEntryConfig" where
  "qpuComplexEntry q =
     \<lparr>ce_Name = defaultResourceName, ce_Shortcut = defaultResourceName, ce_Type = ResourceTypeString q,
      ce_Relop = ''=='', ce_Requestable = ''YES'', ce_Consumable = ConsumableNO q, ce_Default = ''NONE'',
      ce_Urgency = 1000, ce_others = []\<rparr>"

definition qpuSlotsComplexEntry :: "'c qconf \<Rightarrow> string \<Rightarrow> ComplexEntryConfig" where
  "qpuSlotsComplexEntry q name =
     \<lparr>ce_Name = name, ce_Shortcut = name, ce_Type = ResourceTypeInt q, ce_Relop = ''<='',
      ce_Requestable = ''YES'', ce_Consumable = ConsumableJOB q, ce_Default = ''0'', ce_Urgency = 0,
      ce_others = []\<rparr>"

definition qpuReadyComplexEntry :: "'c qconf \<Rightarrow> string \<Rightarrow> ComplexEntryConfig" where
  "qpuReadyComplexEntry q name =
     \<lparr>ce_Name = name, ce_Shortcut = name, ce_Type = ResourceTypeInt q, ce_Relop = ''<='',
      ce_Requestable = ''YES'', ce_Consumable = ConsumableNO q, ce_Default = ''0'', ce_Urgency = 0,
      ce_others = []\<rparr>"

definition complexEntryMatches :: "ComplexEntryConfig \<Rightarrow> ComplexEntryConfig \<Rightarrow> bool" where
  "complexEntryMatches current desired =
     (ce_Shortcut current = ce_Shortcut desired \<and> ce_Type current = ce_Type desired \<and>
      ce_Relop current = ce_Relop desired \<and>
      equal_fold (ce_Requestable current) (ce_Requestable desired) \<and>
      equal_fold (ce_Consumable current) (ce_Consumable desired) \<and>
      ce_Default current = ce_Default desired \<and> ce_Urgency current = ce_Urgency desired)"

definition aligned :: "ComplexEntryConfig \<Rightarrow> ComplexEntryConfig \<Rightarrow> ComplexEntryConfig" where
  "aligned current desired =
     current\<lparr>ce_Shortcut := ce_Shortcut desired, ce_Type := ce_Type desired, ce_Relop := ce_Relop desired,
       ce_Requestable := ce_Requestable desired, ce_Consumable := ce_Consumable desired,
       ce_Default := ce_Default desired, ce_Urgency := ce_Urgency desired\<rparr>"

text \<open>The result: whether the entry was changed, or the error.\<close>

definition ensureComplexEntry ::
  "'c qconf \<Rightarrow> ComplexEntryConfig \<Rightarrow> 'c session \<Rightarrow> (gerr + bool) \<times> 'c session" where
  "ensureComplexEntry q desired s =
     (case ShowComplexEntry q (ce_Name desired) (cluster s) of
        Inl err \<Rightarrow>
          (case act (AddComplexEntry q desired) s of
             (Some addErr, s) \<Rightarrow>
               (Inl (Errorf ''add complex entry %q: %v (original show error: %v)''
                  [S (ce_Name desired), S (error_text addErr), S (error_text err)]), s)
           | (None, s) \<Rightarrow> (Inr True, s))
      | Inr current \<Rightarrow>
          if complexEntryMatches current desired then (Inr False, s)
          else (case act (ModifyComplexEntry q (ce_Name desired) (aligned current desired)) s of
             (Some err, s) \<Rightarrow> (Inl (Wrapf ''modify complex entry %q: %w'' [S (ce_Name desired)] err), s)
           | (None, s) \<Rightarrow> (Inr True, s)))"

definition ensure_entry :: "'c qconf \<Rightarrow> ComplexEntryConfig \<Rightarrow> 'c session \<Rightarrow> gerr option \<times> 'c session" where
  "ensure_entry q desired s =
     (case ensureComplexEntry q desired s of (Inl e, s) \<Rightarrow> (Some e, s) | (Inr _, s) \<Rightarrow> (None, s))"

subsection \<open>Execution hosts\<close>

text \<open>A missing key of a Go map reads as the empty string.\<close>

definition setExecHostResource ::
  "'c qconf \<Rightarrow> string \<Rightarrow> string \<Rightarrow> string \<Rightarrow> 'c session \<Rightarrow> gerr option \<times> 'c session" where
  "setExecHostResource q host name val s =
     (case ShowExecHost q host (cluster s) of
        Inl err \<Rightarrow> (Some (Wrapf ''show exechost %q: %w'' [S host] err), s)
      | Inr hostCfg \<Rightarrow>
          if (case eh_ComplexValues hostCfg name of None \<Rightarrow> [] | Some v \<Rightarrow> v) = val then (None, s)
          else (case act (ModifyExecHost q host
                  (hostCfg\<lparr>eh_Name := host, eh_ComplexValues := (eh_ComplexValues hostCfg)(name \<mapsto> val)\<rparr>)) s of
             (Some err, s) \<Rightarrow> (Some (Wrapf ''modify exechost %q: %w'' [S host] err), s)
           | (None, s) \<Rightarrow> (None, s)))"

definition clearExecHostResource ::
  "'c qconf \<Rightarrow> string \<Rightarrow> string \<Rightarrow> 'c session \<Rightarrow> gerr option \<times> 'c session" where
  "clearExecHostResource q host name s =
     (case ShowExecHost q host (cluster s) of
        Inl err \<Rightarrow> (Some (Wrapf ''show exechost %q: %w'' [S host] err), s)
      | Inr hostCfg \<Rightarrow>
          if eh_ComplexValues hostCfg name = None then (None, s)
          else (case act (ModifyExecHost q host
                  (hostCfg\<lparr>eh_Name := host, eh_ComplexValues := (eh_ComplexValues hostCfg)(name := None)\<rparr>)) s of
             (Some err, s) \<Rightarrow> (Some (Wrapf ''modify exechost %q: %w'' [S host] err), s)
           | (None, s) \<Rightarrow> (None, s)))"

subsection \<open>Load sensors\<close>

definition same_sensor :: "string \<Rightarrow> string \<Rightarrow> bool" where
  "same_sensor path sensor = (equal_fold sensor ''NONE'' \<or> path_base sensor = path_base path)"

definition withLoadSensor :: "string list \<Rightarrow> string \<Rightarrow> string list" where
  "withLoadSensor current path = filter (\<lambda>sensor. \<not> same_sensor path sensor) current @ [path]"

definition configureHostLoadSensor ::
  "'c qconf \<Rightarrow> string \<Rightarrow> string \<Rightarrow> 'c session \<Rightarrow> gerr option \<times> 'c session" where
  "configureHostLoadSensor q host path s =
     (case ShowHostConfiguration q host (cluster s) of
        Inl err \<Rightarrow>
          (case act (AddHostConfiguration q
                  \<lparr>hc_Name = host, hc_LoadSensors = [path], hc_ExecdSpoolDir = None, hc_others = []\<rparr>) s of
             (Some addErr, s) \<Rightarrow>
               (Some (Errorf ''add host configuration %q: %v (original show error: %v)''
                  [S host, S (error_text addErr), S (error_text err)]), s)
           | (None, s) \<Rightarrow> (None, s))
      | Inr hostCfg \<Rightarrow>
          if withLoadSensor (hc_LoadSensors hostCfg) path = hc_LoadSensors hostCfg then (None, s)
          else (case act (ModifyHostConfiguration q host
                  (hostCfg\<lparr>hc_Name := host, hc_LoadSensors := withLoadSensor (hc_LoadSensors hostCfg) path\<rparr>)) s of
             (Some err, s) \<Rightarrow> (Some (Wrapf ''modify host configuration %q: %w'' [S host] err), s)
           | (None, s) \<Rightarrow> (None, s)))"

subsection \<open>ensureResourceDefault\<close>

definition slots_on_host :: "'c qconf \<Rightarrow> string \<Rightarrow> resourceOptions \<Rightarrow> 'c session \<Rightarrow> gerr option \<times> 'c session" where
  "slots_on_host q host opts s =
     (if 0 < sint (slotsCapacity opts)
      then setExecHostResource q host (slotsName opts) (itoa (slotsCapacity opts)) s
      else clearExecHostResource q host (slotsName opts) s)"

fun set_hosts ::
  "'c qconf \<Rightarrow> string \<Rightarrow> resourceOptions \<Rightarrow> string list \<Rightarrow> 'c session \<Rightarrow> gerr option \<times> 'c session" where
  "set_hosts q val opts [] s = (None, s)"
| "set_hosts q val opts (host # hosts) s =
     and_then
       (and_print
          (and_then (setExecHostResource q host defaultResourceName val s)
             (\<lambda>s. if enableSlots opts \<and> slotsScope opts = ''host'' then slots_on_host q host opts s else (None, s)))
          (sprintf ''set %s=%s on exechost %s'' [S defaultResourceName, S val, S host]))
       (set_hosts q val opts hosts)"

definition ensure_qpu :: "'c qconf \<Rightarrow> 'c session \<Rightarrow> gerr option \<times> 'c session" where
  "ensure_qpu q s =
     (case ensureComplexEntry q (qpuComplexEntry q) s of
        (Inl e, s) \<Rightarrow> (Some e, s)
      | (Inr changed, s) \<Rightarrow>
          (None, print (Out (sprintf
             (if changed then ''ensured complex entry %q''
              else ''complex entry %q already matches requested settings'') [S defaultResourceName])) s))"

definition ensure_slots :: "'c qconf \<Rightarrow> resourceOptions \<Rightarrow> 'c session \<Rightarrow> gerr option \<times> 'c session" where
  "ensure_slots q opts s =
     (if enableSlots opts
      then and_print (ensure_entry q (qpuSlotsComplexEntry q (slotsName opts)) s)
             (sprintf ''ensured complex entry %q'' [S (slotsName opts)])
      else (None, s))"

definition ensure_sensor :: "'c qconf \<Rightarrow> resourceOptions \<Rightarrow> 'c session \<Rightarrow> gerr option \<times> 'c session" where
  "ensure_sensor q opts s =
     (if enableLoadSensor opts
      then and_print
        (and_then (and_then (ensure_entry q (qpuReadyComplexEntry q (readyName opts)) s)
             (setExecHostResource q ''global'' (readyName opts) ''1''))
           (configureHostLoadSensor q (loadSensorHost opts) (loadSensorPath opts)))
        (sprintf ''ensured complex entry %q and Load Sensor on host %s'' [S (readyName opts), S (loadSensorHost opts)])
      else (None, s))"

definition ensure_global_slots :: "'c qconf \<Rightarrow> resourceOptions \<Rightarrow> 'c session \<Rightarrow> gerr option \<times> 'c session" where
  "ensure_global_slots q opts s =
     (if enableSlots opts \<and> slotsScope opts = ''global'' then slots_on_host q ''global'' opts s else (None, s))"

definition ensureResourceDefault ::
  "'c qconf \<Rightarrow> string list \<Rightarrow> string \<Rightarrow> resourceOptions \<Rightarrow> 'c session \<Rightarrow> gerr option \<times> 'c session" where
  "ensureResourceDefault q hosts val opts s =
     and_then (and_then (and_then (and_then (ensure_qpu q s)
       (ensure_slots q opts)) (ensure_sensor q opts)) (ensure_global_slots q opts))
       (\<lambda>s. if hosts = []
            then (None, print (Out ''no hosts provided; skipped exechost complex_values update'') s)
            else set_hosts q val opts hosts s)"

end
