(* ===== verification/Adapter_Hooks.thy ===== *)
theory Adapter_Hooks
  imports Qconf Go_Typed_Flag Go_Path
begin

text \<open>
  The second half of \<open>src/cmd/gridware-adapter/main.go\<close>: the queue hooks. The adapter renders the
  command lines that the scheduler runs, for the launcher and the two hooks to read, and writes
  them and the reporting parameter into the scheduler's configuration.
\<close>

text \<open>The adapter's surroundings: \<open>os.Getenv\<close>, \<open>exec.LookPath\<close>, \<open>os.Getwd\<close> and \<open>os.ReadFile\<close>.\<close>

record shell =
  env_var :: "string \<Rightarrow> string"
  look_path :: "string \<Rightarrow> gerr + string"
  work_dir :: "gerr + string"
  read_path :: "string \<Rightarrow> gerr + string"

definition defaultReportingPattern :: string where
  "defaultReportingPattern = ''usage_patterns=qrmi:qrmi_*''"

definition launcherName :: string where
  "launcherName = ''qrmi-ocs-launch''"

subsection \<open>Options\<close>

record queueHookOptions =
  configPath :: string
  resourceName :: string
  slotsResourceName :: string
  qstatPath :: string
  hookUser :: string
  logLevel :: string
  launcher :: string

definition bootstrapPath :: "shell \<Rightarrow> string" where
  "bootstrapPath sh =
     (let cell = (if env_var sh ''SGE_CELL'' = [] then ''default'' else env_var sh ''SGE_CELL'') in
      path_join [env_var sh ''SGE_ROOT'', cell, ''common'', ''bootstrap''])"

fun admin_user_of :: "string list \<Rightarrow> string" where
  "admin_user_of [] = ''root''"
| "admin_user_of (line # lines) =
     (case str_fields line of
        [key, user] \<Rightarrow>
          if key = ''admin_user'' then (if equal_fold user ''none'' then ''root'' else user)
          else admin_user_of lines
      | _ \<Rightarrow> admin_user_of lines)"

definition ocsAdminUser :: "shell \<Rightarrow> string \<Rightarrow> gerr + string" where
  "ocsAdminUser sh path =
     (case read_path sh path of
        Inl e \<Rightarrow> Inl (Wrapf ''read OCS bootstrap %s (set --hook-user to skip): %w'' [S path] e)
      | Inr text \<Rightarrow> Inr (admin_user_of (split LF text)))"

text \<open>\<open>filepath.Abs\<close>.\<close>

definition file_abs :: "shell \<Rightarrow> string \<Rightarrow> gerr + string" where
  "file_abs sh path =
     (if is_abs path then Inr (Clean path)
      else case work_dir sh of Inl e \<Rightarrow> Inl e | Inr wd \<Rightarrow> Inr (path_join [wd, path]))"

definition queueHookOptionsFromFlags :: "shell \<Rightarrow> queueHookOptions \<Rightarrow> gerr + queueHookOptions" where
  "queueHookOptionsFromFlags sh flags =
     (case look_path sh (trim_space (qstatPath flags)) of
        Inl e \<Rightarrow> Inl (Wrapf ''resolve qstat executable: %w'' [] e)
      | Inr found \<Rightarrow>
          (case file_abs sh found of
             Inl e \<Rightarrow> Inl (Wrapf ''resolve absolute qstat path: %w'' [] e)
           | Inr resolvedQstat \<Rightarrow>
               let opts = \<lparr>configPath = trim_space (configPath flags), resourceName = trim_space (resourceName flags),
                     slotsResourceName = trim_space (slotsResourceName flags), qstatPath = resolvedQstat,
                     hookUser = trim_space (hookUser flags), logLevel = trim_space (logLevel flags),
                     launcher = trim_space (launcher flags)\<rparr> in
               if configPath opts = [] \<or> resourceName opts = []
               then Inl (Errorf ''QRMI config and QPU resource must not be empty'' [])
               else if hookUser opts = []
               then (case ocsAdminUser sh (bootstrapPath sh) of
                       Inl e \<Rightarrow> Inl e
                     | Inr user \<Rightarrow> Inr (opts\<lparr>hookUser := user\<rparr>))
               else Inr opts))"

subsection \<open>The launcher's options\<close>

definition add_root :: "string list \<Rightarrow> string \<Rightarrow> string list" where
  "add_root roots dir =
     (let d = trim_space dir in
      if is_abs d \<and> Clean d \<notin> set roots then roots @ [Clean d] else roots)"

fun host_roots :: "'c qconf \<Rightarrow> 'c \<Rightarrow> string list \<Rightarrow> string list \<Rightarrow> gerr + string list" where
  "host_roots q c roots [] = Inr roots"
| "host_roots q c roots (host # hosts) =
     (case ShowHostConfiguration q host c of
        Inl e \<Rightarrow> Inl (Wrapf ''show host configuration %q: %w'' [S host] e)
      | Inr cfg \<Rightarrow>
          host_roots q c (case hc_ExecdSpoolDir cfg of None \<Rightarrow> roots | Some dir \<Rightarrow> add_root roots dir) hosts)"

definition spoolRoots :: "'c qconf \<Rightarrow> 'c \<Rightarrow> gerr + string list" where
  "spoolRoots q c =
     (let roots = (case ShowGlobalConfiguration q c of
            Inr (Some cfg) \<Rightarrow> add_root [] (gc_ExecdSpoolDir cfg) | _ \<Rightarrow> []) in
      case ShowHostConfigurations q c of
        Inl e \<Rightarrow> Inl (Wrapf ''list host configurations: %w'' [] e)
      | Inr hosts \<Rightarrow> host_roots q c roots hosts)"

definition port_arg :: "shell \<Rightarrow> string \<Rightarrow> string \<Rightarrow> string list" where
  "port_arg sh var opt = (if env_var sh var = [] then [] else [opt @ env_var sh var])"

definition launcherSettings :: "shell \<Rightarrow> 'c qconf \<Rightarrow> 'c \<Rightarrow> gerr + string list" where
  "launcherSettings sh q c =
     (let root = env_var sh ''SGE_ROOT'';
          cell = (if env_var sh ''SGE_CELL'' = [] then ''default'' else env_var sh ''SGE_CELL'') in
      if \<not> is_abs root
      then Inl (Errorf ''SGE_ROOT must be set to an absolute path; source the OCS settings file first'' [])
      else case spoolRoots q c of
        Inl e \<Rightarrow> Inl e
      | Inr roots \<Rightarrow>
          Inr ([''--sge-root='' @ Clean root, ''--sge-cell='' @ cell] @ map (\<lambda>r. ''--spool-root='' @ r) roots @
               port_arg sh ''SGE_QMASTER_PORT'' ''--qmaster-port='' @ port_arg sh ''SGE_EXECD_PORT'' ''--execd-port=''))"

subsection \<open>The commands\<close>

fun add_args :: "string \<Rightarrow> string list \<Rightarrow> gerr + string" where
  "add_args command [] = Inr command"
| "add_args command (arg # args) =
     (if arg = [] \<or> contains_any arg [SP, TAB, CR, LF]
      then Inl (Errorf ''hook arguments must be non-empty and contain no whitespace'' [])
      else add_args (command @ SP # arg) args)"

definition bad_hook_path :: "string \<Rightarrow> bool" where
  "bad_hook_path path = (contains_any path [SP, TAB, CR, LF, CHR 0x40] \<or> \<not> is_abs path)"

definition bad_path_error :: "string \<Rightarrow> gerr" where
  "bad_path_error path = Errorf
     ''hook and launcher paths must be absolute, without whitespace or a user prefix (use --hook-user): %q'' [S path]"

definition qrmiQueueHookCommand ::
  "string \<Rightarrow> string \<Rightarrow> string \<Rightarrow> string list \<Rightarrow> string list \<Rightarrow> gerr + string" where
  "qrmiQueueHookCommand rawHook launch user launcherArgs args =
     (let hook = trim_space rawHook in
      if hook = ''NONE'' then Inr hook
      else if bad_hook_path hook then Inl (bad_path_error hook)
      else if bad_hook_path launch then Inl (bad_path_error launch)
      else if user = [] \<or> contains_any user [CHR 0x40, SP, TAB, CR, LF, CHR 0x24]
      then Inl (Errorf ''invalid hook user %q'' [S user])
      else case add_args (user @ CHR 0x40 # launch) (launcherArgs @ hook # args) of
        Inl e \<Rightarrow> Inl e
      | Inr command \<Rightarrow> Inr (command @ '' $job_owner''))"

definition common_args :: "queueHookOptions \<Rightarrow> string list" where
  "common_args opts =
     (''--config='' @ configPath opts) # (if logLevel opts = [] then [] else [''--log-level='' @ logLevel opts])"

definition prolog_args :: "queueHookOptions \<Rightarrow> string list" where
  "prolog_args opts = common_args opts @
     [''--resource='' @ resourceName opts, ''--slots-resource='' @ slotsResourceName opts, ''--qstat='' @ qstatPath opts]"

definition launcher_path :: "queueHookOptions \<Rightarrow> string \<Rightarrow> string" where
  "launcher_path opts prolog =
     (if launcher opts = [] then path_join [path_dir (trim_space prolog), launcherName] else launcher opts)"

definition hook_commands ::
  "shell \<Rightarrow> 'c qconf \<Rightarrow> 'c \<Rightarrow> string \<Rightarrow> string \<Rightarrow> queueHookOptions \<Rightarrow> gerr + (string \<times> string)" where
  "hook_commands sh q c prolog epilog opts =
     (case launcherSettings sh q c of
        Inl e \<Rightarrow> Inl e
      | Inr launcherArgs \<Rightarrow>
          (case qrmiQueueHookCommand prolog (launcher_path opts prolog) (hookUser opts) launcherArgs (prolog_args opts) of
             Inl e \<Rightarrow> Inl (Wrapf ''invalid prolog: %w'' [] e)
           | Inr prologCommand \<Rightarrow>
               (case qrmiQueueHookCommand epilog (launcher_path opts prolog) (hookUser opts) launcherArgs (common_args opts) of
                  Inl e \<Rightarrow> Inl (Wrapf ''invalid epilog: %w'' [] e)
                | Inr epilogCommand \<Rightarrow> Inr (prologCommand, epilogCommand))))"

definition configureQueueHookPaths ::
  "shell \<Rightarrow> 'c qconf \<Rightarrow> string \<Rightarrow> string \<Rightarrow> string \<Rightarrow> queueHookOptions \<Rightarrow> 'c session \<Rightarrow> gerr option \<times> 'c session" where
  "configureQueueHookPaths sh q queue prolog epilog opts s =
     (case hook_commands sh q (cluster s) prolog epilog opts of
        Inl e \<Rightarrow> (Some e, s)
      | Inr (prologCommand, epilogCommand) \<Rightarrow>
          (case ShowClusterQueue q queue (cluster s) of
             Inl e \<Rightarrow> (Some (Wrapf ''show queue %q: %w'' [S queue] e), s)
           | Inr queueCfg \<Rightarrow>
               (case act (ModifyClusterQueue q queue
                       (queueCfg\<lparr>cq_Name := queue, cq_Prolog := [prologCommand], cq_Epilog := [epilogCommand]\<rparr>)) s of
                  (Some e, s) \<Rightarrow> (Some (Wrapf ''modify queue %q hooks: %w'' [S queue] e), s)
                | (None, s) \<Rightarrow>
                    (None, print (Out (sprintf ''updated queue hooks on %q: prolog=%q epilog=%q''
                       [S queue, S prologCommand, S epilogCommand])) s))))"

subsection \<open>Reporting\<close>

definition ensureGlobalReportingPattern ::
  "'c qconf \<Rightarrow> string \<Rightarrow> 'c session \<Rightarrow> gerr option \<times> 'c session" where
  "ensureGlobalReportingPattern q pattern s =
     (case ShowGlobalConfiguration q (cluster s) of
        Inl e \<Rightarrow> (Some (Wrapf ''show global configuration: %w'' [] e), s)
      | Inr None \<Rightarrow> (Some (Errorf ''show global configuration returned nil'' []), s)
      | Inr (Some globalCfg) \<Rightarrow>
          if pattern \<in> set (gc_ReportingParams globalCfg) then (None, s)
          else (case act (ModifyGlobalConfig q
                  (globalCfg\<lparr>gc_ReportingParams := gc_ReportingParams globalCfg @ [pattern]\<rparr>)) s of
             (Some e, s) \<Rightarrow> (Some (Wrapf ''modify global reporting_params: %w'' [] e), s)
           | (None, s) \<Rightarrow> (None, s)))"

definition configureGlobalQRMIReporting :: "'c qconf \<Rightarrow> 'c session \<Rightarrow> gerr option \<times> 'c session" where
  "configureGlobalQRMIReporting q s =
     and_print (ensureGlobalReportingPattern q defaultReportingPattern s)
       (sprintf ''ensured global reporting_params contains %q'' [S defaultReportingPattern])"

definition configureQueueHooksDefault ::
  "shell \<Rightarrow> 'c qconf \<Rightarrow> string \<Rightarrow> string \<Rightarrow> string \<Rightarrow> queueHookOptions \<Rightarrow> 'c session \<Rightarrow> gerr option \<times> 'c session" where
  "configureQueueHooksDefault sh q queue prolog epilog opts s =
     and_then (configureQueueHookPaths sh q queue prolog epilog opts s) (configureGlobalQRMIReporting q)"

end
