(* ===== verification/Adapter.thy ===== *)
theory Adapter
  imports Adapter_Resources Adapter_Hooks
begin

text \<open>
  The commands of \<open>src/cmd/gridware-adapter/main.go\<close> and its \<open>main\<close>. \<open>client\<close> is
  \<open>qconf.NewCommandLineQConf\<close> for an executable and the dry-run switch. The help texts are the
  opaque \<open>Usage\<close> of a command.
\<close>

subsection \<open>Flags\<close>

definition resource_flags :: "(string \<times> flag_kind) list" where
  "resource_flags =
     [(''qconf'', StringFlag), (''dry-run'', BoolFlag), (''hosts'', StringFlag), (''host-value'', StringFlag),
      (''enable-qpu-slots'', BoolFlag), (''qpu-slots-name'', StringFlag), (''qpu-slots-capacity'', IntFlag),
      (''qpu-slots-scope'', StringFlag), (''enable-load-sensor'', BoolFlag), (''qpu-ready-name'', StringFlag),
      (''load-sensor-host'', StringFlag), (''load-sensor-path'', StringFlag)]"

definition setup_flags :: "(string \<times> flag_kind) list" where
  "setup_flags = resource_flags @
     [(''qstat'', StringFlag), (''qrmi-config'', StringFlag), (''hook-user'', StringFlag), (''launcher'', StringFlag),
      (''hook-log-level'', StringFlag), (''queue'', StringFlag), (''prolog'', StringFlag), (''epilog'', StringFlag)]"

definition hooks_flags :: "(string \<times> flag_kind) list" where
  "hooks_flags =
     [(''qconf'', StringFlag), (''qstat'', StringFlag), (''qrmi-config'', StringFlag), (''hook-user'', StringFlag),
      (''launcher'', StringFlag), (''hook-log-level'', StringFlag), (''qpu-resource-name'', StringFlag),
      (''qpu-slots-name'', StringFlag), (''dry-run'', BoolFlag), (''queue'', StringFlag), (''prolog'', StringFlag),
      (''epilog'', StringFlag)]"

definition resource_options_of :: "(string \<times> string) list \<Rightarrow> resourceOptions" where
  "resource_options_of m =
     \<lparr>enableSlots = bool_flag m ''enable-qpu-slots'', slotsName = flag_value m ''qpu-slots-name'' ''qpu_slots'',
      slotsCapacity = int_flag m ''qpu-slots-capacity'' 1, slotsScope = flag_value m ''qpu-slots-scope'' ''host'',
      enableLoadSensor = bool_flag m ''enable-load-sensor'', readyName = flag_value m ''qpu-ready-name'' ''qpu_ready'',
      loadSensorHost = flag_value m ''load-sensor-host'' [], loadSensorPath = flag_value m ''load-sensor-path'' []\<rparr>"

definition hook_options_of :: "(string \<times> string) list \<Rightarrow> string \<Rightarrow> string \<Rightarrow> queueHookOptions" where
  "hook_options_of m resName slotsRes =
     \<lparr>configPath = flag_value m ''qrmi-config'' ''/etc/qrmi/qrmi_config.json'', resourceName = resName,
      slotsResourceName = slotsRes, qstatPath = flag_value m ''qstat'' ''qstat'',
      hookUser = flag_value m ''hook-user'' [], logLevel = flag_value m ''hook-log-level'' [],
      launcher = flag_value m ''launcher'' []\<rparr>"

text \<open>A parse error is printed with the help text, a request for help only prints the latter.\<close>

definition flag_failure :: "string \<Rightarrow> gerr \<Rightarrow> 'c session \<Rightarrow> gerr option \<times> 'c session" where
  "flag_failure name e s =
     (Some e, print (Usage name)
        (if e = Errorf ''flag: help requested'' [] then s else print (Err (error_text e)) s))"

definition required :: "(string \<times> string) list \<Rightarrow> string list \<Rightarrow> gerr option" where
  "required m names =
     (case find (\<lambda>n. trim_space (flag_value m n []) = []) names of
        None \<Rightarrow> None | Some n \<Rightarrow> Some (Errorf ''--%s is required'' [S n]))"

definition open_client ::
  "(string \<Rightarrow> bool \<Rightarrow> gerr + 'c qconf) \<Rightarrow> (string \<times> string) list \<Rightarrow> gerr + 'c qconf" where
  "open_client client m =
     (case client (flag_value m ''qconf'' ''qconf'') (bool_flag m ''dry-run'') of
        Inl e \<Rightarrow> Inl (Wrapf ''create qconf client: %w'' [] e) | Inr q \<Rightarrow> Inr q)"

subsection \<open>Commands\<close>

definition runEnsureResource ::
  "(string \<Rightarrow> bool \<Rightarrow> gerr + 'c qconf) \<Rightarrow> string list \<Rightarrow> 'c session \<Rightarrow> gerr option \<times> 'c session" where
  "runEnsureResource client args s =
     (case parse_typed resource_flags args [] of
        Inl e \<Rightarrow> flag_failure ''ensure-resource'' e s
      | Inr (m, _) \<Rightarrow>
          (case parseSingleBackendName (flag_value m ''host-value'' []) of
             Inl e \<Rightarrow> (Some e, s)
           | Inr val \<Rightarrow>
               (case open_client client m of
                  Inl e \<Rightarrow> (Some e, s)
                | Inr q \<Rightarrow>
                    (case resourceOptionsFromFlags (resource_options_of m) of
                       Inl e \<Rightarrow> (Some e, s)
                     | Inr opts \<Rightarrow> ensureResourceDefault q (parseCSV (flag_value m ''hosts'' [])) val opts s))))"

definition runSetupQRMISupport ::
  "shell \<Rightarrow> (string \<Rightarrow> bool \<Rightarrow> gerr + 'c qconf) \<Rightarrow> string list \<Rightarrow> 'c session \<Rightarrow> gerr option \<times> 'c session" where
  "runSetupQRMISupport sh client args s =
     (case parse_typed setup_flags args [] of
        Inl e \<Rightarrow> flag_failure ''setup-qrmi-support'' e s
      | Inr (m, _) \<Rightarrow>
          let hosts = parseCSV (flag_value m ''hosts'' []) in
          if hosts = [] then (Some (Errorf ''--hosts is required'' []), s)
          else case parseSingleBackendName (flag_value m ''host-value'' []) of
            Inl e \<Rightarrow> (Some e, s)
          | Inr val \<Rightarrow>
              (case required m [''queue'', ''prolog'', ''epilog''] of
                 Some e \<Rightarrow> (Some e, s)
               | None \<Rightarrow>
                   (case open_client client m of
                      Inl e \<Rightarrow> (Some e, s)
                    | Inr q \<Rightarrow>
                        (case resourceOptionsFromFlags (resource_options_of m) of
                           Inl e \<Rightarrow> (Some e, s)
                         | Inr opts \<Rightarrow>
                             and_then (ensureResourceDefault q hosts val opts s)
                               (\<lambda>s. case queueHookOptionsFromFlags sh
                                      (hook_options_of m defaultResourceName (slotsName opts)) of
                                  Inl e \<Rightarrow> (Some e, s)
                                | Inr hookOpts \<Rightarrow>
                                    configureQueueHooksDefault sh q (trim_space (flag_value m ''queue'' []))
                                      (trim_space (flag_value m ''prolog'' [])) (trim_space (flag_value m ''epilog'' []))
                                      hookOpts s)))))"

definition runConfigureQueueHooks ::
  "shell \<Rightarrow> (string \<Rightarrow> bool \<Rightarrow> gerr + 'c qconf) \<Rightarrow> string list \<Rightarrow> 'c session \<Rightarrow> gerr option \<times> 'c session" where
  "runConfigureQueueHooks sh client args s =
     (case parse_typed hooks_flags args [] of
        Inl e \<Rightarrow> flag_failure ''configure-queue-hooks'' e s
      | Inr (m, _) \<Rightarrow>
          (case required m [''queue'', ''prolog'', ''epilog''] of
             Some e \<Rightarrow> (Some e, s)
           | None \<Rightarrow>
               (case open_client client m of
                  Inl e \<Rightarrow> (Some e, s)
                | Inr q \<Rightarrow>
                    (case queueHookOptionsFromFlags sh
                        (hook_options_of m (flag_value m ''qpu-resource-name'' defaultResourceName)
                           (flag_value m ''qpu-slots-name'' ''qpu_slots'')) of
                       Inl e \<Rightarrow> (Some e, s)
                     | Inr hookOpts \<Rightarrow>
                         configureQueueHooksDefault sh q (flag_value m ''queue'' []) (flag_value m ''prolog'' [])
                           (flag_value m ''epilog'' []) hookOpts s))))"

definition root_usage :: "string list" where
  "root_usage =
     [''Gridware Cluster Scheduler (GCS) / Open Cluster Scheduler (OCS) QRMI adapter'', [], ''Usage:'',
      ''  adapter setup-qrmi-support [flags]'', ''  adapter ensure-resource [flags]'',
      ''  adapter configure-queue-hooks [flags]'', [], ''Subcommands:'',
      ''  setup-qrmi-support  Ensure resource, host mapping, queue hooks, and reporting params'',
      ''  ensure-resource  Ensure qpu complex entry and host complex_values'',
      ''  configure-queue-hooks  Configure queue prolog/epilog and reporting params'']"

definition printRootUsage :: "'c session \<Rightarrow> 'c session" where
  "printRootUsage s = foldl (\<lambda>s line. print (Out line) s) s root_usage"

text \<open>The arguments after the program's name; the result is the exit code.\<close>

definition exit_of :: "gerr option \<times> 'c session \<Rightarrow> nat \<times> 'c session" where
  "exit_of r =
     (case r of
        (Some e, s) \<Rightarrow> (1, print (Err (sprintf ''error: %v'' [S (error_text e)])) s)
      | (None, s) \<Rightarrow> (0, s))"

definition adapter_main ::
  "shell \<Rightarrow> (string \<Rightarrow> bool \<Rightarrow> gerr + 'c qconf) \<Rightarrow> string list \<Rightarrow> 'c session \<Rightarrow> nat \<times> 'c session" where
  "adapter_main sh client args s =
     (case args of
        [] \<Rightarrow> (2, printRootUsage s)
      | command # args \<Rightarrow>
          if command = ''setup-qrmi-support'' then exit_of (runSetupQRMISupport sh client args s)
          else if command = ''ensure-resource'' then exit_of (runEnsureResource client args s)
          else if command = ''configure-queue-hooks'' then exit_of (runConfigureQueueHooks sh client args s)
          else (2, printRootUsage (print (Err (sprintf ''unknown subcommand: %s'' [S command])) s)))"

end
