(* ===== verification/Adapter_Settled.thy ===== *)
theory Adapter_Settled
  imports Adapter_Resources
begin

text \<open>
  What \<open>ensure-resource\<close> establishes in the cluster, under the laws of the client: which facts a
  successful run leaves true, what it may change at all, and that a run on such a cluster changes
  nothing.
\<close>

text \<open>What the theorems talk about: one complex value of a host, and a host's other attributes.\<close>

definition val_at :: "'c qconf \<Rightarrow> 'c \<Rightarrow> string \<Rightarrow> string \<Rightarrow> gerr + string option" where
  "val_at q c h n = (case execs q c h of Inl e \<Rightarrow> Inl e | Inr x \<Rightarrow> Inr (eh_ComplexValues x n))"

definition others_at :: "'c qconf \<Rightarrow> 'c \<Rightarrow> string \<Rightarrow> gerr + (string \<times> string) list" where
  "others_at q c h = (case execs q c h of Inl e \<Rightarrow> Inl e | Inr x \<Rightarrow> Inr (eh_others x))"

text \<open>
  From \<open>c\<close> to \<open>c'\<close> only the complex entries \<open>C\<close>, the host values \<open>E\<close> and the load sensors \<open>H\<close> may differ,
  and an entry that was there keeps the attributes the adapter does not know.
\<close>

definition touches ::
  "'c qconf \<Rightarrow> string set \<Rightarrow> (string \<times> string) set \<Rightarrow> string set \<Rightarrow> 'c \<Rightarrow> 'c \<Rightarrow> bool" where
  "touches q C E H c c' \<longleftrightarrow>
     (\<forall>n. n \<notin> C \<longrightarrow> complexes q c' n = complexes q c n) \<and>
     (\<forall>h n. (h, n) \<notin> E \<longrightarrow> val_at q c' h n = val_at q c h n) \<and>
     (\<forall>h. others_at q c' h = others_at q c h) \<and>
     (\<forall>h. h \<notin> H \<longrightarrow> hostconfs q c' h = hostconfs q c h) \<and>
     (\<forall>n e. complexes q c n = Inr e \<longrightarrow>
        (\<exists>e'. complexes q c' n = Inr e' \<and> ce_Name e' = ce_Name e \<and> ce_others e' = ce_others e))"

lemma touches_refl [simp]: "touches q C E H c c"
  by (simp add: touches_def)

lemma touches_mono:
  "touches q C E H c c' \<Longrightarrow> C \<subseteq> C' \<Longrightarrow> E \<subseteq> E' \<Longrightarrow> H \<subseteq> H' \<Longrightarrow> touches q C' E' H' c c'"
  unfolding touches_def by blast

lemma touches_trans: "touches q C E H a b \<Longrightarrow> touches q C E H b c \<Longrightarrow> touches q C E H a c"
  unfolding touches_def by (intro conjI allI impI) (metis | simp)+

definition entry_ok :: "'c qconf \<Rightarrow> 'c \<Rightarrow> ComplexEntryConfig \<Rightarrow> bool" where
  "entry_ok q c d = (\<exists>cur. complexes q c (ce_Name d) = Inr cur \<and> complexEntryMatches cur d)"

definition value_ok :: "'c qconf \<Rightarrow> 'c \<Rightarrow> string \<Rightarrow> string \<Rightarrow> string \<Rightarrow> bool" where
  "value_ok q c h n v = (val_at q c h n = Inr (Some v) \<or> v = [] \<and> val_at q c h n = Inr None)"

definition slots_ok :: "'c qconf \<Rightarrow> 'c \<Rightarrow> string \<Rightarrow> resourceOptions \<Rightarrow> bool" where
  "slots_ok q c h opts =
     (if 0 < sint (slotsCapacity opts) then value_ok q c h (slotsName opts) (itoa (slotsCapacity opts))
      else val_at q c h (slotsName opts) = Inr None)"

definition sensor_ok :: "'c qconf \<Rightarrow> 'c \<Rightarrow> string \<Rightarrow> string \<Rightarrow> bool" where
  "sensor_ok q c h path =
     (\<exists>x. hostconfs q c h = Inr x \<and> withLoadSensor (hc_LoadSensors x) path = hc_LoadSensors x)"

lemma touches_entry: "touches q C E H c c' \<Longrightarrow> ce_Name d \<notin> C \<Longrightarrow> entry_ok q c' d = entry_ok q c d"
  by (simp add: touches_def entry_ok_def)

lemma touches_value: "touches q C E H c c' \<Longrightarrow> (h, n) \<notin> E \<Longrightarrow> value_ok q c' h n v = value_ok q c h n v"
  by (simp add: touches_def value_ok_def)

lemma touches_slots:
  "touches q C E H c c' \<Longrightarrow> (h, slotsName opts) \<notin> E \<Longrightarrow> slots_ok q c' h opts = slots_ok q c h opts"
  by (simp add: slots_ok_def value_ok_def touches_def)

lemma touches_sensor: "touches q C E H c c' \<Longrightarrow> h \<notin> H \<Longrightarrow> sensor_ok q c' h p = sensor_ok q c h p"
  by (simp add: touches_def sensor_ok_def)

subsection \<open>One step\<close>

lemma matches_aligned: "complexEntryMatches (aligned cur d) d"
  by (simp add: complexEntryMatches_def aligned_def)

lemma ensureComplexEntry_effect:
  assumes "lawful_qconf q" "ensureComplexEntry q d s = (Inr b, s')"
  shows "touches q {ce_Name d} {} {} (cluster s) (cluster s') \<and> entry_ok q (cluster s') d"
proof (cases "ShowComplexEntry q (ce_Name d) (cluster s)")
  case (Inl e)
  then obtain c where c: "AddComplexEntry q d (cluster s) = (None, c)" "cluster s' = c"
    using assms(2) by (auto simp: ensureComplexEntry_def act_def split: prod.splits option.splits)
  then have "complexes q c = (complexes q (cluster s))(ce_Name d := Inr d) \<and> execs q c = execs q (cluster s) \<and>
      hostconfs q c = hostconfs q (cluster s)"
    using assms(1) unfolding lawful_qconf_def by blast
  moreover have "complexes q (cluster s) (ce_Name d) = Inl e" using Inl by (simp add: complexes_def)
  ultimately show ?thesis unfolding c(2)
    by (simp add: touches_def val_at_def others_at_def entry_ok_def complexEntryMatches_def)
next
  case (Inr cur)
  show ?thesis
  proof (cases "complexEntryMatches cur d")
    case True
    then show ?thesis using assms(2) Inr
      by (auto simp: ensureComplexEntry_def entry_ok_def complexes_def)
  next
    case False
    then obtain c where c: "ModifyComplexEntry q (ce_Name d) (aligned cur d) (cluster s) = (None, c)" "cluster s' = c"
      using assms(2) Inr by (auto simp: ensureComplexEntry_def act_def split: prod.splits option.splits)
    have "ce_Name (aligned cur d) = ce_Name d"
      using assms(1) Inr unfolding lawful_qconf_def by (simp add: aligned_def complexes_def)
    then have "complexes q c = (complexes q (cluster s))(ce_Name d := Inr (aligned cur d)) \<and>
        execs q c = execs q (cluster s) \<and> hostconfs q c = hostconfs q (cluster s)"
      using assms(1) c(1) unfolding lawful_qconf_def by blast
    moreover have "complexes q (cluster s) (ce_Name d) = Inr cur" using Inr by (simp add: complexes_def)
    ultimately show ?thesis unfolding c(2)
      by (simp add: touches_def val_at_def others_at_def entry_ok_def matches_aligned) (simp add: aligned_def)
  qed
qed

lemma ensureComplexEntry_settled:
  "entry_ok q (cluster s) d \<Longrightarrow> ensureComplexEntry q d s = (Inr False, s)"
  by (auto simp: ensureComplexEntry_def entry_ok_def complexes_def)

lemma modify_exec:
  assumes "lawful_qconf q" "ShowExecHost q h (cluster s) = Inr x"
    and "act (ModifyExecHost q h (x\<lparr>eh_Name := h, eh_ComplexValues := (eh_ComplexValues x)(n := v)\<rparr>)) s = (None, s')"
  shows "touches q {} {(h, n)} {} (cluster s) (cluster s') \<and> val_at q (cluster s') h n = Inr v"
proof -
  let ?y = "x\<lparr>eh_Name := h, eh_ComplexValues := (eh_ComplexValues x)(n := v)\<rparr>"
  have "ModifyExecHost q h ?y (cluster s) = (None, cluster s')" "eh_Name ?y = h"
    using assms(3) by (auto simp: act_def split: prod.splits)
  then have "complexes q (cluster s') = complexes q (cluster s) \<and> execs q (cluster s') = (execs q (cluster s))(h := Inr ?y) \<and>
      hostconfs q (cluster s') = hostconfs q (cluster s)"
    using assms(1) unfolding lawful_qconf_def by blast
  then show ?thesis using assms(2)
    by (auto simp: touches_def val_at_def others_at_def execs_def)
qed

lemma setExecHostResource_effect:
  assumes "lawful_qconf q" "setExecHostResource q h n v s = (None, s')"
  shows "touches q {} {(h, n)} {} (cluster s) (cluster s') \<and> value_ok q (cluster s') h n v"
proof -
  obtain x where x: "ShowExecHost q h (cluster s) = Inr x"
    using assms(2) by (auto simp: setExecHostResource_def split: sum.splits)
  show ?thesis
  proof (cases "(case eh_ComplexValues x n of None \<Rightarrow> [] | Some v \<Rightarrow> v) = v")
    case True
    then show ?thesis using assms(2) x
      by (auto simp: setExecHostResource_def value_ok_def val_at_def execs_def split: option.splits)
  next
    case False
    then have "act (ModifyExecHost q h (x\<lparr>eh_Name := h, eh_ComplexValues := (eh_ComplexValues x)(n \<mapsto> v)\<rparr>)) s = (None, s')"
      using assms(2) x by (auto simp: setExecHostResource_def split: prod.splits option.splits)
    from modify_exec [OF assms(1) x this] show ?thesis by (simp add: value_ok_def)
  qed
qed

lemma setExecHostResource_settled:
  "value_ok q (cluster s) h n v \<Longrightarrow> setExecHostResource q h n v s = (None, s)"
  by (auto simp: setExecHostResource_def value_ok_def val_at_def execs_def split: sum.splits)

lemma clearExecHostResource_effect:
  assumes "lawful_qconf q" "clearExecHostResource q h n s = (None, s')"
  shows "touches q {} {(h, n)} {} (cluster s) (cluster s') \<and> val_at q (cluster s') h n = Inr None"
proof -
  obtain x where x: "ShowExecHost q h (cluster s) = Inr x"
    using assms(2) by (auto simp: clearExecHostResource_def split: sum.splits)
  show ?thesis
  proof (cases "eh_ComplexValues x n")
    case None
    then show ?thesis using assms(2) x
      by (auto simp: clearExecHostResource_def val_at_def execs_def)
  next
    case (Some v)
    then have "act (ModifyExecHost q h (x\<lparr>eh_Name := h, eh_ComplexValues := (eh_ComplexValues x)(n := None)\<rparr>)) s = (None, s')"
      using assms(2) x by (auto simp: clearExecHostResource_def split: prod.splits option.splits)
    from modify_exec [OF assms(1) x this] show ?thesis by simp
  qed
qed

lemma clearExecHostResource_settled:
  "val_at q (cluster s) h n = Inr None \<Longrightarrow> clearExecHostResource q h n s = (None, s)"
  by (auto simp: clearExecHostResource_def val_at_def execs_def split: sum.splits)

subsection \<open>Load sensors\<close>

lemma same_sensor_self [simp]: "same_sensor p p"
  by (simp add: same_sensor_def)

lemma withLoadSensor_idem [simp]: "withLoadSensor (withLoadSensor ss p) p = withLoadSensor ss p"
  by (simp add: withLoadSensor_def)

lemma configureHostLoadSensor_effect:
  assumes "lawful_qconf q" "configureHostLoadSensor q h p s = (None, s')"
  shows "touches q {} {} {h} (cluster s) (cluster s') \<and> sensor_ok q (cluster s') h p"
proof (cases "ShowHostConfiguration q h (cluster s)")
  case (Inl e)
  let ?x = "\<lparr>hc_Name = h, hc_LoadSensors = [p], hc_ExecdSpoolDir = None, hc_others = []\<rparr>"
  have "AddHostConfiguration q ?x (cluster s) = (None, cluster s')"
    using assms(2) Inl by (auto simp: configureHostLoadSensor_def act_def split: prod.splits option.splits)
  then have "complexes q (cluster s') = complexes q (cluster s) \<and> execs q (cluster s') = execs q (cluster s) \<and>
      hostconfs q (cluster s') = (hostconfs q (cluster s))(hc_Name ?x := Inr ?x)"
    using assms(1) unfolding lawful_qconf_def by blast
  then show ?thesis
    by (simp add: touches_def val_at_def others_at_def sensor_ok_def withLoadSensor_def)
next
  case (Inr x)
  let ?y = "x\<lparr>hc_Name := h, hc_LoadSensors := withLoadSensor (hc_LoadSensors x) p\<rparr>"
  show ?thesis
  proof (cases "withLoadSensor (hc_LoadSensors x) p = hc_LoadSensors x")
    case True
    then show ?thesis using assms(2) Inr
      by (auto simp: configureHostLoadSensor_def sensor_ok_def hostconfs_def)
  next
    case False
    then have "ModifyHostConfiguration q h ?y (cluster s) = (None, cluster s')" "hc_Name ?y = h"
      using assms(2) Inr by (auto simp: configureHostLoadSensor_def act_def split: prod.splits option.splits)
    then have "complexes q (cluster s') = complexes q (cluster s) \<and> execs q (cluster s') = execs q (cluster s) \<and>
        hostconfs q (cluster s') = (hostconfs q (cluster s))(h := Inr ?y)"
      using assms(1) unfolding lawful_qconf_def by blast
    then show ?thesis
      by (simp add: touches_def val_at_def others_at_def sensor_ok_def)
  qed
qed

text \<open>
  What installing a sensor makes of a host's configuration: its own path comes once, at the end, in
  place of \<open>NONE\<close> and of other installs of the same file; the other sensors and everything else stay.
\<close>

definition sensor_added :: "'c qconf \<Rightarrow> string \<Rightarrow> string \<Rightarrow> 'c \<Rightarrow> 'c \<Rightarrow> bool" where
  "sensor_added q h path c c' =
     (case hostconfs q c h of
        Inl e \<Rightarrow> (\<exists>y. hostconfs q c' h = Inr y \<and> hc_Name y = h \<and> hc_LoadSensors y = [path] \<and>
          hc_ExecdSpoolDir y = None \<and> hc_others y = [])
      | Inr x \<Rightarrow> (\<exists>y. hostconfs q c' h = Inr y \<and>
          hc_LoadSensors y = filter (\<lambda>sensor. \<not> equal_fold sensor ''NONE'' \<and> path_base sensor \<noteq> path_base path)
            (hc_LoadSensors x) @ [path] \<and>
          hc_ExecdSpoolDir y = hc_ExecdSpoolDir x \<and> hc_others y = hc_others x))"

lemma withLoadSensor_filter:
  "withLoadSensor ss path =
     filter (\<lambda>sensor. \<not> equal_fold sensor ''NONE'' \<and> path_base sensor \<noteq> path_base path) ss @ [path]"
  by (simp add: withLoadSensor_def same_sensor_def)

lemma configureHostLoadSensor_adds:
  assumes "lawful_qconf q" "configureHostLoadSensor q h p s = (None, s')"
  shows "sensor_added q h p (cluster s) (cluster s')"
proof (cases "ShowHostConfiguration q h (cluster s)")
  case (Inl e)
  let ?x = "\<lparr>hc_Name = h, hc_LoadSensors = [p], hc_ExecdSpoolDir = None, hc_others = []\<rparr>"
  have "AddHostConfiguration q ?x (cluster s) = (None, cluster s')"
    using assms(2) Inl by (auto simp: configureHostLoadSensor_def act_def split: prod.splits option.splits)
  then have "hostconfs q (cluster s') = (hostconfs q (cluster s))(hc_Name ?x := Inr ?x)"
    using assms(1) unfolding lawful_qconf_def by blast
  moreover have "hostconfs q (cluster s) h = Inl e" using Inl by (simp add: hostconfs_def)
  ultimately show ?thesis by (simp add: sensor_added_def)
next
  case (Inr x)
  let ?y = "x\<lparr>hc_Name := h, hc_LoadSensors := withLoadSensor (hc_LoadSensors x) p\<rparr>"
  have x: "hostconfs q (cluster s) h = Inr x" using Inr by (simp add: hostconfs_def)
  show ?thesis
  proof (cases "withLoadSensor (hc_LoadSensors x) p = hc_LoadSensors x")
    case True
    then have "cluster s' = cluster s" using assms(2) Inr by (simp add: configureHostLoadSensor_def)
    then show ?thesis using x True by (simp add: sensor_added_def withLoadSensor_filter)
  next
    case False
    then have "ModifyHostConfiguration q h ?y (cluster s) = (None, cluster s')" "hc_Name ?y = h"
      using assms(2) Inr by (auto simp: configureHostLoadSensor_def act_def split: prod.splits option.splits)
    then have "hostconfs q (cluster s') = (hostconfs q (cluster s))(h := Inr ?y)"
      using assms(1) unfolding lawful_qconf_def by blast
    then show ?thesis using x by (simp add: sensor_added_def withLoadSensor_filter)
  qed
qed

lemma sensor_added_same:
  "sensor_added q h p a b \<Longrightarrow> hostconfs q a0 h = hostconfs q a h \<Longrightarrow> hostconfs q b' h = hostconfs q b h \<Longrightarrow>
   sensor_added q h p a0 b'"
  by (cases "hostconfs q a h") (simp_all add: sensor_added_def)

lemma configureHostLoadSensor_settled:
  "sensor_ok q (cluster s) h p \<Longrightarrow> configureHostLoadSensor q h p s = (None, s)"
  by (auto simp: configureHostLoadSensor_def sensor_ok_def hostconfs_def)

subsection \<open>The whole run\<close>

lemma slots_on_host_effect:
  assumes "lawful_qconf q" "slots_on_host q h opts s = (None, s')"
  shows "touches q {} {(h, slotsName opts)} {} (cluster s) (cluster s') \<and> slots_ok q (cluster s') h opts"
  using assms setExecHostResource_effect [OF assms(1)] clearExecHostResource_effect [OF assms(1)]
  by (simp add: slots_on_host_def slots_ok_def split: if_splits)

lemma slots_on_host_settled:
  "slots_ok q (cluster s) h opts \<Longrightarrow> slots_on_host q h opts s = (None, s)"
  by (simp add: slots_on_host_def slots_ok_def setExecHostResource_settled clearExecHostResource_settled
      split: if_splits)

definition host_ok :: "'c qconf \<Rightarrow> 'c \<Rightarrow> string \<Rightarrow> resourceOptions \<Rightarrow> string \<Rightarrow> bool" where
  "host_ok q c val opts h =
     (value_ok q c h defaultResourceName val \<and>
      (enableSlots opts \<and> slotsScope opts = ''host'' \<longrightarrow> slots_ok q c h opts))"

definition host_values :: "resourceOptions \<Rightarrow> string \<Rightarrow> (string \<times> string) set" where
  "host_values opts h =
     {(h, defaultResourceName)} \<union>
     (if enableSlots opts \<and> slotsScope opts = ''host'' then {(h, slotsName opts)} else {})"

lemma touches_host:
  "touches q C E H c c' \<Longrightarrow> host_values opts h \<inter> E = {} \<Longrightarrow> host_ok q c' val opts h = host_ok q c val opts h"
  by (auto simp: host_ok_def host_values_def touches_value touches_slots)

lemma set_hosts_effect:
  assumes "lawful_qconf q" "enableSlots opts \<longrightarrow> slotsName opts \<noteq> defaultResourceName"
    and "set_hosts q val opts hosts s = (None, s')"
  shows "touches q {} (\<Union>h \<in> set hosts. host_values opts h) {} (cluster s) (cluster s') \<and>
    (\<forall>h \<in> set hosts. host_ok q (cluster s') val opts h)"
  using assms(3)
proof (induction hosts arbitrary: s)
  case (Cons h hosts)
  let ?slots = "enableSlots opts \<and> slotsScope opts = ''host''"
  obtain s1 s2 where 1: "setExecHostResource q h defaultResourceName val s = (None, s1)"
    and 2: "(if ?slots then slots_on_host q h opts s1 else (None, s1)) = (None, s2)"
    and 3: "set_hosts q val opts hosts (print (Out (sprintf ''set %s=%s on exechost %s''
              [S defaultResourceName, S val, S h])) s2) = (None, s')"
    using Cons.prems by (auto simp: and_then_None and_print_None)
  note e1 = setExecHostResource_effect [OF assms(1) 1]
  have e2: "touches q {} (host_values opts h - {(h, defaultResourceName)}) {} (cluster s1) (cluster s2) \<and>
      (?slots \<longrightarrow> slots_ok q (cluster s2) h opts)"
  proof (cases ?slots)
    case True
    then have "host_values opts h - {(h, defaultResourceName)} = {(h, slotsName opts)}"
      using assms(2) by (auto simp: host_values_def)
    then show ?thesis using slots_on_host_effect [OF assms(1), of h opts s1 s2] 2 True by simp
  next
    case False
    then have "s2 = s1" using 2 by auto
    with False show ?thesis by auto
  qed
  have t: "touches q {} (host_values opts h) {} (cluster s) (cluster s2)"
    by (rule touches_trans [OF touches_mono touches_mono]) (use e1 e2 in \<open>auto simp: host_values_def\<close>)
  have ok: "host_ok q (cluster s2) val opts h"
    using e1 e2 touches_value [of q "{}" "host_values opts h - {(h, defaultResourceName)}" "{}" "cluster s1"
        "cluster s2" h defaultResourceName val] by (simp add: host_ok_def)
  note ih = Cons.IH [OF 3, simplified]
  have "host_ok q (cluster s') val opts h"
  proof (cases "h \<in> set hosts")
    case False
    then have "host_values opts h \<inter> (\<Union>h \<in> set hosts. host_values opts h) = {}"
      by (auto simp: host_values_def split: if_splits)
    then show ?thesis using touches_host [OF conjunct1 [OF ih]] ok by simp
  qed (use ih in simp)
  moreover have "touches q {} (\<Union>h \<in> set (h # hosts). host_values opts h) {} (cluster s) (cluster s')"
    by (rule touches_trans [OF touches_mono [OF t] touches_mono [OF conjunct1 [OF ih]]]) auto
  ultimately show ?case using ih by simp
qed simp

lemma set_hosts_settled:
  "\<forall>h \<in> set hosts. host_ok q (cluster s) val opts h \<Longrightarrow>
   \<exists>s'. set_hosts q val opts hosts s = (None, s') \<and> cluster s' = cluster s"
proof (induction hosts arbitrary: s)
  case (Cons h hosts)
  then show ?case
    using Cons.IH [of "print (Out (sprintf ''set %s=%s on exechost %s'' [S defaultResourceName, S val, S h])) s"]
    by (simp add: host_ok_def setExecHostResource_settled slots_on_host_settled)
qed simp

definition slots_global :: "resourceOptions \<Rightarrow> bool" where
  "slots_global opts = (enableSlots opts \<and> slotsScope opts = ''global'')"

definition settled :: "'c qconf \<Rightarrow> string \<Rightarrow> resourceOptions \<Rightarrow> string list \<Rightarrow> 'c \<Rightarrow> bool" where
  "settled q val opts hosts c \<longleftrightarrow>
     entry_ok q c (qpuComplexEntry q) \<and>
     (enableSlots opts \<longrightarrow> entry_ok q c (qpuSlotsComplexEntry q (slotsName opts))) \<and>
     (enableLoadSensor opts \<longrightarrow> entry_ok q c (qpuReadyComplexEntry q (readyName opts)) \<and>
        value_ok q c ''global'' (readyName opts) ''1'' \<and> sensor_ok q c (loadSensorHost opts) (loadSensorPath opts)) \<and>
     (slots_global opts \<longrightarrow> slots_ok q c ''global'' opts) \<and>
     (\<forall>h \<in> set hosts. host_ok q c val opts h)"

definition distinct_names :: "resourceOptions \<Rightarrow> bool" where
  "distinct_names opts =
     ((enableSlots opts \<longrightarrow> slotsName opts \<noteq> defaultResourceName) \<and>
      (enableLoadSensor opts \<longrightarrow> readyName opts \<noteq> defaultResourceName) \<and>
      (enableSlots opts \<and> enableLoadSensor opts \<longrightarrow> slotsName opts \<noteq> readyName opts))"

definition only_if :: "bool \<Rightarrow> 'a \<Rightarrow> 'a set" where
  "only_if b x = (if b then {x} else {})"

lemma in_only_if [simp]: "y \<in> only_if b x \<longleftrightarrow> b \<and> y = x"
  by (simp add: only_if_def)

lemma entry_names [simp]:
  "ce_Name (qpuComplexEntry q) = defaultResourceName"
  "ce_Name (qpuSlotsComplexEntry q n) = n"
  "ce_Name (qpuReadyComplexEntry q n) = n"
  by (simp_all add: qpuComplexEntry_def qpuSlotsComplexEntry_def qpuReadyComplexEntry_def)

lemma ensure_entry_effect:
  "lawful_qconf q \<Longrightarrow> ensure_entry q d s = (None, s') \<Longrightarrow>
   touches q {ce_Name d} {} {} (cluster s) (cluster s') \<and> entry_ok q (cluster s') d"
  using ensureComplexEntry_effect by (fastforce simp: ensure_entry_def split: sum.splits prod.splits)

lemma ensure_entry_settled: "entry_ok q (cluster s) d \<Longrightarrow> ensure_entry q d s = (None, s)"
  by (simp add: ensure_entry_def ensureComplexEntry_settled)

lemma ensure_qpu_print:
  assumes "ensureComplexEntry q (qpuComplexEntry q) s = (Inr b, s1)"
  obtains line where "ensure_qpu q s = (None, print (Out line) s1)"
  using that unfolding ensure_qpu_def assms by simp

lemma ensure_qpu_effect:
  assumes "lawful_qconf q" "ensure_qpu q s = (None, s')"
  shows "touches q {defaultResourceName} {} {} (cluster s) (cluster s') \<and> entry_ok q (cluster s') (qpuComplexEntry q)"
proof -
  obtain r s1 where 1: "ensureComplexEntry q (qpuComplexEntry q) s = (r, s1)" by fastforce
  obtain b where r: "r = Inr b"
    using assms(2) unfolding ensure_qpu_def 1 by (cases r) simp_all
  obtain line where "ensure_qpu q s = (None, print (Out line) s1)"
    using ensure_qpu_print [OF 1 [unfolded r]] .
  then have "cluster s' = cluster s1" using assms(2) by auto
  then show ?thesis using ensureComplexEntry_effect [OF assms(1) 1 [unfolded r]] by simp
qed

lemma ensure_slots_effect:
  assumes "lawful_qconf q" "ensure_slots q opts s = (None, s')"
  shows "touches q (only_if (enableSlots opts) (slotsName opts)) {} {} (cluster s) (cluster s') \<and>
    (enableSlots opts \<longrightarrow> entry_ok q (cluster s') (qpuSlotsComplexEntry q (slotsName opts)))"
proof (cases "enableSlots opts")
  case True
  then obtain s1 where "ensure_entry q (qpuSlotsComplexEntry q (slotsName opts)) s = (None, s1)" "cluster s' = cluster s1"
    using assms(2) by (auto simp: ensure_slots_def and_print_None)
  then show ?thesis using ensure_entry_effect [OF assms(1)] True by (fastforce simp: only_if_def)
qed (use assms in \<open>auto simp: ensure_slots_def\<close>)

lemma ensure_sensor_effect:
  assumes "lawful_qconf q" "ensure_sensor q opts s = (None, s')"
  shows "touches q (only_if (enableLoadSensor opts) (readyName opts))
      (only_if (enableLoadSensor opts) (''global'', readyName opts))
      (only_if (enableLoadSensor opts) (loadSensorHost opts)) (cluster s) (cluster s') \<and>
    (enableLoadSensor opts \<longrightarrow> entry_ok q (cluster s') (qpuReadyComplexEntry q (readyName opts)) \<and>
       value_ok q (cluster s') ''global'' (readyName opts) ''1'' \<and>
       sensor_ok q (cluster s') (loadSensorHost opts) (loadSensorPath opts))"
proof (cases "enableLoadSensor opts")
  case True
  then obtain s1 s2 s3 where 1: "ensure_entry q (qpuReadyComplexEntry q (readyName opts)) s = (None, s1)"
    and 2: "setExecHostResource q ''global'' (readyName opts) ''1'' s1 = (None, s2)"
    and 3: "configureHostLoadSensor q (loadSensorHost opts) (loadSensorPath opts) s2 = (None, s3)"
    and s': "cluster s' = cluster s3"
    using assms(2) by (auto simp: ensure_sensor_def and_print_None and_then_None)
  note e1 = ensure_entry_effect [OF assms(1) 1]
  note e2 = setExecHostResource_effect [OF assms(1) 2]
  note e3 = configureHostLoadSensor_effect [OF assms(1) 3]
  let ?d = "qpuReadyComplexEntry q (readyName opts)"
  have t: "touches q {readyName opts} {(''global'', readyName opts)} {loadSensorHost opts} (cluster s) (cluster s3)"
    by (rule touches_trans [OF touches_trans [OF touches_mono touches_mono] touches_mono])
      (use e1 e2 e3 in auto)
  have "entry_ok q (cluster s2) ?d"
    using touches_entry [OF conjunct1 [OF e2], of ?d] e1 by simp
  then have "entry_ok q (cluster s3) ?d"
    using touches_entry [OF conjunct1 [OF e3], of ?d] by simp
  moreover have "value_ok q (cluster s3) ''global'' (readyName opts) ''1''"
    using touches_value [OF conjunct1 [OF e3], of "''global''" "readyName opts" "''1''"] e2 by simp
  ultimately show ?thesis using True t e3 s' by (simp add: only_if_def)
qed (use assms in \<open>auto simp: ensure_sensor_def\<close>)

lemma ensure_sensor_adds:
  assumes "lawful_qconf q" "ensure_sensor q opts s = (None, s')" "enableLoadSensor opts"
  shows "sensor_added q (loadSensorHost opts) (loadSensorPath opts) (cluster s) (cluster s')"
proof -
  obtain s1 s2 s3 where 1: "ensure_entry q (qpuReadyComplexEntry q (readyName opts)) s = (None, s1)"
    and 2: "setExecHostResource q ''global'' (readyName opts) ''1'' s1 = (None, s2)"
    and 3: "configureHostLoadSensor q (loadSensorHost opts) (loadSensorPath opts) s2 = (None, s3)"
    and s': "cluster s' = cluster s3"
    using assms(2,3) by (auto simp: ensure_sensor_def and_print_None and_then_None)
  have "hostconfs q (cluster s) (loadSensorHost opts) = hostconfs q (cluster s2) (loadSensorHost opts)"
    using ensure_entry_effect [OF assms(1) 1] setExecHostResource_effect [OF assms(1) 2] by (simp add: touches_def)
  then show ?thesis using sensor_added_same [OF configureHostLoadSensor_adds [OF assms(1) 3]] s' by simp
qed

lemma ensure_global_slots_effect:
  assumes "lawful_qconf q" "ensure_global_slots q opts s = (None, s')"
  shows "touches q {} (only_if (slots_global opts) (''global'', slotsName opts)) {} (cluster s) (cluster s') \<and>
    (slots_global opts \<longrightarrow> slots_ok q (cluster s') ''global'' opts)"
  using slots_on_host_effect [OF assms(1), of "''global''" opts s s'] assms(2)
  by (auto simp: ensure_global_slots_def slots_global_def only_if_def split: if_splits)

definition touched_entries :: "resourceOptions \<Rightarrow> string set" where
  "touched_entries opts = {defaultResourceName} \<union> only_if (enableSlots opts) (slotsName opts) \<union>
     only_if (enableLoadSensor opts) (readyName opts)"

definition touched_values :: "resourceOptions \<Rightarrow> string list \<Rightarrow> (string \<times> string) set" where
  "touched_values opts hosts = (\<Union>h \<in> set hosts. host_values opts h) \<union>
     only_if (enableLoadSensor opts) (''global'', readyName opts) \<union>
     only_if (slots_global opts) (''global'', slotsName opts)"

definition touched_sensors :: "resourceOptions \<Rightarrow> string set" where
  "touched_sensors opts = only_if (enableLoadSensor opts) (loadSensorHost opts)"

lemma not_host_values:
  "distinct_names opts \<Longrightarrow> enableLoadSensor opts \<Longrightarrow> (h, readyName opts) \<notin> host_values opts h'"
  "distinct_names opts \<Longrightarrow> slots_global opts \<Longrightarrow> (h, slotsName opts) \<notin> host_values opts h'"
  by (auto simp: distinct_names_def host_values_def slots_global_def)

lemma ensure_steps:
  assumes "ensureResourceDefault q hosts val opts s = (None, s')"
  obtains s1 s2 s3 s4 s5 where "ensure_qpu q s = (None, s1)" "ensure_slots q opts s1 = (None, s2)"
    "ensure_sensor q opts s2 = (None, s3)" "ensure_global_slots q opts s3 = (None, s4)"
    "set_hosts q val opts hosts s4 = (None, s5)" "cluster s' = cluster s5"
proof (cases "hosts = []")
  case True
  then show ?thesis using assms that
    by (auto simp: ensureResourceDefault_def and_then_None)
next
  case False
  then show ?thesis using assms that
    by (auto simp: ensureResourceDefault_def and_then_None)
qed

lemma ensure_adds:
  assumes "lawful_qconf q" "distinct_names opts" "ensureResourceDefault q hosts val opts s = (None, s')" "enableLoadSensor opts"
  shows "sensor_added q (loadSensorHost opts) (loadSensorPath opts) (cluster s) (cluster s')"
proof -
  obtain s1 s2 s3 s4 s5 where run: "ensure_qpu q s = (None, s1)" "ensure_slots q opts s1 = (None, s2)"
    "ensure_sensor q opts s2 = (None, s3)" "ensure_global_slots q opts s3 = (None, s4)"
    "set_hosts q val opts hosts s4 = (None, s5)" and s': "cluster s' = cluster s5"
    using ensure_steps [OF assms(3)] .
  have d: "enableSlots opts \<longrightarrow> slotsName opts \<noteq> defaultResourceName" using assms(2) by (simp add: distinct_names_def)
  have "hostconfs q (cluster s) h = hostconfs q (cluster s2) h" for h
    using ensure_qpu_effect [OF assms(1) run(1)] ensure_slots_effect [OF assms(1) run(2)] by (simp add: touches_def)
  moreover have "hostconfs q (cluster s') h = hostconfs q (cluster s3) h" for h
    using ensure_global_slots_effect [OF assms(1) run(4)] set_hosts_effect [OF assms(1) d run(5)] s'
    by (simp add: touches_def)
  ultimately show ?thesis using sensor_added_same [OF ensure_sensor_adds [OF assms(1) run(3) assms(4)]] by blast
qed

lemma ensure_effect:
  assumes "lawful_qconf q" "distinct_names opts" "ensureResourceDefault q hosts val opts s = (None, s')"
  shows "settled q val opts hosts (cluster s') \<and>
    touches q (touched_entries opts) (touched_values opts hosts) (touched_sensors opts) (cluster s) (cluster s')"
proof -
  obtain s1 s2 s3 s4 s5 where run: "ensure_qpu q s = (None, s1)" "ensure_slots q opts s1 = (None, s2)"
    "ensure_sensor q opts s2 = (None, s3)" "ensure_global_slots q opts s3 = (None, s4)"
    "set_hosts q val opts hosts s4 = (None, s5)" and s': "cluster s' = cluster s5"
    using ensure_steps [OF assms(3)] .
  let ?L = "enableLoadSensor opts" and ?S = "enableSlots opts"
  let ?qpu = "qpuComplexEntry q" and ?slots = "qpuSlotsComplexEntry q (slotsName opts)"
  have d: "?S \<longrightarrow> slotsName opts \<noteq> defaultResourceName" using assms(2) by (simp add: distinct_names_def)
  note e1 = ensure_qpu_effect [OF assms(1) run(1)]
  note e2 = ensure_slots_effect [OF assms(1) run(2)]
  note e3 = ensure_sensor_effect [OF assms(1) run(3)]
  note e4 = ensure_global_slots_effect [OF assms(1) run(4)]
  note e5 = set_hosts_effect [OF assms(1) d run(5)]
  note t2 = conjunct1 [OF e2] and t3 = conjunct1 [OF e3] and t4 = conjunct1 [OF e4] and t5 = conjunct1 [OF e5]
  have "touches q (touched_entries opts) (touched_values opts hosts) (touched_sensors opts) (cluster s) (cluster s5)"
    by (rule touches_trans [OF touches_trans [OF touches_trans [OF touches_trans [OF touches_mono touches_mono]
          touches_mono] touches_mono] touches_mono [OF t5]])
      (use e1 t2 t3 t4 in \<open>auto simp: touched_entries_def touched_values_def touched_sensors_def\<close>)
  moreover have "entry_ok q (cluster s5) ?qpu"
  proof -
    have "entry_ok q (cluster s2) ?qpu" using touches_entry [OF t2, of ?qpu] e1 d by auto
    then have "entry_ok q (cluster s3) ?qpu"
      using touches_entry [OF t3, of ?qpu] assms(2) by (auto simp: distinct_names_def)
    then show ?thesis using touches_entry [OF t4, of ?qpu] touches_entry [OF t5, of ?qpu] by simp
  qed
  moreover have "entry_ok q (cluster s5) ?slots" if ?S
  proof -
    have "entry_ok q (cluster s3) ?slots"
      using touches_entry [OF t3, of ?slots] e2 that assms(2) by (auto simp: distinct_names_def)
    then show ?thesis using touches_entry [OF t4, of ?slots] touches_entry [OF t5, of ?slots] by simp
  qed
  moreover have "entry_ok q (cluster s5) (qpuReadyComplexEntry q (readyName opts))" if ?L
    using touches_entry [OF t4] touches_entry [OF t5] e3 that by simp
  moreover have "value_ok q (cluster s5) ''global'' (readyName opts) ''1''" if ?L
    using touches_value [OF t4, of "''global''" "readyName opts" "''1''"]
      touches_value [OF t5, of "''global''" "readyName opts" "''1''"] not_host_values(1) [OF assms(2) that]
      e3 that assms(2) by (auto simp: distinct_names_def slots_global_def)
  moreover have "sensor_ok q (cluster s5) (loadSensorHost opts) (loadSensorPath opts)" if ?L
    using touches_sensor [OF t4] touches_sensor [OF t5] e3 that by simp
  moreover have "slots_ok q (cluster s5) ''global'' opts" if "slots_global opts"
    using touches_slots [OF t5, of "''global''" opts] not_host_values(2) [OF assms(2) that] e4 that by simp
  ultimately show ?thesis using e5 unfolding settled_def s' by simp
qed

lemma ensure_settled:
  assumes "settled q val opts hosts (cluster s)"
  shows "\<exists>s'. ensureResourceDefault q hosts val opts s = (None, s') \<and> cluster s' = cluster s"
proof -
  have 1: "\<exists>s'. ensure_qpu q s = (None, s') \<and> cluster s' = cluster s"
    using ensureComplexEntry_settled [of q s "qpuComplexEntry q"] assms ensure_qpu_print
    by (metis settled_def cluster_print)
  have 2: "\<exists>s'. ensure_slots q opts t = (None, s') \<and> cluster s' = cluster t" if "cluster t = cluster s" for t
    using assms that by (simp add: ensure_slots_def settled_def ensure_entry_settled)
  have 3: "\<exists>s'. ensure_sensor q opts t = (None, s') \<and> cluster s' = cluster t" if "cluster t = cluster s" for t
    using assms that by (simp add: ensure_sensor_def settled_def ensure_entry_settled setExecHostResource_settled
        configureHostLoadSensor_settled)
  have 4: "\<exists>s'. ensure_global_slots q opts t = (None, s') \<and> cluster s' = cluster t" if "cluster t = cluster s" for t
    using assms that by (simp add: ensure_global_slots_def settled_def slots_global_def slots_on_host_settled)
  have 5: "\<exists>s'. set_hosts q val opts hosts t = (None, s') \<and> cluster s' = cluster t" if "cluster t = cluster s" for t
    using assms that set_hosts_settled [of hosts q t val opts] by (simp add: settled_def)
  obtain s1 where 1: "ensure_qpu q s = (None, s1)" "cluster s1 = cluster s" using 1 by blast
  obtain s2 where 2: "ensure_slots q opts s1 = (None, s2)" "cluster s2 = cluster s" using 2 1 by metis
  obtain s3 where 3: "ensure_sensor q opts s2 = (None, s3)" "cluster s3 = cluster s" using 3 2 by metis
  obtain s4 where 4: "ensure_global_slots q opts s3 = (None, s4)" "cluster s4 = cluster s" using 4 3 by metis
  obtain s5 where "set_hosts q val opts hosts s4 = (None, s5)" "cluster s5 = cluster s" using 5 4 by metis
  with 1 2 3 4 show ?thesis by (simp add: ensureResourceDefault_def)
qed

subsection \<open>Properties\<close>

text \<open>A run on a stored cluster, for the examples.\<close>

definition sample_resource_options :: resourceOptions where
  "sample_resource_options =
     \<lparr>enableSlots = True, slotsName = ''qpu_slots'', slotsCapacity = 3, slotsScope = ''host'',
      enableLoadSensor = True, readyName = ''qpu_ready'', loadSensorHost = ''n1'', loadSensorPath = ''/opt/sensor''\<rparr>"

lemma sample_names: "distinct_names sample_resource_options"
  by (simp add: distinct_names_def sample_resource_options_def defaultResourceName_def)

lemma sample_run:
  obtains s' where "ensureResourceDefault store_qconf [''n1''] ''EMU'' sample_resource_options sample_session = (None, s')"
proof -
  have "fst (ensureResourceDefault store_qconf [''n1''] ''EMU'' sample_resource_options sample_session) = None"
    by code_simp
  then show thesis using that by (metis prod.collapse)
qed

text \<open>What a cluster shows when the resources are there, in the words of the scheduler's documentation.\<close>

definition shows_entry ::
  "'c qconf \<Rightarrow> 'c \<Rightarrow> string \<Rightarrow> string \<Rightarrow> string \<Rightarrow> string \<Rightarrow> string \<Rightarrow> i64 \<Rightarrow> bool" where
  "shows_entry q c n ty relop consumable dflt urgency =
     (\<exists>e. complexes q c n = Inr e \<and> ce_Shortcut e = n \<and> ce_Type e = ty \<and> ce_Relop e = relop \<and>
        equal_fold (ce_Requestable e) ''YES'' \<and> equal_fold (ce_Consumable e) consumable \<and>
        ce_Default e = dflt \<and> ce_Urgency e = urgency)"

definition shows_capacity :: "'c qconf \<Rightarrow> 'c \<Rightarrow> string \<Rightarrow> resourceOptions \<Rightarrow> bool" where
  "shows_capacity q c h opts =
     (val_at q c h (slotsName opts) =
        Inr (if 0 < sint (slotsCapacity opts) then Some (show_int (sint (slotsCapacity opts))) else None))"

definition offers_qpu :: "'c qconf \<Rightarrow> string \<Rightarrow> resourceOptions \<Rightarrow> string list \<Rightarrow> 'c \<Rightarrow> bool" where
  "offers_qpu q val opts hosts c \<longleftrightarrow>
     shows_entry q c ''qpu'' (ResourceTypeString q) ''=='' (ConsumableNO q) ''NONE'' 1000 \<and>
     (\<forall>h \<in> set hosts. val_at q c h ''qpu'' = Inr (Some val) \<or> val = [] \<and> val_at q c h ''qpu'' = Inr None) \<and>
     (enableSlots opts \<longrightarrow>
        shows_entry q c (slotsName opts) (ResourceTypeInt q) ''<='' (ConsumableJOB q) ''0'' 0 \<and>
        (slotsScope opts = ''global'' \<longrightarrow> shows_capacity q c ''global'' opts) \<and>
        (slotsScope opts = ''host'' \<longrightarrow> (\<forall>h \<in> set hosts. shows_capacity q c h opts))) \<and>
     (enableLoadSensor opts \<longrightarrow>
        shows_entry q c (readyName opts) (ResourceTypeInt q) ''<='' (ConsumableNO q) ''0'' 0 \<and>
        val_at q c ''global'' (readyName opts) = Inr (Some ''1''))"

text \<open>The three names of complex entries, and where the command may write a value of theirs.\<close>

definition resource_names :: "resourceOptions \<Rightarrow> string set" where
  "resource_names opts = {n. n = ''qpu'' \<or> enableSlots opts \<and> n = slotsName opts \<or> enableLoadSensor opts \<and> n = readyName opts}"

definition resource_values :: "resourceOptions \<Rightarrow> string list \<Rightarrow> (string \<times> string) set" where
  "resource_values opts hosts =
     {(h, n). h \<in> set hosts \<and> n = ''qpu'' \<or>
        enableSlots opts \<and> n = slotsName opts \<and>
          (slotsScope opts = ''host'' \<and> h \<in> set hosts \<or> slotsScope opts = ''global'' \<and> h = ''global'') \<or>
        enableLoadSensor opts \<and> h = ''global'' \<and> n = readyName opts}"

definition sensor_hosts :: "resourceOptions \<Rightarrow> string set" where
  "sensor_hosts opts = {h. enableLoadSensor opts \<and> h = loadSensorHost opts}"

lemma entry_ok_shows:
  "entry_ok q c (qpuComplexEntry q) \<Longrightarrow> shows_entry q c ''qpu'' (ResourceTypeString q) ''=='' (ConsumableNO q) ''NONE'' 1000"
  "entry_ok q c (qpuSlotsComplexEntry q n) \<Longrightarrow> shows_entry q c n (ResourceTypeInt q) ''<='' (ConsumableJOB q) ''0'' 0"
  "entry_ok q c (qpuReadyComplexEntry q n) \<Longrightarrow> shows_entry q c n (ResourceTypeInt q) ''<='' (ConsumableNO q) ''0'' 0"
  by (auto simp: entry_ok_def shows_entry_def complexEntryMatches_def qpuComplexEntry_def qpuSlotsComplexEntry_def
      qpuReadyComplexEntry_def defaultResourceName_def)

lemma slots_ok_shows: "slots_ok q c h opts \<Longrightarrow> shows_capacity q c h opts"
  using itoa_not_Nil [of "slotsCapacity opts"]
  by (auto simp: slots_ok_def shows_capacity_def value_ok_def itoa_def split: if_splits)

lemma settled_offers: "settled q val opts hosts c \<Longrightarrow> offers_qpu q val opts hosts c"
  by (auto simp: settled_def offers_qpu_def host_ok_def value_ok_def slots_global_def defaultResourceName_def
      intro: entry_ok_shows slots_ok_shows)

lemma touched_names:
  "touched_entries opts = resource_names opts" "touched_values opts hosts = resource_values opts hosts"
  "touched_sensors opts = sensor_hosts opts"
  by (auto simp: touched_entries_def resource_names_def touched_values_def resource_values_def host_values_def
      slots_global_def touched_sensors_def sensor_hosts_def defaultResourceName_def split: if_splits)

text \<open>
  C17. What \<open>ensure-resource\<close> does to the cluster. With a client that shows what was last written
  and changes nothing else, and with different names for the three resources, a run that reports
  success leaves: the entry \<open>qpu\<close>, a requestable string compared with \<open>==\<close>, not consumable, and its
  value on every host; with slots, their entry, consumable per job, and the capacity or no value on
  the hosts or on \<open>global\<close>; with a load sensor, the readiness entry, 1 on \<open>global\<close>, and on the
  sensor's host the path once, after all other sensors, which stay. It changes no other complex
  entry, no other value or attribute of any host, no other host's configuration, no other
  attribute of the sensor's host, and nothing in an existing entry that it does not set.
\<close>

theorem ensure_resource_effect:
  assumes "lawful_qconf q" "distinct_names opts" "ensureResourceDefault q hosts val opts s = (None, s')"
  shows "offers_qpu q val opts hosts (cluster s') \<and>
    (enableLoadSensor opts \<longrightarrow> sensor_added q (loadSensorHost opts) (loadSensorPath opts) (cluster s) (cluster s')) \<and>
    touches q (resource_names opts) (resource_values opts hosts) (sensor_hosts opts) (cluster s) (cluster s')"
  using ensure_effect [OF assms] ensure_adds [OF assms] by (simp add: touched_names settled_offers)

theorem ensure_resource_effect_witness:
  "\<exists>s' y. ensureResourceDefault store_qconf [''n1''] ''EMU'' sample_resource_options sample_session = (None, s') \<and>
     val_at store_qconf (cluster s') ''n1'' ''qpu'' = Inr (Some ''EMU'') \<and>
     val_at store_qconf (cluster s') ''n1'' ''slots'' = Inr (Some ''20'') \<and>
     hostconfs store_qconf (cluster s') ''n1'' = Inr y \<and> hc_LoadSensors y = [''/opt/sensor''] \<and>
     hc_ExecdSpoolDir y = Some ''/spool/n1''"
proof -
  obtain s' where r: "ensureResourceDefault store_qconf [''n1''] ''EMU'' sample_resource_options sample_session = (None, s')"
    using sample_run .
  note e = ensure_resource_effect [OF lawful_store sample_names r]
  have "val_at store_qconf (cluster s') ''n1'' ''qpu'' = Inr (Some ''EMU'')"
    using e by (simp add: offers_qpu_def)
  moreover have "val_at store_qconf (cluster sample_session) ''n1'' ''slots'' = Inr (Some ''20'')"
    by (simp add: val_at_def execs_def store_qconf_def sample_session_def sample_store_def stored_def)
  moreover have "(''n1'', ''slots'') \<notin> resource_values sample_resource_options [''n1'']"
    by (simp add: resource_values_def sample_resource_options_def)
  moreover have "hostconfs store_qconf (cluster sample_session) ''n1'' =
      Inr \<lparr>hc_Name = ''n1'', hc_LoadSensors = [''none''], hc_ExecdSpoolDir = Some ''/spool/n1'', hc_others = []\<rparr>"
    by (simp add: hostconfs_def store_qconf_def sample_session_def sample_store_def stored_def)
  moreover have "equal_fold ''none'' ''NONE''" by code_simp
  ultimately show ?thesis using e r by (auto simp: touches_def sensor_added_def sample_resource_options_def)
qed

text \<open>
  C18. \<open>ensure-resource\<close> is idempotent: after a successful run a second run with the same options
  succeeds and leaves the cluster exactly as it is.
\<close>

theorem ensure_resource_idempotent:
  assumes "lawful_qconf q" "distinct_names opts" "ensureResourceDefault q hosts val opts s = (None, s')"
  shows "\<exists>s''. ensureResourceDefault q hosts val opts s' = (None, s'') \<and> cluster s'' = cluster s'"
  using ensure_settled ensure_effect [OF assms] by blast

theorem ensure_resource_idempotent_witness:
  "\<exists>s' s''. ensureResourceDefault store_qconf [''n1''] ''EMU'' sample_resource_options sample_session = (None, s') \<and>
     ensureResourceDefault store_qconf [''n1''] ''EMU'' sample_resource_options s' = (None, s'') \<and> cluster s'' = cluster s'"
  using ensure_resource_idempotent [OF lawful_store sample_names] sample_run by metis

end
