(* ===== verification/Hook_Contract.thy ===== *)
theory Hook_Contract
  imports Adapter_Hooks Launcher Prolog Epilog
begin

text \<open>
  The contract between the adapter and the programs that the scheduler starts: what the adapter
  renders into a queue is what the launcher, the prolog and the epilog read.
\<close>

definition settings_for :: "shell \<Rightarrow> string list \<Rightarrow> LaunchSettings" where
  "settings_for sh roots =
     \<lparr>SGERoot = Clean (env_var sh ''SGE_ROOT''),
      SGECell = (if env_var sh ''SGE_CELL'' = [] then ''default'' else env_var sh ''SGE_CELL''),
      SpoolRoots = roots, QmasterPort = env_var sh ''SGE_QMASTER_PORT'', ExecdPort = env_var sh ''SGE_EXECD_PORT''\<rparr>"

lemma launcherSettings_render:
  "launcherSettings sh q c = Inr args \<Longrightarrow>
   \<exists>roots. spoolRoots q c = Inr roots \<and> args = render_options (settings_for sh roots)"
  by (auto simp: launcherSettings_def render_options_def settings_for_def port_arg_def option_arg_def Let_def
      split: if_splits sum.splits)

text \<open>A word of a command: not empty and without white space.\<close>

definition plain_word :: "string \<Rightarrow> bool" where
  "plain_word a = (a \<noteq> [] \<and> \<not> contains_any a [SP, TAB, CR, LF])"

lemma plain_word_SP: "plain_word a \<Longrightarrow> SP \<notin> set a"
  by (auto simp: plain_word_def contains_any_iff)

lemma add_args_words:
  "add_args cmd args = Inr out \<Longrightarrow> list_all plain_word args \<and> out = cmd @ concat (map (\<lambda>a. SP # a) args)"
  by (induction args arbitrary: cmd) (fastforce simp: plain_word_def split: if_splits)+

lemma split_words:
  "SP \<notin> set cmd \<Longrightarrow> list_all plain_word args \<Longrightarrow>
   split SP (cmd @ concat (map (\<lambda>a. SP # a) args)) = cmd # args"
proof (induction args arbitrary: cmd)
  case (Cons a args)
  then have "split SP (a @ concat (map (\<lambda>a. SP # a) args)) = a # args" by (simp add: plain_word_SP)
  with Cons.prems show ?case by (simp add: split_append_sep split_no_sep)
qed (simp add: split_no_sep)

lemma hook_command_words:
  assumes "qrmiQueueHookCommand hook launch user largs args = Inr cmd" "trim_space hook \<noteq> ''NONE''"
  shows "split SP cmd = (user @ CHR 0x40 # launch) # largs @ trim_space hook # args @ [''$job_owner''] \<and>
    is_abs (trim_space hook) \<and> is_abs launch \<and> CHR 0x40 \<notin> set user \<and> user \<noteq> []"
proof -
  have ok: "\<not> bad_hook_path (trim_space hook)" "\<not> bad_hook_path launch"
    "user \<noteq> []" "\<not> contains_any user [CHR 0x40, SP, TAB, CR, LF, CHR 0x24]"
    using assms by (auto simp: qrmiQueueHookCommand_def Let_def split: if_splits)
  then obtain body where b: "add_args (user @ CHR 0x40 # launch) (largs @ trim_space hook # args) = Inr body"
    and c: "cmd = body @ '' $job_owner''"
    using assms by (auto simp: qrmiQueueHookCommand_def Let_def split: if_splits sum.splits)
  let ?words = "(largs @ trim_space hook # args) @ [''$job_owner'']"
  have w: "list_all plain_word ?words"
    and "cmd = (user @ CHR 0x40 # launch) @ concat (map (\<lambda>a. SP # a) ?words)"
    using add_args_words [OF b] c by (auto simp: plain_word_def contains_any_iff)
  moreover have "SP \<notin> set (user @ CHR 0x40 # launch)"
    using ok by (auto simp: bad_hook_path_def contains_any_iff)
  ultimately have "split SP cmd = (user @ CHR 0x40 # launch) # ?words" using split_words by metis
  with ok show ?thesis by (auto simp: bad_hook_path_def contains_any_iff)
qed

lemma options_ok:
  assumes "queueHookOptionsFromFlags sh flags = Inr opts" "\<And>wd. work_dir sh = Inr wd \<Longrightarrow> is_abs wd"
  shows "configPath opts \<noteq> [] \<and> resourceName opts \<noteq> [] \<and> is_abs (qstatPath opts)"
proof -
  have j: "is_abs (path_join [wd, p])" if "is_abs wd" for wd p
  proof -
    from that obtain t where "wd = SLASH # t" by (auto simp: is_abs_def prefix_def)
    then have "is_abs (join SLASH [wd, p])" by (simp add: is_abs_def)
    with \<open>wd = SLASH # t\<close> show ?thesis unfolding path_join_def by (simp add: is_abs_Clean del: join.simps)
  qed
  have a: "is_abs p" if "file_abs sh found = Inr p" for found p
    using that j assms(2) by (auto simp: file_abs_def is_abs_Clean split: if_splits sum.splits)
  from assms(1) show ?thesis
    by (auto simp: queueHookOptionsFromFlags_def Let_def split: if_splits sum.splits intro: a)
qed


lemma common_args_flags:
  "common_args opts = flag_arg ''config'' (configPath opts) #
     (if logLevel opts = [] then [] else [flag_arg ''log-level'' (logLevel opts)])"
  by (simp add: common_args_def flag_arg_def)

lemma prolog_args_flags:
  "prolog_args opts = common_args opts @ [flag_arg ''resource'' (resourceName opts),
     flag_arg ''slots-resource'' (slotsResourceName opts), flag_arg ''qstat'' (qstatPath opts)]"
  by (simp add: prolog_args_def flag_arg_def)

definition owner_word :: "string \<Rightarrow> bool" where
  "owner_word w = (w = [] \<or> hd w \<noteq> DASH)"

lemma parse_epilog_args:
  assumes "owner_word w"
  shows "Epilog.parseHookArgs (common_args opts @ [w]) =
    Inr \<lparr>Epilog.hookConfig.ConfigPath = configPath opts, Epilog.hookConfig.LogLevel = logLevel opts,
         Epilog.hookConfig.JobOwner = w\<rparr>"
proof -
  have stop: "parse_flags names [w] m = Inr (m, [w])" for names m
    using assms by (intro parse_flags_stop) (auto simp: owner_word_def)
  show ?thesis
    by (simp add: Epilog.parseHookArgs_def common_args_flags parse_flag_arg stop flag_value_def
        del: parse_flags.simps)
qed

lemma parse_prolog_args:
  assumes "owner_word w" "configPath opts \<noteq> []" "resourceName opts \<noteq> []" "is_abs (qstatPath opts)"
  shows "Prolog.parseHookArgs (prolog_args opts @ [w]) =
    Inr (\<lparr>Prolog.hookConfig.ConfigPath = configPath opts, Prolog.hookConfig.ResourceName = resourceName opts,
          Prolog.hookConfig.SlotsResourceName = slotsResourceName opts,
          Prolog.hookConfig.QstatPath = qstatPath opts, Prolog.hookConfig.LogLevel = logLevel opts\<rparr>, w)"
proof -
  have stop: "parse_flags names [w] m = Inr (m, [w])" for names m
    using assms(1) by (intro parse_flags_stop) (auto simp: owner_word_def)
  show ?thesis using assms(2-4)
    by (simp add: Prolog.parseHookArgs_def prolog_args_flags common_args_flags parse_flag_arg stop flag_value_def
        hook_flags_def defaultHookConfig_def Let_def del: parse_flags.simps)
qed


text \<open>The words of a command line, the job's owner in the place the scheduler puts it.\<close>

definition command_words :: "queueHookOptions \<Rightarrow> string \<Rightarrow> LaunchSettings \<Rightarrow> string \<Rightarrow> string list \<Rightarrow> string list" where
  "command_words opts launch settings hook args =
     (hookUser opts @ CHR 0x40 # launch) # render_options settings @ hook # args @ [''$job_owner'']"

lemma hook_commands_words:
  assumes "hook_commands sh q c prolog epilog opts = Inr (p, e)"
  obtains roots where "spoolRoots q c = Inr roots"
    "trim_space prolog \<noteq> ''NONE'' \<Longrightarrow> is_abs (trim_space prolog) \<and> split SP p =
       command_words opts (launcher_path opts prolog) (settings_for sh roots) (trim_space prolog) (prolog_args opts)"
    "trim_space epilog \<noteq> ''NONE'' \<Longrightarrow> is_abs (trim_space epilog) \<and> split SP e =
       command_words opts (launcher_path opts prolog) (settings_for sh roots) (trim_space epilog) (common_args opts)"
proof -
  obtain largs where l: "launcherSettings sh q c = Inr largs"
    and p: "qrmiQueueHookCommand prolog (launcher_path opts prolog) (hookUser opts) largs (prolog_args opts) = Inr p"
    and e: "qrmiQueueHookCommand epilog (launcher_path opts prolog) (hookUser opts) largs (common_args opts) = Inr e"
    using assms by (auto simp: hook_commands_def split: sum.splits)
  obtain roots where r: "spoolRoots q c = Inr roots" "largs = render_options (settings_for sh roots)"
    using launcherSettings_render [OF l] by blast
  show thesis
    using that [OF r(1)] hook_command_words [OF p] hook_command_words [OF e] r(2)
    by (simp add: command_words_def)
qed

lemma abs_no_option: "is_abs hook \<Longrightarrow> \<not> prefix ''--'' hook"
  by (auto simp: is_abs_def prefix_def)

text \<open>
  C6. The hook commands are read back. When the adapter has written the commands of both hooks into a
  queue, then, split at the blanks, each is the hook user and the launcher, the launcher's
  options, the hook, its options and the place of the job's owner. With any owner there
  that does not start with a dash, the launcher reads exactly the cluster's settings and starts
  the hook with the rest, the prolog reads exactly the adapter's options and the owner, and the
  epilog the options it needs and the owner.
\<close>

theorem hook_commands_read_back:
  assumes "queueHookOptionsFromFlags sh flags = Inr opts" "\<forall>wd. work_dir sh = Inr wd \<longrightarrow> is_abs wd"
    and "trim_space prolog \<noteq> ''NONE''" "trim_space epilog \<noteq> ''NONE''" "owner_word w"
    and "configureQueueHookPaths sh q queue prolog epilog opts s = (None, s')"
  shows "\<exists>p e cfg roots pcfg. spoolRoots q (cluster s) = Inr roots \<and>
    ShowClusterQueue q queue (cluster s) = Inr cfg \<and>
    ModifyClusterQueue q queue (cfg\<lparr>cq_Name := queue, cq_Prolog := [p], cq_Epilog := [e]\<rparr>) (cluster s) =
      (None, cluster s') \<and>
    split SP p = command_words opts (launcher_path opts prolog) (settings_for sh roots) (trim_space prolog) (prolog_args opts) \<and>
    split SP e = command_words opts (launcher_path opts prolog) (settings_for sh roots) (trim_space epilog) (common_args opts) \<and>
    (\<forall>hook args. hook \<in> {trim_space prolog, trim_space epilog} \<longrightarrow>
       parse_options (render_options (settings_for sh roots) @ hook # args) no_settings =
         Inr (settings_for sh roots, hook # args)) \<and>
    Prolog.parseHookArgs (prolog_args opts @ [w]) = Inr (pcfg, w) \<and>
    Prolog.hookConfig.ConfigPath pcfg = configPath opts \<and> Prolog.hookConfig.ResourceName pcfg = resourceName opts \<and>
    Prolog.hookConfig.SlotsResourceName pcfg = slotsResourceName opts \<and>
    Prolog.hookConfig.QstatPath pcfg = qstatPath opts \<and> Prolog.hookConfig.LogLevel pcfg = logLevel opts \<and>
    Epilog.parseHookArgs (common_args opts @ [w]) =
      Inr \<lparr>Epilog.hookConfig.ConfigPath = configPath opts, Epilog.hookConfig.LogLevel = logLevel opts,
           Epilog.hookConfig.JobOwner = w\<rparr>"
proof -
  obtain p e cfg where c: "hook_commands sh q (cluster s) prolog epilog opts = Inr (p, e)"
      "ShowClusterQueue q queue (cluster s) = Inr cfg"
      "ModifyClusterQueue q queue (cfg\<lparr>cq_Name := queue, cq_Prolog := [p], cq_Epilog := [e]\<rparr>) (cluster s) =
        (None, cluster s')"
    using assms(6) by (auto simp: configureQueueHookPaths_def act_def split: sum.splits prod.splits option.splits)
  obtain roots where r: "spoolRoots q (cluster s) = Inr roots"
      "is_abs (trim_space prolog) \<and> split SP p =
         command_words opts (launcher_path opts prolog) (settings_for sh roots) (trim_space prolog) (prolog_args opts)"
      "is_abs (trim_space epilog) \<and> split SP e =
         command_words opts (launcher_path opts prolog) (settings_for sh roots) (trim_space epilog) (common_args opts)"
    using hook_commands_words [OF c(1)] assms(3,4) by blast
  have launch: "parse_options (render_options (settings_for sh roots) @ hook # args) no_settings =
      Inr (settings_for sh roots, hook # args)" if "hook \<in> {trim_space prolog, trim_space epilog}" for hook args
    using that r(2,3) by (intro parse_rendered) (auto dest: abs_no_option)
  have opts: "configPath opts \<noteq> [] \<and> resourceName opts \<noteq> [] \<and> is_abs (qstatPath opts)"
    using options_ok assms(1,2) by blast
  show ?thesis
    using c r launch parse_prolog_args [OF assms(5), of opts] parse_epilog_args [OF assms(5), of opts] opts
    by (intro exI [of _ p] exI [of _ e] exI [of _ cfg] exI [of _ roots] exI conjI) auto
qed

definition sample_shell :: shell where
  "sample_shell =
     \<lparr>env_var = (\<lambda>v. if v = ''SGE_ROOT'' then ''/opt/ocs/'' else if v = ''SGE_EXECD_PORT'' then ''6445'' else []),
      look_path = (\<lambda>p. Inr (''/opt/ocs/bin/'' @ p)), work_dir = Inr ''/root'',
      read_path = (\<lambda>p. Inr (''default_domain none'' @ LF # ''admin_user  sgeadmin'' @ [LF]))\<rparr>"

definition sample_hook_flags :: queueHookOptions where
  "sample_hook_flags =
     \<lparr>configPath = ''/etc/q.json'', resourceName = ''qpu'', slotsResourceName = ''qpu_slots'', qstatPath = '' qstat'',
      hookUser = [], logLevel = [], launcher = []\<rparr>"

definition sample_hook_options :: queueHookOptions where
  "sample_hook_options = sample_hook_flags\<lparr>qstatPath := ''/opt/ocs/bin/qstat'', hookUser := ''sgeadmin''\<rparr>"

lemma sample_options: "queueHookOptionsFromFlags sample_shell sample_hook_flags = Inr sample_hook_options"
  by code_simp

lemma sample_hooks:
  "fst (configureQueueHookPaths sample_shell store_qconf ''all.q'' ''/q/prolog '' ''/q/epilog'' sample_hook_options
     sample_session) = None"
  by code_simp

theorem hook_commands_read_back_witness:
  "\<exists>p. split SP p = command_words sample_hook_options ''/q/qrmi-ocs-launch''
     (settings_for sample_shell [''/spool'', ''/spool/n1'']) ''/q/prolog'' (prolog_args sample_hook_options)"
proof -
  have t: "trim_space ''/q/prolog '' = ''/q/prolog''" "trim_space ''/q/epilog'' = ''/q/epilog''"
    "owner_word ''alice''" "launcher_path sample_hook_options ''/q/prolog '' = ''/q/qrmi-ocs-launch''"
    "spoolRoots store_qconf (cluster sample_session) = Inr [''/spool'', ''/spool/n1'']" by code_simp+
  have wd: "\<forall>wd. work_dir sample_shell = Inr wd \<longrightarrow> is_abs wd" by (simp add: sample_shell_def is_abs_def)
  obtain s' where "configureQueueHookPaths sample_shell store_qconf ''all.q'' ''/q/prolog '' ''/q/epilog''
      sample_hook_options sample_session = (None, s')"
    using sample_hooks by (metis prod.collapse)
  from hook_commands_read_back [OF sample_options wd _ _ t(3) this] show ?thesis unfolding t by auto
qed

text \<open>
  A prolog that is switched off with \<open>NONE\<close> leaves the launcher's default without a directory, so
  an epilog is refused unless the launcher is named.
\<close>

lemma prolog_none_needs_launcher:
  assumes "launcher opts = []" "trim_space prolog = ''NONE''" "trim_space epilog \<noteq> ''NONE''"
  shows "isl (hook_commands sh q c prolog epilog opts)"
proof -
  have "launcher_path opts prolog = path_join [path_dir ''NONE'', launcherName]"
    using assms by (simp add: launcher_path_def)
  moreover have "bad_hook_path (path_join [path_dir ''NONE'', launcherName])" by code_simp
  ultimately have "isl (qrmiQueueHookCommand epilog (launcher_path opts prolog) user largs args)" for user largs args
    using assms(3) by (simp add: qrmiQueueHookCommand_def Let_def)
  then have "\<nexists>e. qrmiQueueHookCommand epilog (launcher_path opts prolog) user largs args = Inr e" for user largs args
    by (metis sum.disc(2))
  then show ?thesis by (simp add: hook_commands_def split: sum.split)
qed

end
