(* ===== verification/Spec2Isabelle.thy ===== *)
theory Spec2Isabelle
  imports C_Metadata Epilog_Run Env_Typed Handle_Safety Prolog_Lists Prolog_Result Launcher Load_Sensor Adapter Adapter_Settled Hook_Contract
begin

text \<open>
  The Go programs of qpu-resource, which give the jobs of a Gridware or Open Cluster Scheduler
  access to quantum processors. Paths are under \<open>src/src/\<close>.

  \<^bold>\<open>The programs and how they meet.\<close>
  An administrator runs the adapter (\<open>cmd/gridware-adapter\<close>), which writes the resources, the
  load sensor and the hook commands into the scheduler's configuration. For a job the scheduler starts
  the launcher (\<open>cmd/qrmi-ocs-launch\<close>) with the job's environment; it replaces that environment and
  itself with the prolog (\<open>cmd/qrmi-ocs-prolog-go\<close>) before the job and the epilog
  (\<open>cmd/qrmi-ocs-epilog-go\<close>) after it. The prolog asks the scheduler what the job requested, acquires a
  token from libqrmi, and leaves a metadata file and variables in the job's spool
  directory; the epilog reads the metadata, releases the token and writes the accounting. The
  load sensor (\<open>cmd/qrmi-ocs-load-sensor\<close>) reports the state of a quantum processor to the scheduler.

  \<^bold>\<open>The theories.\<close>
  \<^item> \<open>Prelude\<close>: the types (a Go \<open>int\<close> is a 64-bit word, a string a list of bytes), the collections of
    rules, and lemmas on lists and maps.
  \<^item> \<open>Go_Strings\<close>, \<open>Go_Errors\<close>, \<open>Go_Path\<close>, \<open>Go_Scan\<close>, \<open>Go_Flag\<close>, \<open>Go_Typed_Flag\<close>, \<open>Go_Float\<close>: what the
    sources use of Go's standard library, with the laws of each operation.
  \<^item> \<open>File_Tree\<close>, \<open>Link_Cycles\<close>, \<open>Host\<close>: the machine. \<open>File_Tree\<close> is the directory tree with symbolic
    links, for the checks of paths, and \<open>Link_Cycles\<close> the resolutions that never end; \<open>Host\<close> has the files a hook writes, the process environment, the log and the
    system calls, each of which can fail. A statement for every \<open>host\<close> is one for every pattern of
    failing calls. The history of file states and the list of library calls are ghost fields.
  \<^item> \<open>Grant\<close>, \<open>Log_Level\<close>, \<open>Metadata\<close>, \<open>Job_Env\<close>, \<open>Sanitize\<close>: the package \<open>internal/qrmiocs\<close>, a theory for
    each of its files (\<open>paths.go\<close> is with \<open>env.go\<close>, the logger of \<open>log.go\<close> is in \<open>Host\<close>).
  \<^item> \<open>C_Metadata\<close>: the line the C prolog writes and the reader of the C epilog, which share the
    metadata file with the Go versions (\<open>cmd/qrmi-ocs-prolog/main.c\<close>, \<open>cmd/qrmi-ocs-epilog/main.c\<close>).
  \<^item> \<open>Qrmi\<close>: the package \<open>internal/qrmi\<close>; libqrmi is the record \<open>capi\<close> of functions on an opaque
    state. Its handles obey the locale \<open>scoped\<close>, interpreted on config, definition and resource; \<open>brackets\<close> says that a trace of calls is well nested.
  \<^item> \<open>Cgo_Memory\<close>, \<open>Cgo_Binding\<close>: the same package with the C strings it makes, reads and frees. The
    allocators of Go and of libqrmi are the interpretations of the locale \<open>string_owner\<close>. \<open>Cgo_Client\<close>
    has the programs on the package, as sequences of calls on its objects, and the locale
    \<open>simulation\<close>, whose interpretation says that both descriptions of the package agree;
    \<open>Handle_Safety\<close> has the properties, with a library that watches which of its handles are open and
    behaves arbitrarily on the others.
  \<^item> \<open>Launcher\<close>, \<open>Prolog\<close>, \<open>Prolog_Run\<close>, \<open>Epilog\<close>: the three programs of a job. \<open>Prolog\<close> has the
    definitions and what each of its steps may change, \<open>Prolog_Run\<close> the theorems on whole runs,
    \<open>Prolog_Result\<close> everything a successful run leaves, with every variable written out.
    \<open>Prolog_Lists\<close> is about the lists that the scheduler's commands print.
  \<^item> \<open>Job_Life\<close>, \<open>Epilog_Run\<close>: the prolog and the epilog of one job together, and the epilog that
    succeeds. \<open>Env_Typed\<close>: what both processes keep well formed.
  \<^item> \<open>Availability\<close>, \<open>Load_Sensor\<close>: the package \<open>internal/availability\<close> and the load sensor. The
    interface of \<open>provider.go\<close> is the locale \<open>provider\<close>, interpreted on every provider.
  \<^item> \<open>Qconf\<close>, \<open>Adapter_Resources\<close>, \<open>Adapter_Hooks\<close>, \<open>Adapter\<close>: the adapter. The qconf client package is
    a record of functions on an opaque cluster. \<open>Adapter_Settled\<close> is about repeated runs, under the
    laws \<open>lawful_qconf\<close>; \<open>Hook_Contract\<close> reads the rendered commands with the parsers of the
    launcher and the hooks.

  \<^bold>\<open>What the lemmas show.\<close>
  \<^item> The metadata file: a write is atomic under every pattern of failing calls, what is written
    is read back under an exact condition, and the reader is strict. A record crosses between the Go
    and the C hooks under an exact condition, and the two readers agree on the token.
  \<^item> The job environment: the file and the process environment agree as long as \<open>Set\<close> succeeds; a
    failed write freezes the file; a value with a line feed defines more variables.
  \<^item> The environment and the paths: which variables a hook sees and what they depend on, that an
    accepted spool directory has no symbolic link, that only a file of root is executed, and that
    every path whose links lead in a circle is refused.
  \<^item> The prolog: it leaks no handle and no token, what a successful run leaves value by value, when it succeeds, and
    that it acts only on the word of trusted executables.
  \<^item> The epilog: it releases the recorded token only, never loses the metadata of a token that was
    not released, gives the token back and cleans up when nothing fails, and its exit code and
    accounting.
  \<^item> Both hooks: the process environment stays one that an \<open>environ\<close> block can hold, and a job
    environment file that was opened is closed at the end.
  \<^item> The binding: it gives the same results with its C strings as without them, never reads or frees a
    string that is not allocated, and no program can make the library use, read or free a handle that is not open.
  \<^item> The load sensor: its output is a list of reports, and it reports ready only on a positive
    answer.
  \<^item> The adapter: the commands it writes are read back; \<open>ensure-resource\<close> leaves the entries, values and
    load sensors it is for, keeps everything else, and is idempotent.

  \<^bold>\<open>Bounds.\<close>
  The definitions are total. The walk along symbolic links follows 255 links in
  \<open>EvalSymlinks\<close> and 40 in the kernel, as Go and Linux do; no other definition has fuel. The
  scanner stops at lines of 64 KiB, at 1 MiB for the metadata; buffers have 4096 bytes. Integers are
  64-bit words where the code computes with them (the time of a release, the slots, the timeout).

  \<^bold>\<open>Not modelled.\<close>
  \<^item> The C versions of the hooks (\<open>cmd/qrmi-ocs-prolog/main.c\<close>, \<open>cmd/qrmi-ocs-epilog/main.c\<close>) but for the
    metadata file they share with the Go versions, the tests, and the build files.
  \<^item> Code outside the repository: libqrmi, the qconf client, YAML, HTTP, JSON, \<open>url.JoinPath\<close>, and the
    scheduler and its tools. They are parameters.
  \<^item> The threads of Go: the mutex of the log callback, and the thread whose last error libqrmi reports.
    The memory of libqrmi's own objects is its own; only their handles are counted.
  \<^item> The help texts of the commands, and the time stamps of log lines.
  \<^item> Other processes that change the same files or the cluster during a run, and a process that is
    killed in the middle of one; the theorems on every state of the file system cover the
    states that such a process would leave.
\<close>

end
